(* ===== verification/Prelude.thy ===== *)
theory Prelude
  imports Main "HOL-Library.Word" "HOL-Library.List_Lexorder"
begin

text \<open>
  The prelude of the development: the machine integers, the result and panic types,
  the parts of the Rust standard library that every crate of the workspace uses
  (checked arithmetic, big-endian byte arrays, decimal printing, I/O error kinds,
  socket addresses), and two interfaces: fixed-width byte codecs and systems with an
  inductive invariant.
\<close>

section \<open>Machine integers\<close>

text \<open>
  Unsigned integers are words read with \<^const>\<open>unat\<close>; signed integers are words of the
  same width read with \<^const>\<open>sint\<close>, so that a cast with \<^verbatim>\<open>as\<close> between the two keeps
  the bits, as it does in Rust.
\<close>

type_synonym byte = "8 word"
type_synonym u16 = "16 word"
type_synonym u32 = "32 word"
type_synonym u64 = "64 word"
type_synonym u128 = "128 word"
type_synonym i32 = "32 word"
type_synonym i64 = "64 word"
type_synonym i128 = "128 word"

definition fits_signed :: "nat \<Rightarrow> int \<Rightarrow> bool" where
  "fits_signed w n \<longleftrightarrow> - (2 ^ (w - 1)) \<le> n \<and> n < 2 ^ (w - 1)"

definition checked_signed :: "int \<Rightarrow> 'a::len word option" where
  "checked_signed n = (if fits_signed LENGTH('a) n then Some (word_of_int n) else None)"

definition checked_unsigned :: "nat \<Rightarrow> 'a::len word option" where
  "checked_unsigned n = (if n < 2 ^ LENGTH('a) then Some (word_of_nat n) else None)"

text \<open>\<^verbatim>\<open>checked_add\<close>, \<^verbatim>\<open>checked_sub\<close> and \<^verbatim>\<open>checked_mul\<close> of the signed and unsigned types.\<close>

definition checked_add_s :: "'a::len word \<Rightarrow> 'a word \<Rightarrow> 'a word option" where
  "checked_add_s a b = checked_signed (sint a + sint b)"

definition checked_sub_s :: "'a::len word \<Rightarrow> 'a word \<Rightarrow> 'a word option" where
  "checked_sub_s a b = checked_signed (sint a - sint b)"

definition checked_add_u :: "'a::len word \<Rightarrow> 'a word \<Rightarrow> 'a word option" where
  "checked_add_u a b = checked_unsigned (unat a + unat b)"

definition checked_mul_u :: "'a::len word \<Rightarrow> 'a word \<Rightarrow> 'a word option" where
  "checked_mul_u a b = checked_unsigned (unat a * unat b)"

text \<open>\<^verbatim>\<open>try_into\<close> from an unsigned type to the signed type of the same width.\<close>

definition try_into_signed :: "'a::len word \<Rightarrow> 'a word option" where
  "try_into_signed w = (if unat w < 2 ^ (LENGTH('a) - 1) then Some w else None)"

lemma sint_word_of_int_fits:
  "fits_signed LENGTH('a::len) n \<Longrightarrow> sint (word_of_int n :: 'a word) = n"
  by (auto simp: fits_signed_def signed_of_int intro!: signed_take_bit_int_eq_self)

lemma fits_signed_sint: "fits_signed LENGTH('a::len) (sint (w :: 'a word))"
  by (auto simp: fits_signed_def sint_greater_eq sint_less)

lemma checked_signed_Some_iff:
  "checked_signed n = Some (w :: 'a::len word) \<longleftrightarrow> sint w = n"
  by (auto simp: checked_signed_def sint_word_of_int_fits fits_signed_sint)

lemma checked_signed_None_iff:
  "(checked_signed n :: 'a::len word option) = None \<longleftrightarrow> \<not> fits_signed LENGTH('a) n"
  by (simp add: checked_signed_def)

lemma checked_unsigned_Some_iff:
  "checked_unsigned n = Some (w :: 'a::len word) \<longleftrightarrow> unat w = n"
  by (auto simp: checked_unsigned_def unat_of_nat unsigned_less)

lemma checked_unsigned_None_iff:
  "(checked_unsigned n :: 'a::len word option) = None \<longleftrightarrow> 2 ^ LENGTH('a) \<le> n"
  by (simp add: checked_unsigned_def not_less)

lemma try_into_signed_Some_iff:
  "try_into_signed w = Some (v :: 'a::len word) \<longleftrightarrow> v = w \<and> unat w < 2 ^ (LENGTH('a) - 1)"
  by (auto simp: try_into_signed_def)

lemma fits_signed_nonneg: "0 \<le> n \<Longrightarrow> n < 2 ^ (w - 1) \<Longrightarrow> fits_signed w n"
  unfolding fits_signed_def by (meson neg_le_0_iff_le order_trans zero_le_numeral zero_le_power)

lemma sint_eq_unat:
  fixes w :: "'a::len word"
  assumes "unat w < 2 ^ (LENGTH('a) - 1)"
  shows "sint w = int (unat w)"
proof -
  from assms have "int (unat w) < 2 ^ (LENGTH('a) - 1)"
    by (metis of_nat_less_iff of_nat_numeral of_nat_power)
  then have "sint (word_of_int (int (unat w)) :: 'a word) = int (unat w)"
    by (intro sint_word_of_int_fits fits_signed_nonneg) auto
  then show ?thesis by simp
qed

lemma unat_eq_sint:
  fixes w :: "'a::len word"
  assumes "0 \<le> sint w"
  shows "unat w = nat (sint w)"
proof -
  have "sint w < 2 ^ (LENGTH('a) - 1)"
    using fits_signed_sint[of w] by (simp add: fits_signed_def)
  also have "(2::int) ^ (LENGTH('a) - 1) \<le> 2 ^ LENGTH('a)"
    by (rule power_increasing) simp_all
  finally have "nat (sint w) < 2 ^ LENGTH('a)"
    using assms by (simp add: nat_less_iff)
  then have "unat (word_of_nat (nat (sint w)) :: 'a word) = nat (sint w)"
    by (simp add: unat_of_nat)
  moreover have "word_of_nat (nat (sint w)) = w"
    using assms by simp
  ultimately show ?thesis by simp
qed

lemma sint_nonneg_iff: "0 \<le> sint (w :: 'a::len word) \<longleftrightarrow> unat w < 2 ^ (LENGTH('a) - 1)"
proof
  assume *: "0 \<le> sint w"
  have "sint w < 2 ^ (LENGTH('a) - 1)"
    using fits_signed_sint[of w] by (simp add: fits_signed_def)
  with * show "unat w < 2 ^ (LENGTH('a) - 1)"
    by (simp add: unat_eq_sint nat_less_iff)
qed (simp add: sint_eq_unat)

lemma half_range: "a < 2 ^ (w - 1) \<Longrightarrow> b < 2 ^ (w - 1) \<Longrightarrow> 0 < w \<Longrightarrow> a + b < (2::nat) ^ w"
  by (cases w) auto

lemma checked_add_s_nonneg:
  fixes a b :: "'a::len word"
  assumes "unat a < 2 ^ (LENGTH('a) - 1)" and "unat b < 2 ^ (LENGTH('a) - 1)"
  shows "checked_add_s a b = (if unat a + unat b < 2 ^ (LENGTH('a) - 1) then Some (a + b) else None)"
    and "unat (a + b) = unat a + unat b"
proof -
  have "unat a + unat b < 2 ^ LENGTH('a)"
    using assms by (intro half_range) auto
  then show "unat (a + b) = unat a + unat b" by (simp add: unat_word_ariths)
  have "fits_signed LENGTH('a) (int (unat a) + int (unat b)) \<longleftrightarrow> unat a + unat b < 2 ^ (LENGTH('a) - 1)"
    using of_nat_less_numeral_power_cancel_iff[of "unat a + unat b" "num.Bit0 num.One" "LENGTH('a) - 1", where 'a=int]
      fits_signed_nonneg[of "int (unat a) + int (unat b)" "LENGTH('a)"]
    by (auto simp: fits_signed_def)
  then show "checked_add_s a b = (if unat a + unat b < 2 ^ (LENGTH('a) - 1) then Some (a + b) else None)"
    using assms by (auto simp: checked_add_s_def checked_signed_def sint_eq_unat)
qed

lemma checked_sub_s_nonneg:
  fixes a b :: "'a::len word"
  assumes "unat a < 2 ^ (LENGTH('a) - 1)" and "unat b < 2 ^ (LENGTH('a) - 1)"
  shows "checked_sub_s a b = Some (a - b)"
    and "sint (a - b) < 0 \<longleftrightarrow> unat a < unat b"
    and "unat b \<le> unat a \<Longrightarrow> unat (a - b) = unat a - unat b"
proof -
  have "int (unat a) < 2 ^ (LENGTH('a) - 1)" "int (unat b) < 2 ^ (LENGTH('a) - 1)"
    using assms unfolding of_nat_less_numeral_power_cancel_iff by blast+
  then have fits: "fits_signed LENGTH('a) (int (unat a) - int (unat b))"
    unfolding fits_signed_def by linarith
  then show c: "checked_sub_s a b = Some (a - b)"
    using assms by (simp add: checked_sub_s_def checked_signed_def sint_eq_unat)
  have "sint (a - b) = int (unat a) - int (unat b)"
    using c assms by (simp add: checked_sub_s_def checked_signed_Some_iff sint_eq_unat)
  then show "sint (a - b) < 0 \<longleftrightarrow> unat a < unat b" by linarith
  show "unat b \<le> unat a \<Longrightarrow> unat (a - b) = unat a - unat b"
    by (simp add: unat_sub word_le_nat_alt)
qed

section \<open>Results, panics and I/O errors\<close>

text \<open>
  \<^verbatim>\<open>Result<T, E>\<close> is a sum with the error on the left. \<^verbatim>\<open>?\<close> is \<open>result_bind\<close>, with
  \<open>map_err\<close> for the conversion of the error. A call that may panic returns an
  \<open>outcome\<close>.
\<close>

definition result_bind :: "'e + 'a \<Rightarrow> ('a \<Rightarrow> 'e + 'b) \<Rightarrow> 'e + 'b" where
  "result_bind r f = (case r of Inl e \<Rightarrow> Inl e | Inr a \<Rightarrow> f a)"

definition map_err :: "('e \<Rightarrow> 'f) \<Rightarrow> 'e + 'a \<Rightarrow> 'f + 'a" where
  "map_err g r = (case r of Inl e \<Rightarrow> Inl (g e) | Inr a \<Rightarrow> Inr a)"

definition ok_or :: "'e \<Rightarrow> 'a option \<Rightarrow> 'e + 'a" where
  "ok_or e v = (case v of None \<Rightarrow> Inl e | Some a \<Rightarrow> Inr a)"

datatype 'a outcome = Panic | Returns 'a

lemma result_bind_simps [simp]:
  "result_bind (Inl e) f = Inl e"
  "result_bind (Inr a) f = f a"
  by (simp_all add: result_bind_def)

lemma result_bind_Inr_iff:
  "result_bind r f = Inr b \<longleftrightarrow> (\<exists>a. r = Inr a \<and> f a = Inr b)"
  by (cases r) auto

lemma map_err_simps [simp]:
  "map_err g (Inl e) = Inl (g e)"
  "map_err g (Inr a) = Inr a"
  by (simp_all add: map_err_def)

lemma map_err_Inr_iff [simp]: "map_err g r = Inr a \<longleftrightarrow> r = Inr a"
  by (cases r) auto

lemma ok_or_simps [simp]:
  "ok_or e None = Inl e"
  "ok_or e (Some a) = Inr a"
  by (simp_all add: ok_or_def)

lemma result_state_cases:
  assumes "\<And>e d. f = (Inl e, d) \<Longrightarrow> P d" and "\<And>x d. f = (Inr x, d) \<Longrightarrow> P d"
  shows "P (snd f)"
  using assms by (cases f; cases "fst f") auto

text \<open>The kinds of \<^verbatim>\<open>std::io::Error\<close> the code distinguishes, and all others.\<close>

datatype ErrorKind =
    NotFound | PermissionDenied | ConnectionReset | ConnectionAborted | BrokenPipe
  | UnexpectedEof | InvalidData | TimedOut | NetworkDown | AddrInUse | AddrNotAvailable
  | AlreadyExists
  | OtherKind nat

datatype io_error = IoError (io_kind: ErrorKind) (io_text: string)

text \<open>Internet addresses; the textual forms are read and printed by functions passed in.\<close>

datatype IpAddr = V4 u32 | V6 u128

record SocketAddr =
  addr_ip :: IpAddr
  addr_port :: u16

section \<open>Decimal printing\<close>

fun show_nat :: "nat \<Rightarrow> string" where
  "show_nat n = (if n < 10 then [char_of (48 + n)]
                 else show_nat (n div 10) @ [char_of (48 + n mod 10)])"

declare show_nat.simps [simp del]

definition show_int :: "int \<Rightarrow> string" where
  "show_int n = (if n < 0 then CHR ''-'' # show_nat (nat (- n)) else show_nat (nat n))"

section \<open>Big-endian byte arrays\<close>

text \<open>
  \<^verbatim>\<open>to_be_bytes\<close> and \<^verbatim>\<open>from_be_bytes\<close>: the most significant byte first. \<open>be_val\<close> is the
  number a byte list denotes in base 256.
\<close>

primrec be_bytes :: "nat \<Rightarrow> 'a::len word \<Rightarrow> byte list" where
  "be_bytes 0 w = []"
| "be_bytes (Suc k) w = be_bytes k (drop_bit 8 w) @ [ucast w]"

definition of_be_bytes :: "byte list \<Rightarrow> 'a::len word" where
  "of_be_bytes bs = foldl (\<lambda>acc b. acc * 256 + ucast b) 0 bs"

primrec be_val :: "byte list \<Rightarrow> nat" where
  "be_val [] = 0"
| "be_val (b # bs) = unat b * 256 ^ length bs + be_val bs"

lemma length_be_bytes [simp]: "length (be_bytes k w) = k"
  by (induction k arbitrary: w) auto

lemma be_val_append: "be_val (bs @ cs) = be_val bs * 256 ^ length cs + be_val cs"
  by (induction bs) (auto simp: algebra_simps power_add)

lemma unat_lt_256: "unat (b :: byte) < 256"
  using unsigned_less[of b, where 'a=nat] by simp

lemma be_digit_less:
  assumes "a < 256" and "v < p"
  shows "a * p + v < 256 * (p::nat)"
proof -
  from assms(1) have "Suc a * p \<le> 256 * p" by (intro mult_le_mono1) simp
  then have "p + a * p \<le> 256 * p" by (simp only: mult_Suc)
  with assms(2) show ?thesis by linarith
qed

lemma be_val_less: "be_val bs < 256 ^ length bs"
  by (induction bs) (simp_all add: be_digit_less unat_lt_256)

lemma be_val_be_bytes: "be_val (be_bytes k w) = unat w mod 256 ^ k"
proof (induction k arbitrary: w)
  case (Suc k)
  have a: "unat (ucast w :: byte) = unat w mod 256"
    by (simp add: unsigned_ucast_eq take_bit_eq_mod)
  have b: "unat (drop_bit 8 w) = unat w div 256"
    unfolding unat_drop_bit_eq by (simp add: drop_bit_eq_div)
  show ?case
    by (simp add: be_val_append a b Suc mod_mult2_eq)
qed simp

lemma of_be_bytes_eq: "of_be_bytes bs = (of_nat (be_val bs) :: 'a::len word)"
proof (induction bs rule: rev_induct)
  case (snoc b bs)
  then show ?case by (simp add: of_be_bytes_def be_val_append)
qed (simp add: of_be_bytes_def)

lemma of_be_bytes_be_bytes:
  assumes "LENGTH('a::len) = 8 * k"
  shows "of_be_bytes (be_bytes k w) = (w :: 'a word)"
proof -
  have "256 ^ k = (2::nat) ^ LENGTH('a)" using assms by (simp add: power_mult)
  moreover have "unat w < 2 ^ LENGTH('a)" by (rule unsigned_less)
  ultimately show ?thesis
    by (simp add: of_be_bytes_eq be_val_be_bytes)
qed

text \<open>
  On byte lists of one length the lexicographic order (what \<^verbatim>\<open>memcmp\<close> computes) is the
  order of the numbers they denote.
\<close>

lemma be_val_Cons_less:
  assumes "unat b < unat c" and "length bs = length cs"
  shows "be_val (b # bs) < be_val (c # cs)"
proof -
  from assms(1) have "Suc (unat b) * 256 ^ length bs \<le> unat c * 256 ^ length bs"
    by (intro mult_le_mono1) simp
  with be_val_less[of bs] assms(2) show ?thesis by simp
qed

lemma be_val_less_iff:
  "length bs = length cs \<Longrightarrow> be_val bs < be_val cs \<longleftrightarrow> bs < cs"
proof (induction bs cs rule: list_induct2)
  case (Cons b bs c cs)
  then show ?case
    using be_val_Cons_less[of b c bs cs] be_val_Cons_less[of c b cs bs]
    by (cases "unat b" "unat c" rule: linorder_cases)
      (auto simp: word_less_nat_alt word_unat_eq_iff)
qed simp

lemma be_val_inject: "length bs = length cs \<Longrightarrow> be_val bs = be_val cs \<Longrightarrow> bs = cs"
  using be_val_less_iff[of bs cs] be_val_less_iff[of cs bs]
  by (auto simp: not_less_iff_gr_or_eq)

lemma be_bytes_of_be_bytes:
  assumes "LENGTH('a::len) = 8 * k" and "length bs = k"
  shows "be_bytes k (of_be_bytes bs :: 'a word) = bs"
proof (rule be_val_inject)
  have "256 ^ k = (2::nat) ^ LENGTH('a)" using assms by (simp add: power_mult)
  with be_val_less[of bs] assms(2)
  show "be_val (be_bytes k (of_be_bytes bs :: 'a word)) = be_val bs"
    by (simp add: be_val_be_bytes of_be_bytes_eq unat_of_nat)
qed (simp add: assms)

lemma be_bytes_less_iff:
  assumes "LENGTH('a::len) = 8 * k"
  shows "be_bytes k v < be_bytes k (w :: 'a word) \<longleftrightarrow> v < w"
proof -
  have "256 ^ k = (2::nat) ^ LENGTH('a)" using assms by (simp add: power_mult)
  moreover have "unat v < 2 ^ LENGTH('a)" "unat w < 2 ^ LENGTH('a)"
    by (rule unsigned_less)+
  ultimately show ?thesis
    by (simp add: be_val_less_iff [symmetric] be_val_be_bytes word_less_nat_alt)
qed

section \<open>Interface: fixed-width codecs\<close>

text \<open>
  What a reader of stored or signed bytes relies on: the well-formed values are encoded
  in exactly \<open>width\<close> bytes, decoding inverts encoding, and only encodings decode.
\<close>

locale fixed_codec =
  fixes wf :: "'a \<Rightarrow> bool"
    and enc :: "'a \<Rightarrow> byte list"
    and dec :: "byte list \<Rightarrow> 'a option"
    and width :: nat
  assumes enc_width: "wf x \<Longrightarrow> length (enc x) = width"
    and dec_enc: "wf x \<Longrightarrow> dec (enc x) = Some x"
    and dec_sound: "dec bs = Some x \<Longrightarrow> wf x \<and> enc x = bs"
begin

lemma enc_inject: "wf x \<Longrightarrow> wf y \<Longrightarrow> enc x = enc y \<longleftrightarrow> x = y"
  by (metis dec_enc option.inject)

lemma enc_append_inject:
  assumes "wf x" and "wf y" and "enc x @ r = enc y @ s"
  shows "x = y \<and> r = s"
proof -
  have "length (enc x) = length (enc y)" using assms(1,2) by (simp add: enc_width)
  with assms(3) have "enc x = enc y \<and> r = s" by simp
  with assms(1,2) show ?thesis by (simp add: enc_inject)
qed

lemma dec_Some_width: "dec bs = Some x \<Longrightarrow> length bs = width"
  using dec_sound enc_width by metis

lemma dec_all:
  "list_all wf xs \<Longrightarrow> map (\<lambda>x. dec (enc x)) xs = map Some xs"
  by (induction xs) (auto simp: dec_enc)

end

section \<open>Interface: systems with an inductive invariant\<close>

locale invariant_system =
  fixes init :: "'s \<Rightarrow> bool"
    and step :: "'s \<Rightarrow> 's \<Rightarrow> bool"
    and inv :: "'s \<Rightarrow> bool"
  assumes init_inv: "init s \<Longrightarrow> inv s"
    and step_inv: "step s t \<Longrightarrow> inv s \<Longrightarrow> inv t"
begin

lemma steps_inv: "step\<^sup>*\<^sup>* s t \<Longrightarrow> inv s \<Longrightarrow> inv t"
  by (induction rule: rtranclp_induct) (auto intro: step_inv)

lemma reachable_inv: "init s \<Longrightarrow> step\<^sup>*\<^sup>* s t \<Longrightarrow> inv t"
  by (blast intro: steps_inv init_inv)

end

end
