(* ===== verification/Protocol.thy ===== *)
theory Protocol
  imports Prelude
begin

text \<open>
  The shared network protocol, \<^verbatim>\<open>shared_library/src/server_protocol.rs\<close> and
  \<^verbatim>\<open>shared_library/src/ca_protocol.rs\<close>: hashes, signatures, timestamps, the signing and
  the verifying function, the messages between client and server and between server and
  certification authority.

  The crates \<^verbatim>\<open>sha2\<close>, \<^verbatim>\<open>rsa\<close>, \<^verbatim>\<open>hex\<close> and \<^verbatim>\<open>wincode\<close> are parameters: the records
  \<open>crypto\<close>, \<open>hex_crate\<close> and \<open>wincode\<close> hold the functions the source calls.
\<close>

section \<open>Crates the protocol calls\<close>

text \<open>
  \<open>digest_new\<close>, \<open>digest_update\<close>, \<open>digest_finalize\<close> are the \<^verbatim>\<open>Digest\<close> methods of
  \<^verbatim>\<open>Sha256\<close>; \<open>rsa_sign\<close> and \<open>rsa_verify\<close> are \<^verbatim>\<open>RsaPrivateKey::sign\<close> and
  \<^verbatim>\<open>RsaPublicKey::verify\<close> under \<^verbatim>\<open>Pkcs1v15Sign::new::<Sha256>()\<close>.
\<close>

datatype rsa_error = RsaError string

record ('h, 'sk, 'pk) crypto =
  digest_new :: 'h
  digest_update :: "'h \<Rightarrow> byte list \<Rightarrow> 'h"
  digest_finalize :: "'h \<Rightarrow> byte list"
  rsa_sign :: "'sk \<Rightarrow> byte list \<Rightarrow> rsa_error + byte list"
  rsa_verify :: "'pk \<Rightarrow> byte list \<Rightarrow> byte list \<Rightarrow> rsa_error + unit"

datatype FromHexError = FromHexError string

record hex_crate =
  hex_encode :: "byte list \<Rightarrow> string"
  hex_decode_to_slice :: "string \<Rightarrow> nat \<Rightarrow> FromHexError + byte list"

section \<open>Hashes\<close>

text \<open>\<^verbatim>\<open>struct Sha256Hash([u8; 32])\<close>; \<open>wf_hash\<close> is the length of the array.\<close>

datatype Sha256Hash = Sha256Hash "byte list"

primrec Sha256Hash_as_bytes :: "Sha256Hash \<Rightarrow> byte list" where
  "Sha256Hash_as_bytes (Sha256Hash bs) = bs"

definition wf_hash :: "Sha256Hash \<Rightarrow> bool" where
  "wf_hash h \<longleftrightarrow> length (Sha256Hash_as_bytes h) = 32"

definition Sha256Hash_from :: "byte list \<Rightarrow> Sha256Hash" where
  "Sha256Hash_from raw_bytes = (let raw_bytes_copy = raw_bytes in Sha256Hash raw_bytes_copy)"

definition Sha256Hash_display :: "hex_crate \<Rightarrow> Sha256Hash \<Rightarrow> string" where
  "Sha256Hash_display hx h = hex_encode hx (Sha256Hash_as_bytes h)"

datatype Sha256ParseError = InvalidHex FromHexError

definition Sha256Hash_from_str :: "hex_crate \<Rightarrow> string \<Rightarrow> Sha256ParseError + Sha256Hash" where
  "Sha256Hash_from_str hx s =
     result_bind (map_err InvalidHex (hex_decode_to_slice hx s 32)) (\<lambda>bytes. Inr (Sha256Hash bytes))"

section \<open>Signatures\<close>

definition RSA_KEY_SIZE_IN_BITS :: nat where
  "RSA_KEY_SIZE_IN_BITS = 2048"

definition RSA_KEY_SIZE_IN_BYTES :: nat where
  "RSA_KEY_SIZE_IN_BYTES = RSA_KEY_SIZE_IN_BITS div 8"

datatype RsaSignature = RsaSignature "byte list"

primrec RsaSignature_as_bytes :: "RsaSignature \<Rightarrow> byte list" where
  "RsaSignature_as_bytes (RsaSignature bs) = bs"

definition wf_signature :: "RsaSignature \<Rightarrow> bool" where
  "wf_signature s \<longleftrightarrow> length (RsaSignature_as_bytes s) = RSA_KEY_SIZE_IN_BYTES"

datatype InvalidLengthForRsaSignature = InvalidLengthForRsaSignature nat

definition RsaSignature_try_from :: "byte list \<Rightarrow> InvalidLengthForRsaSignature + RsaSignature" where
  "RsaSignature_try_from v =
     (if length v = RSA_KEY_SIZE_IN_BYTES then Inr (RsaSignature v)
      else Inl (InvalidLengthForRsaSignature (length v)))"

definition RsaSignature_display :: "hex_crate \<Rightarrow> RsaSignature \<Rightarrow> string" where
  "RsaSignature_display hx s =
     ''------ BEGIN SERVER SIGNATURE ------'' @ [CHR 0x0A] @
     hex_encode hx (RsaSignature_as_bytes s) @ [CHR 0x0A] @
     ''------- END SERVER SIGNATURE -------'' @ [CHR 0x0A]"

section \<open>Timestamps\<close>

datatype Timestamp = Timestamp u128

primrec Timestamp_get :: "Timestamp \<Rightarrow> u128" where
  "Timestamp_get (Timestamp n) = n"

definition Timestamp_new :: "u128 \<Rightarrow> Timestamp" where
  "Timestamp_new n = Timestamp n"

definition Timestamp_from_be :: "byte list \<Rightarrow> Timestamp" where
  "Timestamp_from_be be_array = (let raw_value = of_be_bytes be_array in Timestamp_new raw_value)"

definition Timestamp_as_be_bytes :: "Timestamp \<Rightarrow> byte list" where
  "Timestamp_as_be_bytes t = be_bytes 16 (Timestamp_get t)"

text \<open>\<^verbatim>\<open>to_ne_bytes\<close> depends on the target: \<open>little\<close> says that it is little endian.\<close>

definition Timestamp_as_bytes :: "bool \<Rightarrow> Timestamp \<Rightarrow> byte list" where
  "Timestamp_as_bytes little t =
     (if little then rev (be_bytes 16 (Timestamp_get t)) else be_bytes 16 (Timestamp_get t))"

definition Timestamp_display :: "Timestamp \<Rightarrow> string" where
  "Timestamp_display t = show_nat (unat (Timestamp_get t))"

definition Timestamp_from :: "byte list \<Rightarrow> Timestamp" where
  "Timestamp_from v = Timestamp_new (of_be_bytes v)"

definition Timestamp_try_from :: "i64 \<Rightarrow> unit + Timestamp" where
  "Timestamp_try_from v = (if sint v < 0 then Inl () else Inr (Timestamp (scast v)))"

section \<open>Signing and verifying\<close>

text \<open>
  The \<^verbatim>\<open>expect\<close> on the conversion to a 256 byte array panics when the key does not
  produce signatures of that size.
\<close>

definition sign_with_timestamp ::
    "('h, 'sk, 'pk) crypto \<Rightarrow> 'sk \<Rightarrow> Sha256Hash \<Rightarrow> Timestamp \<Rightarrow> (rsa_error + RsaSignature) outcome"
  where
  "sign_with_timestamp cr signing_key hash_to_sign timestamp =
     (let hasher = digest_new cr;
          hasher = digest_update cr hasher (Sha256Hash_as_bytes hash_to_sign);
          hasher = digest_update cr hasher (be_bytes 16 (Timestamp_get timestamp));
          combined_hash = Sha256Hash (digest_finalize cr hasher)
      in case rsa_sign cr signing_key (Sha256Hash_as_bytes combined_hash) of
           Inl e \<Rightarrow> Returns (Inl e)
         | Inr signature_vec \<Rightarrow>
             (if length signature_vec = RSA_KEY_SIZE_IN_BYTES
              then Returns (Inr (RsaSignature signature_vec))
              else Panic))"

definition verify_timestamp_signature ::
    "('h, 'sk, 'pk) crypto \<Rightarrow> 'pk \<Rightarrow> Sha256Hash \<Rightarrow> Timestamp \<Rightarrow> RsaSignature \<Rightarrow> rsa_error + unit"
  where
  "verify_timestamp_signature cr public_key hash_to_verify timestamp signature =
     (let hasher = digest_new cr;
          hasher = digest_update cr hasher (Sha256Hash_as_bytes hash_to_verify);
          hasher = digest_update cr hasher (be_bytes 16 (Timestamp_get timestamp));
          combined_hash = Sha256Hash (digest_finalize cr hasher)
      in rsa_verify cr public_key (Sha256Hash_as_bytes combined_hash)
           (RsaSignature_as_bytes signature))"

section \<open>Messages\<close>

record HistoryRecord =
  hr_sign :: RsaSignature
  hr_timestamp :: Timestamp

definition HistoryRecord_new :: "RsaSignature \<Rightarrow> Timestamp \<Rightarrow> HistoryRecord" where
  "HistoryRecord_new hash timestamp = \<lparr>hr_sign = hash, hr_timestamp = timestamp\<rparr>"

datatype LoginError = InvalidCredentials | AlreadyLoggedIn

datatype SignInError = UsernameAlreadyTaken | AlreadyLoggedIn

definition MAX_USERNAME_LEN :: nat where "MAX_USERNAME_LEN = 32"
definition MAX_PASSWORD_LEN :: nat where "MAX_PASSWORD_LEN = 32"

definition is_username_length_valid :: "string \<Rightarrow> bool" where
  "is_username_length_valid username \<longleftrightarrow> length username \<le> MAX_USERNAME_LEN"

definition is_password_length_valid :: "string \<Rightarrow> bool" where
  "is_password_length_valid password \<longleftrightarrow> length password \<le> MAX_PASSWORD_LEN"

datatype Request =
    Login string string
  | SignUp string string
  | LogOut
  | SignHash Sha256Hash
  | PurchaseTokens u64
  | HowManyTokensDoIHave
  | History

datatype Response =
    Ok
  | LoginFailed LoginError
  | SignInFailed SignInError
  | NotLoggedIn
  | TokenCount u64
  | TokenAmountTooHigh
  | NotEnoughTokens
  | Token Sha256Hash RsaSignature Timestamp
  | OperationError string
  | History "HistoryRecord list"

datatype CaRequest = CertificateSign "byte list"

datatype CaResponse = CaOk string | CanNotSignTheCertificate string

text \<open>The serialisers \<^verbatim>\<open>wincode\<close> derives for the messages under \<^verbatim>\<open>BINCODE_CONFIG\<close>.\<close>

datatype wincode_write_error = WriteError string
datatype wincode_read_error = ReadError string

datatype SerializeError = SerializeError wincode_write_error
datatype DeserializeError = DeserializeError wincode_read_error

record wincode =
  wincode_enc_request :: "Request \<Rightarrow> wincode_write_error + byte list"
  wincode_dec_request :: "byte list \<Rightarrow> wincode_read_error + Request"
  wincode_enc_response :: "Response \<Rightarrow> wincode_write_error + byte list"
  wincode_dec_response :: "byte list \<Rightarrow> wincode_read_error + Response"

definition Request_serialize :: "wincode \<Rightarrow> Request \<Rightarrow> SerializeError + byte list" where
  "Request_serialize w r = map_err SerializeError (wincode_enc_request w r)"

definition Request_deserialize :: "wincode \<Rightarrow> byte list \<Rightarrow> DeserializeError + Request" where
  "Request_deserialize w bytes = map_err DeserializeError (wincode_dec_request w bytes)"

definition Response_serialize :: "wincode \<Rightarrow> Response \<Rightarrow> SerializeError + byte list" where
  "Response_serialize w r = map_err SerializeError (wincode_enc_response w r)"

definition Response_deserialize :: "wincode \<Rightarrow> byte list \<Rightarrow> DeserializeError + Response" where
  "Response_deserialize w bytes = map_err DeserializeError (wincode_dec_response w bytes)"

section \<open>What the crates promise\<close>

text \<open>
  Named hypotheses on the parameters. \<open>rsa_correct\<close>: a signature verifies under the public
  half of the key that made it. \<open>rsa_binding\<close>: PKCS\#1 v1.5 verification recovers the
  encoded digest from the signature, so one signature is accepted for one digest only.
  \<open>digest_streams\<close>: a digest depends on the concatenation of what was fed, not on how it
  was cut. \<open>digest_injective_on\<close>: the digest has no collision inside the given set.
  \<open>wincode_correct\<close>: what one side serialises, the other side reads back.
\<close>

definition rsa_correct :: "('h, 'sk, 'pk) crypto \<Rightarrow> 'sk \<Rightarrow> 'pk \<Rightarrow> bool" where
  "rsa_correct cr sk pk \<longleftrightarrow>
     (\<forall>d s. rsa_sign cr sk d = Inr s \<longrightarrow> rsa_verify cr pk d s = Inr ())"

definition rsa_binding :: "('h, 'sk, 'pk) crypto \<Rightarrow> 'pk \<Rightarrow> bool" where
  "rsa_binding cr pk \<longleftrightarrow>
     (\<forall>d d' s. rsa_verify cr pk d s = Inr () \<longrightarrow> rsa_verify cr pk d' s = Inr () \<longrightarrow> d = d')"

definition digest_streams :: "('h, 'sk, 'pk) crypto \<Rightarrow> bool" where
  "digest_streams cr \<longleftrightarrow>
     (\<forall>xs ys. concat xs = concat ys \<longrightarrow>
        digest_finalize cr (foldl (digest_update cr) (digest_new cr) xs) =
        digest_finalize cr (foldl (digest_update cr) (digest_new cr) ys))"

definition digest_injective_on :: "('h, 'sk, 'pk) crypto \<Rightarrow> byte list set \<Rightarrow> bool" where
  "digest_injective_on cr A \<longleftrightarrow>
     inj_on (\<lambda>m. digest_finalize cr (digest_update cr (digest_new cr) m)) A"

definition wincode_correct :: "wincode \<Rightarrow> bool" where
  "wincode_correct w \<longleftrightarrow>
     (\<forall>r bs. wincode_enc_request w r = Inr bs \<longrightarrow> wincode_dec_request w bs = Inr r) \<and>
     (\<forall>r bs. wincode_enc_response w r = Inr bs \<longrightarrow> wincode_dec_response w bs = Inr r)"

text \<open>
  A concrete instance of the parameters on which the witnesses of the development run: the
  digest is the message itself and a signature is the digest padded on the left with
  zeros and a one, up to the size of a signature.
\<close>

definition plain_crypto :: "(byte list, unit, unit) crypto" where
  "plain_crypto = \<lparr>
     digest_new = [],
     digest_update = (\<lambda>h m. h @ m),
     digest_finalize = (\<lambda>h. h),
     rsa_sign = (\<lambda>_ d. if length d < 256 then Inr (replicate (255 - length d) 0 @ 1 # d)
                       else Inl (RsaError ''message too long'')),
     rsa_verify = (\<lambda>_ d s. if length d < 256 \<and> s = replicate (255 - length d) 0 @ 1 # d
                           then Inr () else Inl (RsaError ''verification''))\<rparr>"

definition plain_signature :: "Sha256Hash \<Rightarrow> Timestamp \<Rightarrow> RsaSignature" where
  "plain_signature h t =
     RsaSignature (replicate 207 0 @ 1 # Sha256Hash_as_bytes h @ Timestamp_as_be_bytes t)"

definition plain_hex :: hex_crate where
  "plain_hex = \<lparr>hex_encode = map (\<lambda>b. char_of (unat b)),
     hex_decode_to_slice = (\<lambda>s n. if length s = n then Inr (map (\<lambda>c. of_char c) s)
                                  else Inl (FromHexError ''length''))\<rparr>"

text \<open>Decoders of the two blob columns of the history table, as \<^verbatim>\<open>get_user_history\<close> applies them.\<close>

definition timestamp_of_blob :: "byte list \<Rightarrow> Timestamp option" where
  "timestamp_of_blob bs = (if length bs = 16 then Some (Timestamp_from_be bs) else None)"

definition signature_of_blob :: "byte list \<Rightarrow> RsaSignature option" where
  "signature_of_blob bs = (case RsaSignature_try_from bs of Inl _ \<Rightarrow> None | Inr s \<Rightarrow> Some s)"

section \<open>Encodings\<close>

interpretation ts_codec: fixed_codec "\<lambda>_. True" Timestamp_as_be_bytes timestamp_of_blob 16
proof unfold_locales
  fix t :: Timestamp
  show "length (Timestamp_as_be_bytes t) = 16"
    by (simp add: Timestamp_as_be_bytes_def)
  show "timestamp_of_blob (Timestamp_as_be_bytes t) = Some t"
    by (cases t) (simp add: timestamp_of_blob_def Timestamp_as_be_bytes_def
        Timestamp_from_be_def Timestamp_new_def of_be_bytes_be_bytes)
next
  fix bs t
  assume "timestamp_of_blob bs = Some t"
  then show "True \<and> Timestamp_as_be_bytes t = bs"
    by (auto simp: timestamp_of_blob_def Timestamp_as_be_bytes_def Timestamp_from_be_def
        Timestamp_new_def be_bytes_of_be_bytes split: if_splits)
qed

interpretation sig_codec: fixed_codec wf_signature RsaSignature_as_bytes signature_of_blob
  RSA_KEY_SIZE_IN_BYTES
proof unfold_locales
  fix s
  assume s: "wf_signature s"
  then show "length (RsaSignature_as_bytes s) = RSA_KEY_SIZE_IN_BYTES"
    by (simp add: wf_signature_def)
  from s show "signature_of_blob (RsaSignature_as_bytes s) = Some s"
    by (cases s) (simp add: signature_of_blob_def RsaSignature_try_from_def wf_signature_def)
next
  fix bs s
  assume "signature_of_blob bs = Some s"
  then show "wf_signature s \<and> RsaSignature_as_bytes s = bs"
    by (auto simp: signature_of_blob_def RsaSignature_try_from_def wf_signature_def split: if_splits)
qed

interpretation hash_codec: fixed_codec wf_hash Sha256Hash_as_bytes
  "\<lambda>bs. if length bs = 32 then Some (Sha256Hash bs) else None" 32
proof unfold_locales
  fix h
  assume "wf_hash h"
  then show "length (Sha256Hash_as_bytes h) = 32"
    and "(if length (Sha256Hash_as_bytes h) = 32 then Some (Sha256Hash (Sha256Hash_as_bytes h))
          else None) = Some h"
    by (cases h; simp add: wf_hash_def)+
qed (auto simp: wf_hash_def split: if_splits)

section \<open>Properties\<close>

lemma two_updates:
  assumes "digest_streams cr"
  shows "digest_finalize cr (digest_update cr (digest_update cr (digest_new cr) a) b) =
    digest_finalize cr (digest_update cr (digest_new cr) (a @ b))"
proof -
  have "concat [a, b] = concat [a @ b]" by simp
  with assms have "digest_finalize cr (foldl (digest_update cr) (digest_new cr) [a, b]) =
      digest_finalize cr (foldl (digest_update cr) (digest_new cr) [a @ b])"
    unfolding digest_streams_def by blast
  then show ?thesis by simp
qed

lemma sign_with_timestamp_wf: "sign_with_timestamp cr sk h t = Returns (Inr s) \<Longrightarrow> wf_signature s"
  by (auto simp: sign_with_timestamp_def Let_def wf_signature_def split: sum.splits if_splits)

lemma sign_then_verify:
  "rsa_correct cr sk pk \<Longrightarrow> sign_with_timestamp cr sk h t = Returns (Inr s) \<Longrightarrow>
   verify_timestamp_signature cr pk h t s = Inr ()"
  by (auto simp: sign_with_timestamp_def verify_timestamp_signature_def rsa_correct_def Let_def
      split: sum.splits if_splits)

lemma plain_crypto_correct: "rsa_correct plain_crypto () ()"
  by (simp add: rsa_correct_def plain_crypto_def split: if_splits)

lemma strip_padding: "dropWhile (\<lambda>b. b = 0) (replicate k 0 @ 1 # d) = 1 # (d :: byte list)"
  by (induction k) simp_all

lemma padding_inject:
  "replicate k 0 @ 1 # d = replicate k' 0 @ 1 # d' \<Longrightarrow> d = (d' :: byte list)"
  using strip_padding[of k d] strip_padding[of k' d'] by simp

lemma plain_crypto_verify:
  "rsa_verify plain_crypto () d s = Inr () \<Longrightarrow> s = replicate (255 - length d) 0 @ 1 # d"
  by (simp add: plain_crypto_def split: if_splits)

lemma plain_crypto_binding: "rsa_binding plain_crypto ()"
  unfolding rsa_binding_def
  by (blast dest: plain_crypto_verify intro: padding_inject)

lemma plain_crypto_streams: "digest_streams plain_crypto"
proof -
  have "foldl (@) acc xs = acc @ concat xs" for acc :: "byte list" and xs
    by (induction xs arbitrary: acc) simp_all
  then show ?thesis by (simp add: digest_streams_def plain_crypto_def)
qed

lemma plain_signs:
  "wf_hash h \<Longrightarrow> sign_with_timestamp plain_crypto () h t = Returns (Inr (plain_signature h t))"
  by (simp add: sign_with_timestamp_def plain_crypto_def plain_signature_def wf_hash_def
      Timestamp_as_be_bytes_def RSA_KEY_SIZE_IN_BYTES_def RSA_KEY_SIZE_IN_BITS_def Let_def)

lemma plain_accepts:
  "wf_hash h \<Longrightarrow> verify_timestamp_signature plain_crypto () h t (plain_signature h t) = Inr ()"
  by (simp add: verify_timestamp_signature_def plain_crypto_def plain_signature_def wf_hash_def
      Timestamp_as_be_bytes_def Let_def)

text \<open>
  A timestamp is stored and signed as exactly 16 big-endian bytes, and reading those
  bytes back gives the timestamp; every 16 byte array is such an encoding.
\<close>

lemma timestamp_be_roundtrip:
  "length (Timestamp_as_be_bytes t) = 16 \<and>
   Timestamp_from_be (Timestamp_as_be_bytes t) = t \<and>
   (length bs = 16 \<longrightarrow> Timestamp_as_be_bytes (Timestamp_from_be bs) = bs)"
  using ts_codec.dec_enc[of t] ts_codec.enc_width[of t] ts_codec.dec_sound[of bs]
  by (simp add: timestamp_of_blob_def)

text \<open>
  The byte-wise order of stored timestamps, the one \<^verbatim>\<open>ORDER BY\<close> uses, is the order of
  the times they denote.
\<close>

lemma timestamp_be_order:
  "Timestamp_as_be_bytes s < Timestamp_as_be_bytes t \<longleftrightarrow> Timestamp_get s < Timestamp_get t"
  by (simp add: Timestamp_as_be_bytes_def be_bytes_less_iff)

text \<open>
  What the server signs, the client accepts: a signature that
  \<^verbatim>\<open>sign_with_timestamp\<close> returns has the size of a signature and verifies for the same
  hash and timestamp under the matching public key.
\<close>

lemma signature_verifies:
  assumes "rsa_correct cr sk pk"
    and "sign_with_timestamp cr sk h t = Returns (Inr s)"
  shows "wf_signature s \<and> verify_timestamp_signature cr pk h t s = Inr ()"
  using assms by (blast intro: sign_with_timestamp_wf sign_then_verify)

text \<open>
  C13. A signature binds both the document and the time: if the server's public key accepts
  one signature for two pairs of hash and timestamp, the pairs are equal. The hash and the
  timestamp have fixed widths, so their concatenation can be cut in one way only.
\<close>

theorem signature_binds_hash_and_time:
  assumes "digest_streams cr" and "rsa_binding cr pk"
    and "digest_injective_on cr
           {Sha256Hash_as_bytes h @ Timestamp_as_be_bytes t,
            Sha256Hash_as_bytes h' @ Timestamp_as_be_bytes t'}"
    and "wf_hash h" and "wf_hash h'"
    and "verify_timestamp_signature cr pk h t s = Inr ()"
    and "verify_timestamp_signature cr pk h' t' s = Inr ()"
  shows "h = h' \<and> t = t'"
proof -
  let ?m = "\<lambda>h t. Sha256Hash_as_bytes h @ Timestamp_as_be_bytes t"
  let ?d = "\<lambda>h t. digest_finalize cr (digest_update cr (digest_new cr) (?m h t))"
  have v: "rsa_verify cr pk (?d h t) (RsaSignature_as_bytes s) = Inr ()"
    if "verify_timestamp_signature cr pk h t s = Inr ()" for h t
    using that
    by (simp add: verify_timestamp_signature_def two_updates[OF assms(1)] Timestamp_as_be_bytes_def)
  from assms(2) v[OF assms(6)] v[OF assms(7)] have "?d h t = ?d h' t'"
    unfolding rsa_binding_def by blast
  then have "?m h t = ?m h' t'"
    by (rule inj_onD[OF assms(3)[unfolded digest_injective_on_def]]) simp_all
  then have "h = h' \<and> Timestamp_as_be_bytes t = Timestamp_as_be_bytes t'"
    by (rule hash_codec.enc_append_inject[OF assms(4,5)])
  then show ?thesis by (simp add: ts_codec.enc_inject)
qed

theorem signature_binds_hash_and_time_witness:
  "Sha256Hash (replicate 32 5) = Sha256Hash_from (replicate 32 5) \<and>
   Timestamp 9 = Timestamp_new 9"
proof (rule signature_binds_hash_and_time[OF plain_crypto_streams plain_crypto_binding])
  show a: "verify_timestamp_signature plain_crypto () (Sha256Hash (replicate 32 5)) (Timestamp 9)
     (plain_signature (Sha256Hash (replicate 32 5)) (Timestamp 9)) = Inr ()"
    by (rule plain_accepts) (simp add: wf_hash_def)
  then show "verify_timestamp_signature plain_crypto () (Sha256Hash_from (replicate 32 5))
     (Timestamp_new 9) (plain_signature (Sha256Hash (replicate 32 5)) (Timestamp 9)) = Inr ()"
    by (simp add: Sha256Hash_from_def Timestamp_new_def)
qed (simp_all add: digest_injective_on_def plain_crypto_def wf_hash_def Sha256Hash_from_def)

end
