(* ===== verification/Std_Path.thy ===== *)
theory Std_Path
  imports Prelude
begin

text \<open>
  The part of \<^verbatim>\<open>std::path\<close> the workspace uses, for Unix paths: components, parent, file name
  and extension. A path that is returned is written with single slashes.
\<close>

section \<open>Paths\<close>

text \<open>
  A path is a string; its components are the parts between slashes without empty parts and
  without \<^verbatim>\<open>.\<close> (which only counts at the start of a relative path).
\<close>

primrec split_slash :: "string \<Rightarrow> string list" where
  "split_slash [] = [[]]"
| "split_slash (ch # s) =
     (if ch = CHR ''/'' then [] # split_slash s
      else (ch # hd (split_slash s)) # tl (split_slash s))"

definition path_is_absolute :: "string \<Rightarrow> bool" where
  "path_is_absolute p \<longleftrightarrow> (case p of [] \<Rightarrow> False | ch # _ \<Rightarrow> ch = CHR ''/'')"

definition path_components :: "string \<Rightarrow> string list" where
  "path_components p =
     (let parts = split_slash p;
          cs = filter (\<lambda>c. c \<noteq> [] \<and> c \<noteq> ''.'') parts
      in if hd parts = ''.'' then ''.'' # cs else cs)"

primrec join_slash :: "string list \<Rightarrow> string" where
  "join_slash [] = []"
| "join_slash (c # cs) = (if cs = [] then c else c @ CHR ''/'' # join_slash cs)"

definition path_parent :: "string \<Rightarrow> string option" where
  "path_parent p =
     (if path_components p = [] then None
      else Some ((if path_is_absolute p then ''/'' else []) @ join_slash (butlast (path_components p))))"

definition path_file_name :: "string \<Rightarrow> string option" where
  "path_file_name p =
     (let cs = path_components p
      in if cs = [] \<or> last cs = ''..'' \<or> last cs = ''.'' then None else Some (last cs))"

text \<open>\<^verbatim>\<open>Path::extension\<close>: what follows the last dot of the file name, unless that dot starts it.\<close>

definition path_extension :: "string \<Rightarrow> string option" where
  "path_extension p =
     (case path_file_name p of
        None \<Rightarrow> None
      | Some name \<Rightarrow>
          (let ext = rev (takeWhile (\<lambda>c. c \<noteq> CHR ''.'') (rev name))
           in if length ext + 1 < length name then Some ext else None))"

text \<open>
  \<^verbatim>\<open>Path::join\<close>; the equality of \<^verbatim>\<open>Path\<close>, which compares components; and the file a path names
  when no component is a link or \<^verbatim>\<open>..\<close>, which is what files are keyed by in the model.
\<close>

definition path_join :: "string \<Rightarrow> string \<Rightarrow> string" where
  "path_join p q =
     (if path_is_absolute q then q
      else if p = [] \<or> last p = CHR ''/'' then p @ q
      else p @ CHR ''/'' # q)"

definition path_eq :: "string \<Rightarrow> string \<Rightarrow> bool" where
  "path_eq p q \<longleftrightarrow> path_is_absolute p = path_is_absolute q \<and> path_components p = path_components q"

type_synonym path_key = "bool \<times> string list"

definition path_key :: "string \<Rightarrow> path_key" where
  "path_key p = (path_is_absolute p, filter (\<lambda>c. c \<noteq> ''.'') (path_components p))"

text \<open>Lists of components as \<^verbatim>\<open>components\<close> yields them.\<close>

definition component_ok :: "string \<Rightarrow> bool" where
  "component_ok c \<longleftrightarrow> c \<noteq> [] \<and> CHR ''/'' \<notin> set c"

definition components_ok :: "string list \<Rightarrow> bool" where
  "components_ok cs \<longleftrightarrow> list_all component_ok cs \<and> ''.'' \<notin> set (tl cs)"

section \<open>Components and parents\<close>

lemma set_tl: "set (tl xs) \<subseteq> set xs"
  by (cases xs) auto

lemma split_slash_not_Nil [simp]: "split_slash s \<noteq> []"
  by (cases s) auto

lemma split_slash_no_slash: "c \<in> set (split_slash s) \<Longrightarrow> CHR ''/'' \<notin> set c"
proof (induction s arbitrary: c)
  case (Cons ch s)
  show ?case
  proof (cases "ch = CHR ''/''")
    case False
    have "hd (split_slash s) \<in> set (split_slash s)" by simp
    moreover have "set (tl (split_slash s)) \<subseteq> set (split_slash s)" by (rule set_tl)
    ultimately show ?thesis using Cons False by auto
  qed (use Cons in auto)
qed simp

lemma split_slash_append:
  "CHR ''/'' \<notin> set c \<Longrightarrow> split_slash (c @ s) = (c @ hd (split_slash s)) # tl (split_slash s)"
  by (induction c) auto

lemma split_slash_join:
  "list_all component_ok cs \<Longrightarrow> cs \<noteq> [] \<Longrightarrow> split_slash (join_slash cs) = cs"
proof (induction cs)
  case (Cons c cs)
  then show ?case
    using split_slash_append[of c "[]"] split_slash_append[of c "CHR ''/'' # join_slash cs"]
    by (cases cs) (auto simp: component_ok_def)
qed simp

lemma components_ok_path: "components_ok (path_components p)"
proof -
  let ?cs = "filter (\<lambda>c. c \<noteq> [] \<and> c \<noteq> ''.'') (split_slash p)"
  have "list_all component_ok ?cs"
    by (auto simp: list_all_iff component_ok_def dest: split_slash_no_slash)
  moreover have "''.'' \<notin> set ?cs" by simp
  moreover have "set (tl ?cs) \<subseteq> set ?cs" by (rule set_tl)
  moreover have "component_ok ''.''" by (simp add: component_ok_def)
  ultimately show ?thesis
    unfolding components_ok_def path_components_def Let_def
    by (cases "hd (split_slash p) = ''.''") (simp_all, blast+)
qed

lemma filter_components: "components_ok cs \<Longrightarrow> hd cs \<noteq> ''.'' \<or> cs = [] \<Longrightarrow> filter (\<lambda>c. c \<noteq> [] \<and> c \<noteq> ''.'') cs = cs"
  by (cases cs) (auto simp: components_ok_def list_all_iff component_ok_def intro!: filter_True)

lemma path_components_join:
  assumes "components_ok cs" and "ab \<Longrightarrow> cs = [] \<or> hd cs \<noteq> ''.''"
  shows "path_components ((if ab then ''/'' else []) @ join_slash cs) = cs"
proof (cases "cs = []")
  case True
  then show ?thesis by (simp add: path_components_def)
next
  case False
  have s: "split_slash (join_slash cs) = cs"
    using assms(1) False by (intro split_slash_join) (auto simp: components_ok_def)
  show ?thesis
  proof (cases ab)
    case True
    with assms False s show ?thesis by (simp add: path_components_def filter_components)
  next
    case rel: False
    show ?thesis
    proof (cases "hd cs = ''.''")
      case True
      then have cs: "cs = ''.'' # tl cs" using False by (cases cs) auto
      have "filter (\<lambda>c. c \<noteq> [] \<and> c \<noteq> ''.'') (tl cs) = tl cs"
        using assms(1) False
        by (cases cs) (auto simp: components_ok_def list_all_iff component_ok_def intro!: filter_True)
      then have "filter (\<lambda>c. c \<noteq> [] \<and> c \<noteq> ''.'') cs = tl cs" by (subst cs) simp
      with rel s True cs show ?thesis by (simp add: path_components_def)
    qed (use rel s assms False in \<open>simp add: path_components_def filter_components\<close>)
  qed
qed

lemma absolute_components: "path_is_absolute p \<Longrightarrow> path_components p = [] \<or> hd (path_components p) \<noteq> ''.''"
proof -
  assume "path_is_absolute p"
  then obtain s where p: "p = CHR ''/'' # s" by (auto simp: path_is_absolute_def split: list.splits)
  let ?cs = "filter (\<lambda>c. c \<noteq> [] \<and> c \<noteq> ''.'') (split_slash s)"
  have "path_components p = ?cs" by (simp add: path_components_def p)
  moreover have "?cs = [] \<or> hd ?cs \<noteq> ''.''"
    using hd_in_set[of ?cs] unfolding set_filter by blast
  ultimately show ?thesis by simp
qed

lemma components_ok_take: "components_ok cs \<Longrightarrow> components_ok (take n cs)"
  by (cases cs; cases n) (auto simp: components_ok_def list_all_iff dest: in_set_takeD)

lemma path_components_prefix:
  "path_components ((if path_is_absolute p then ''/'' else []) @ join_slash (take n (path_components p))) =
     take n (path_components p)"
  using absolute_components[of p]
  by (intro path_components_join components_ok_take components_ok_path) (cases n; auto simp: neq_Nil_conv)

lemma path_components_parent: "path_parent p = Some q \<Longrightarrow> path_components q = butlast (path_components p)"
  using path_components_prefix[of p "length (path_components p) - 1"]
  by (auto simp: path_parent_def butlast_conv_take split: if_splits)

end
