(* ===== verification/Safe_Read.thy ===== *)
theory Safe_Read
  imports Protocol Std_Path
begin

text \<open>
  File access: \<^verbatim>\<open>shared_library/src/safe_read.rs\<close> and \<^verbatim>\<open>client_core/src/file_hasher.rs\<close>, with
  the part of \<^verbatim>\<open>std::io::Take\<close> they use. An open file is its remaining
  contents and a plan of how the operating system answers the next reads (an error, or a
  bound on how many bytes it delivers); after the plan every read delivers as much as is
  asked for. The declared length and the contents are independent, so a file may grow or
  shrink after its length was read.
\<close>

section \<open>Open files\<close>

datatype read_event = ReadFails io_error | ReadsAtMost nat

record os_file =
  of_content :: "byte list"
  of_plan :: "read_event list"

definition file_read :: "nat \<Rightarrow> os_file \<Rightarrow> (io_error + byte list) \<times> os_file" where
  "file_read n f =
     (case of_plan f of
        [] \<Rightarrow> (Inr (take n (of_content f)), f\<lparr>of_content := drop n (of_content f)\<rparr>)
      | ReadFails e # plan \<Rightarrow> (Inl e, f\<lparr>of_plan := plan\<rparr>)
      | ReadsAtMost k # plan \<Rightarrow>
          (Inr (take (min n (Suc k)) (of_content f)),
           \<lparr>of_content = drop (min n (Suc k)) (of_content f), of_plan = plan\<rparr>))"

text \<open>What \<^verbatim>\<open>File::open\<close> and \<^verbatim>\<open>metadata\<close> answer for each path.\<close>

type_synonym filesystem = "string \<Rightarrow> io_error + os_file \<times> (io_error + u64)"

section \<open>The reader\<close>

datatype SafeReadError =
    WrongExtension string string
  | OpenNotFound string
  | OpenPermissionDenied string
  | OpenGeneric string string
  | Metadata string string
  | Memory string string
  | Read string string

record SafeFileReader =
  sr_file :: os_file
  sr_limit :: nat
  sr_filepath :: string
  sr_total_size :: u64

definition CHUNK_SIZE :: nat where
  "CHUNK_SIZE = 8192"

definition SafeFileReader_new ::
    "filesystem \<Rightarrow> string \<Rightarrow> string option \<Rightarrow> SafeReadError + SafeFileReader" where
  "SafeFileReader_new fs filepath expected_extension =
     result_bind
       (case expected_extension of
          Some e_extension \<Rightarrow>
            (if path_extension filepath \<noteq> Some e_extension
             then Inl (WrongExtension filepath e_extension) else Inr ())
        | None \<Rightarrow> Inr ())
       (\<lambda>_. case fs filepath of
          Inl e \<Rightarrow>
            (case io_kind e of
               NotFound \<Rightarrow> Inl (OpenNotFound filepath)
             | PermissionDenied \<Rightarrow> Inl (OpenPermissionDenied filepath)
             | _ \<Rightarrow> Inl (OpenGeneric filepath (io_text e)))
        | Inr (file, metadata) \<Rightarrow>
            (case metadata of
               Inl e \<Rightarrow> Inl (Metadata filepath (io_text e))
             | Inr file_len \<Rightarrow>
                 Inr \<lparr>sr_file = file, sr_limit = unat file_len, sr_filepath = filepath,
                      sr_total_size = file_len\<rparr>))"

text \<open>\<^verbatim>\<open>Take::read\<close>: nothing once the limit is used up, otherwise one read of the file.\<close>

definition take_read :: "nat \<Rightarrow> SafeFileReader \<Rightarrow> (io_error + byte list) \<times> SafeFileReader" where
  "take_read n r =
     (if sr_limit r = 0 then (Inr [], r)
      else case file_read (min n (sr_limit r)) (sr_file r) of
             (Inl e, f) \<Rightarrow> (Inl e, r\<lparr>sr_file := f\<rparr>)
           | (Inr bs, f) \<Rightarrow> (Inr bs, r\<lparr>sr_file := f, sr_limit := sr_limit r - length bs\<rparr>))"

definition next_chunk :: "SafeFileReader \<Rightarrow> (SafeReadError + byte list) option \<times> SafeFileReader" where
  "next_chunk r =
     (case take_read CHUNK_SIZE r of
        (Inr [], r') \<Rightarrow> (None, r')
      | (Inr bs, r') \<Rightarrow> (Some (Inr bs), r')
      | (Inl e, r') \<Rightarrow> (Some (Inl (Read (sr_filepath r) (io_text e))), r'))"

lemma next_chunk_limit: "next_chunk r = (Some (Inr chunk), r') \<Longrightarrow> sr_limit r' < sr_limit r"
  by (auto simp: next_chunk_def take_read_def split: if_splits prod.splits sum.splits list.splits)

text \<open>The \<^verbatim>\<open>while let\<close> loop of \<^verbatim>\<open>safe_read\<close>, and the one of \<^verbatim>\<open>hash_file\<close>.\<close>

function read_chunks :: "SafeFileReader \<Rightarrow> byte list \<Rightarrow> SafeReadError + byte list" where
  "read_chunks r full_buffer =
     (case next_chunk r of
        (None, _) \<Rightarrow> Inr full_buffer
      | (Some (Inl e), _) \<Rightarrow> Inl e
      | (Some (Inr chunk), r') \<Rightarrow> read_chunks r' (full_buffer @ chunk))"
  by pat_completeness auto
termination
  by (relation "measure (\<lambda>(r, b). sr_limit r)") (auto dest: next_chunk_limit[OF sym])

function hash_chunks ::
    "('h, 'sk, 'pk) crypto \<Rightarrow> SafeFileReader \<Rightarrow> 'h \<Rightarrow> SafeReadError + 'h" where
  "hash_chunks cr r hasher =
     (case next_chunk r of
        (None, _) \<Rightarrow> Inr hasher
      | (Some (Inl e), _) \<Rightarrow> Inl e
      | (Some (Inr chunk), r') \<Rightarrow> hash_chunks cr r' (digest_update cr hasher chunk))"
  by pat_completeness auto
termination
  by (relation "measure (\<lambda>(cr, r, h). sr_limit r)") (auto dest: next_chunk_limit[OF sym])

declare read_chunks.simps [simp del] hash_chunks.simps [simp del]

text \<open>
  \<open>ptr32\<close>: the target has 32 bit pointers. \<open>try_reserve\<close> is the failure of the allocation, if
  there is one.
\<close>

definition SafeFileReader_safe_read ::
    "bool \<Rightarrow> (nat \<Rightarrow> string option) \<Rightarrow> SafeFileReader \<Rightarrow> SafeReadError + byte list" where
  "SafeFileReader_safe_read ptr32 try_reserve r =
     (if ptr32 \<and> 2 ^ 32 \<le> unat (sr_total_size r)
      then Inl (Memory (sr_filepath r) ''File is too large for a 32-bit architecture allocation'')
      else
        (let allocation_size = unat (sr_total_size r)
         in case try_reserve allocation_size of
              Some e \<Rightarrow> Inl (Memory (sr_filepath r) e)
            | None \<Rightarrow> read_chunks r []))"

definition safe_read ::
    "bool \<Rightarrow> (nat \<Rightarrow> string option) \<Rightarrow> filesystem \<Rightarrow> string \<Rightarrow> string option
     \<Rightarrow> SafeReadError + byte list" where
  "safe_read ptr32 try_reserve fs raw_path expected_extension =
     result_bind (SafeFileReader_new fs raw_path expected_extension)
       (SafeFileReader_safe_read ptr32 try_reserve)"

definition hash_file ::
    "('h, 'sk, 'pk) crypto \<Rightarrow> filesystem \<Rightarrow> string \<Rightarrow> string option \<Rightarrow> SafeReadError + Sha256Hash" where
  "hash_file cr fs raw_path expected_extension =
     result_bind (SafeFileReader_new fs raw_path expected_extension) (\<lambda>reader.
     result_bind (hash_chunks cr reader (digest_new cr)) (\<lambda>hasher.
       Inr (Sha256Hash_from (digest_finalize cr hasher))))"

section \<open>Chunks\<close>

text \<open>A plan without failures, and the bytes such a reader delivers.\<close>

definition plan_ok :: "os_file \<Rightarrow> bool" where
  "plan_ok f \<longleftrightarrow> (\<forall>e. ReadFails e \<notin> set (of_plan f))"

definition deliverable :: "SafeFileReader \<Rightarrow> byte list" where
  "deliverable r = take (sr_limit r) (of_content (sr_file r))"

lemma file_read_ok:
  assumes "plan_ok f" and "0 < n"
  shows "\<exists>k f'. 0 < k \<and> k \<le> n \<and> file_read n f = (Inr (take k (of_content f)), f') \<and>
    of_content f' = drop k (of_content f) \<and> plan_ok f'"
proof (cases "of_plan f")
  case Nil
  with assms show ?thesis by (auto simp: file_read_def plan_ok_def)
next
  case (Cons ev plan)
  then obtain k where ev: "ev = ReadsAtMost k"
    using assms(1) by (cases ev) (auto simp: plan_ok_def)
  have "file_read n f = (Inr (take (min n (Suc k)) (of_content f)),
      \<lparr>of_content = drop (min n (Suc k)) (of_content f), of_plan = plan\<rparr>)"
    by (simp add: file_read_def Cons ev)
  moreover have "plan_ok \<lparr>of_content = drop (min n (Suc k)) (of_content f), of_plan = plan\<rparr>"
    using assms(1) Cons by (simp add: plan_ok_def)
  ultimately show ?thesis using assms(2) by (intro exI[of _ "min n (Suc k)"]) auto
qed

lemma take_split: "k \<le> n \<Longrightarrow> take n c = take k c @ take (n - length (take k c)) (drop k c)"
  using take_add[of k "n - k" c] by (cases "length c \<le> k") (auto simp: min_def)

lemma next_chunk_ok:
  assumes "plan_ok (sr_file r)"
  shows "(deliverable r = [] \<and> (\<exists>r'. next_chunk r = (None, r'))) \<or>
    (\<exists>chunk r'. next_chunk r = (Some (Inr chunk), r') \<and> plan_ok (sr_file r') \<and>
       deliverable r = chunk @ deliverable r')"
proof (cases "sr_limit r = 0")
  case True
  then show ?thesis by (simp add: deliverable_def next_chunk_def take_read_def)
next
  case False
  let ?c = "of_content (sr_file r)"
  obtain k f where k: "0 < k" "k \<le> min CHUNK_SIZE (sr_limit r)"
    "file_read (min CHUNK_SIZE (sr_limit r)) (sr_file r) = (Inr (take k ?c), f)"
    "of_content f = drop k ?c" "plan_ok f"
    using file_read_ok[OF assms, of "min CHUNK_SIZE (sr_limit r)"] False
    by (auto simp: CHUNK_SIZE_def)
  show ?thesis
  proof (cases "?c = []")
    case True
    then show ?thesis using k False by (simp add: next_chunk_def take_read_def deliverable_def)
  next
    case c: False
    let ?r' = "r\<lparr>sr_file := f, sr_limit := sr_limit r - length (take k ?c)\<rparr>"
    have "next_chunk r = (Some (Inr (take k ?c)), ?r')"
      using k(1,3) False c by (cases "take k ?c") (auto simp: next_chunk_def take_read_def)
    moreover have "deliverable r = take k ?c @ deliverable ?r'"
      using k(2,4) take_split[of k "sr_limit r" ?c] by (simp add: deliverable_def)
    ultimately show ?thesis using k(5) by auto
  qed
qed

lemma read_chunks_ok: "plan_ok (sr_file r) \<Longrightarrow> read_chunks r buf = Inr (buf @ deliverable r)"
proof (induction r buf rule: read_chunks.induct)
  case (1 r buf)
  from next_chunk_ok[OF "1.prems"] show ?case
    using "1.IH" by (subst read_chunks.simps) auto
qed

lemma hash_chunks_ok:
  "plan_ok (sr_file r) \<Longrightarrow>
   \<exists>chunks. concat chunks = deliverable r \<and> hash_chunks cr r h = Inr (foldl (digest_update cr) h chunks)"
proof (induction cr r h rule: hash_chunks.induct)
  case (1 cr r h)
  from next_chunk_ok[OF "1.prems"] show ?case
  proof (elim disjE exE conjE)
    fix r' assume "deliverable r = []" "next_chunk r = (None, r')"
    then show ?thesis by (subst hash_chunks.simps) (auto intro: exI[of _ "[]"])
  next
    fix chunk r'
    assume n: "next_chunk r = (Some (Inr chunk), r')" "plan_ok (sr_file r')"
      "deliverable r = chunk @ deliverable r'"
    then obtain chunks where "concat chunks = deliverable r'"
      "hash_chunks cr r' (digest_update cr h chunk) = Inr (foldl (digest_update cr) (digest_update cr h chunk) chunks)"
      using "1.IH"[OF n(1)[symmetric] refl refl n(2)] by blast
    with n show ?thesis by (subst hash_chunks.simps) (auto intro: exI[of _ "chunk # chunks"])
  qed
qed

lemma safe_read_contents:
  assumes "fs path = Inr (file, Inr len)" and "plan_ok file"
    and "ext = None \<or> path_extension path = ext" and "try_reserve (unat len) = None"
    and "\<not> ptr32 \<or> unat len < 2 ^ 32"
  shows "safe_read ptr32 try_reserve fs path ext = Inr (take (unat len) (of_content file))"
  using assms
  by (auto simp: safe_read_def SafeFileReader_new_def SafeFileReader_safe_read_def read_chunks_ok
      deliverable_def split: option.splits)

section \<open>Properties\<close>

text \<open>
  C25. Reading a file returns exactly its declared length of contents, however the operating
  system cuts the reads: never more (a file that grows meanwhile is cut at the declared
  length) and, when no read fails, never less than what is there.
\<close>

theorem safe_read_returns_declared_contents:
  assumes "fs path = Inr (file, Inr len)" and "plan_ok file"
    and "ext = None \<or> path_extension path = ext" and "try_reserve (unat len) = None"
    and "\<not> ptr32 \<or> unat len < 2 ^ 32"
  shows "safe_read ptr32 try_reserve fs path ext = Inr (take (unat len) (of_content file))"
  using assms by (rule safe_read_contents)

theorem safe_read_returns_declared_contents_witness:
  "safe_read False (\<lambda>_. None)
     (\<lambda>_. Inr (\<lparr>of_content = [1, 2, 3, 4, 5], of_plan = [ReadsAtMost 0, ReadsAtMost 1]\<rparr>, Inr 4))
     ''keys/tss.pem'' (Some ''pem'') = Inr [1, 2, 3, 4]"
  by (subst safe_read_returns_declared_contents[of _ _ "\<lparr>of_content = [1, 2, 3, 4, 5],
        of_plan = [ReadsAtMost 0, ReadsAtMost 1]\<rparr>" 4])
    (simp_all add: plan_ok_def path_extension_def path_file_name_def path_components_def Let_def)

text \<open>
  C26. Hashing a file chunk by chunk gives the digest of its contents: the hash does not
  depend on how the reads were cut, and is the digest of what \<^verbatim>\<open>safe_read\<close> returns.
\<close>

theorem hash_file_is_digest_of_contents:
  assumes "digest_streams cr" and "fs path = Inr (file, Inr len)" and "plan_ok file"
    and "ext = None \<or> path_extension path = ext"
  shows "hash_file cr fs path ext =
    Inr (Sha256Hash (digest_finalize cr (digest_update cr (digest_new cr)
      (take (unat len) (of_content file)))))"
proof -
  let ?r = "\<lparr>sr_file = file, sr_limit = unat len, sr_filepath = path, sr_total_size = len\<rparr>"
  have r: "SafeFileReader_new fs path ext = Inr ?r"
    using assms(2,4) by (auto simp: SafeFileReader_new_def split: option.splits)
  obtain chunks where c: "concat chunks = deliverable ?r"
    "hash_chunks cr ?r (digest_new cr) = Inr (foldl (digest_update cr) (digest_new cr) chunks)"
    using hash_chunks_ok[of ?r cr "digest_new cr"] assms(3) by auto
  have "concat chunks = concat [deliverable ?r]" using c(1) by simp
  then have "digest_finalize cr (foldl (digest_update cr) (digest_new cr) chunks) =
      digest_finalize cr (foldl (digest_update cr) (digest_new cr) [deliverable ?r])"
    using assms(1) unfolding digest_streams_def by blast
  then show ?thesis
    by (simp add: hash_file_def r c(2) Sha256Hash_from_def deliverable_def)
qed

theorem hash_file_is_digest_of_contents_witness:
  "hash_file plain_crypto
     (\<lambda>_. Inr (\<lparr>of_content = replicate 32 7, of_plan = [ReadsAtMost 3]\<rparr>, Inr 32)) ''a.txt'' None =
   Inr (Sha256Hash (replicate 32 7))"
  by (subst hash_file_is_digest_of_contents[OF plain_crypto_streams,
        of _ _ "\<lparr>of_content = replicate 32 7, of_plan = [ReadsAtMost 3]\<rparr>" 32])
    (simp_all add: plan_ok_def plain_crypto_def)

end
