(* ===== verification/Std_Text.thy ===== *)
theory Std_Text
  imports Prelude
begin

text \<open>
  The part of \<^verbatim>\<open>std::string\<close> and \<^verbatim>\<open>std::iter\<close> the configuration readers use: UTF-8
  validation and the collection of results.
\<close>

section \<open>UTF-8\<close>

text \<open>\<^verbatim>\<open>String::from_utf8\<close>: the well-formed byte sequences of the Unicode standard.\<close>

definition byte_in :: "nat \<Rightarrow> nat \<Rightarrow> byte \<Rightarrow> bool" where
  "byte_in lo hi b \<longleftrightarrow> lo \<le> unat b \<and> unat b \<le> hi"

definition utf8_two :: "byte \<Rightarrow> byte \<Rightarrow> bool" where
  "utf8_two a b \<longleftrightarrow> byte_in 0xC2 0xDF a \<and> byte_in 0x80 0xBF b"

definition utf8_three :: "byte \<Rightarrow> byte \<Rightarrow> byte \<Rightarrow> bool" where
  "utf8_three a b c \<longleftrightarrow> byte_in 0x80 0xBF c \<and>
     (unat a = 0xE0 \<and> byte_in 0xA0 0xBF b \<or>
      (byte_in 0xE1 0xEC a \<or> byte_in 0xEE 0xEF a) \<and> byte_in 0x80 0xBF b \<or>
      unat a = 0xED \<and> byte_in 0x80 0x9F b)"

definition utf8_four :: "byte \<Rightarrow> byte \<Rightarrow> byte \<Rightarrow> byte \<Rightarrow> bool" where
  "utf8_four a b c d \<longleftrightarrow> byte_in 0x80 0xBF c \<and> byte_in 0x80 0xBF d \<and>
     (unat a = 0xF0 \<and> byte_in 0x90 0xBF b \<or>
      byte_in 0xF1 0xF3 a \<and> byte_in 0x80 0xBF b \<or>
      unat a = 0xF4 \<and> byte_in 0x80 0x8F b)"

fun utf8_valid :: "byte list \<Rightarrow> bool" where
  "utf8_valid [] = True"
| "utf8_valid (a # bs) =
     (if unat a < 0x80 then utf8_valid bs
      else case bs of
             [] \<Rightarrow> False
           | b # cs \<Rightarrow>
      (if utf8_two a b then utf8_valid cs
       else case cs of
              [] \<Rightarrow> False
            | c # ds \<Rightarrow>
      (if utf8_three a b c then utf8_valid ds
       else case ds of
              [] \<Rightarrow> False
            | d # es \<Rightarrow> utf8_four a b c d \<and> utf8_valid es)))"

definition from_utf8 :: "(byte list \<Rightarrow> string) \<Rightarrow> byte list \<Rightarrow> string + string" where
  "from_utf8 error_text bs =
     (if utf8_valid bs then Inr (map (\<lambda>b. char_of (unat b)) bs) else Inl (error_text bs))"

section \<open>Collecting results\<close>

text \<open>\<^verbatim>\<open>collect::<Result<Vec<_>, _>>()\<close>: the first error, or all values.\<close>

fun collect_results :: "('e + 'a) list \<Rightarrow> 'e + 'a list" where
  "collect_results [] = Inr []"
| "collect_results (r # rs) = result_bind r (\<lambda>a. result_bind (collect_results rs) (\<lambda>as. Inr (a # as)))"

section \<open>Trimming\<close>

text \<open>
  \<^verbatim>\<open>str::trim\<close>: the UTF-8 forms of the characters with the property \<^verbatim>\<open>White_Space\<close> are
  taken off both ends. \<^verbatim>\<open>str::trim_matches\<close> with a set of ASCII characters.
\<close>

definition white_space :: "string list" where
  "white_space = map (map char_of)
     ([[9], [10], [11], [12], [13], [32], [0xC2, 0x85], [0xC2, 0xA0], [0xE1, 0x9A, 0x80]] @
      map (\<lambda>n. [0xE2, 0x80, n]) ([0x80..<0x8B] @ [0xA8, 0xA9, 0xAF]) @
      [[0xE2, 0x81, 0x9F], [0xE3, 0x80, 0x80 :: nat]])"

fun strip_prefix :: "string list \<Rightarrow> string \<Rightarrow> string option" where
  "strip_prefix [] s = None"
| "strip_prefix (w # ws) s =
     (if w \<noteq> [] \<and> take (length w) s = w then Some (drop (length w) s) else strip_prefix ws s)"

lemma strip_prefix_shorter: "strip_prefix ws s = Some r \<Longrightarrow> length r < length s"
proof (induction ws)
  case (Cons w ws)
  show ?case
  proof (cases "w \<noteq> [] \<and> take (length w) s = w")
    case True
    then have "s \<noteq> []" by auto
    with True Cons.prems show ?thesis by auto
  qed (use Cons in auto)
qed simp

function trim_start_of :: "string list \<Rightarrow> string \<Rightarrow> string" where
  "trim_start_of ws s = (case strip_prefix ws s of None \<Rightarrow> s | Some r \<Rightarrow> trim_start_of ws r)"
  by pat_completeness auto
termination by (relation "measure (\<lambda>(ws, s). length s)") (auto dest: strip_prefix_shorter)

declare trim_start_of.simps [simp del]

definition trim :: "string \<Rightarrow> string" where
  "trim s = rev (trim_start_of (map rev white_space) (rev (trim_start_of white_space s)))"

definition trim_matches :: "char list \<Rightarrow> string \<Rightarrow> string" where
  "trim_matches cs s =
     rev (dropWhile (\<lambda>c. c \<in> set cs) (rev (dropWhile (\<lambda>c. c \<in> set cs) s)))"

section \<open>Lemmas\<close>

lemma utf8_valid_ascii: "list_all (\<lambda>b. unat b < 0x80) bs \<Longrightarrow> utf8_valid bs"
  by (induction bs) auto

lemma collect_results_Inr_iff: "collect_results rs = Inr as \<longleftrightarrow> rs = map Inr as"
proof (induction rs arbitrary: as)
  case (Cons r rs)
  then show ?case by (cases as) (auto simp: result_bind_Inr_iff)
qed auto

lemma map_map_err_Inr: "map (map_err f) rs = map Inr as \<longleftrightarrow> rs = map Inr as"
proof (induction rs arbitrary: as)
  case (Cons r rs)
  then show ?case by (cases as) auto
qed auto

end
