(* ===== verification/Client.thy ===== *)
theory Client
  imports Safe_Read Std_Text
begin

text \<open>
  The client library, \<^verbatim>\<open>client_core/src/client.rs\<close>, and the configuration of the command line
  client, \<^verbatim>\<open>client_cli/src/config.rs\<close>. TLS, the TOML, PEM and IP parsers are inputs; the stream
  of a connection is, for each request, whether sending fails and what comes back for the
  bytes that were sent.
\<close>

section \<open>Context\<close>

record TimestampContext =
  tx_server_address :: SocketAddr
  tx_server_certificate_name :: string

record ('cert, 'pk) ClientKeyContext =
  kx_ca_cert :: "'cert list"
  kx_server_rsa_public_key :: 'pk
  kx_trust_roots_cert :: bool

record ('cert, 'pk) ClientContext =
  cx_timestamp :: TimestampContext
  cx_keys :: "('cert, 'pk) ClientKeyContext"

definition ClientContext_new ::
    "SocketAddr \<Rightarrow> string \<Rightarrow> 'cert list \<Rightarrow> 'pk \<Rightarrow> bool \<Rightarrow> ('cert, 'pk) ClientContext" where
  "ClientContext_new server_address server_certificate_name ca_cert server_rsa_public_key trust_roots_cert =
     \<lparr>cx_timestamp = \<lparr>tx_server_address = server_address,
                      tx_server_certificate_name = server_certificate_name\<rparr>,
      cx_keys = \<lparr>kx_ca_cert = ca_cert, kx_server_rsa_public_key = server_rsa_public_key,
                 kx_trust_roots_cert = trust_roots_cert\<rparr>\<rparr>"

datatype ClientError =
    Io io_error
  | Tls string
  | InvalidServerName string
  | InvalidCaCertificate string
  | EmptyCaCertificate
  | ServerClosedConnection
  | Hex FromHexError
  | InvalidHashLength nat
  | UnexpectedResponse Response
  | InvalidDnsName string
  | Serialize SerializeError
  | Deserialize DeserializeError

record 'pk STSSClient =
  cl_server_rsa_public_key :: 'pk

section \<open>Connecting\<close>

text \<open>
  \<open>tls_parse_root\<close>: the trust anchor of a certificate, if \<^verbatim>\<open>rustls\<close> can use it;
  \<open>tls_web_roots\<close>: the anchors of \<^verbatim>\<open>webpki_roots\<close>; \<open>tls_handshake\<close>: the failure of the
  handshake for the given anchors and name.
\<close>

record ('cert, 'root, 'name) tls_inputs =
  tls_server_name :: "string \<Rightarrow> 'name option"
  tls_parse_root :: "'cert \<Rightarrow> 'root option"
  tls_web_roots :: "'root list"
  tls_tcp_connect :: "SocketAddr \<Rightarrow> io_error option"
  tls_handshake :: "'root list \<Rightarrow> 'name \<Rightarrow> io_error option"

definition add_parsable_certificates :: "('cert \<Rightarrow> 'root option) \<Rightarrow> 'cert list \<Rightarrow> 'root list" where
  "add_parsable_certificates parse certs = List.map_filter parse certs"

definition connect_from_context ::
    "('cert, 'root, 'name) tls_inputs \<Rightarrow> ('cert, 'pk) ClientContext \<Rightarrow> ClientError + 'pk STSSClient" where
  "connect_from_context ti ctx =
     (let keys = cx_keys ctx; timestamp = cx_timestamp ctx
      in case tls_server_name ti (tx_server_certificate_name timestamp) of
           None \<Rightarrow> Inl (InvalidDnsName (tx_server_certificate_name timestamp))
         | Some domain \<Rightarrow>
             (let root_cert_store = add_parsable_certificates (tls_parse_root ti) (kx_ca_cert keys);
                  root_cert_store = (if kx_trust_roots_cert keys
                                     then root_cert_store @ tls_web_roots ti else root_cert_store)
              in case tls_tcp_connect ti (tx_server_address timestamp) of
                   Some e \<Rightarrow> Inl (Io e)
                 | None \<Rightarrow>
                     (case tls_handshake ti root_cert_store domain of
                        Some e \<Rightarrow> Inl (Io e)
                      | None \<Rightarrow> Inr \<lparr>cl_server_rsa_public_key = kx_server_rsa_public_key keys\<rparr>)))"

section \<open>Requests\<close>

record stream_link =
  sl_send :: "io_error option"
  sl_next :: "byte list \<Rightarrow> (io_error + byte list) option"

definition send_request :: "wincode \<Rightarrow> stream_link \<Rightarrow> Request \<Rightarrow> ClientError + Response" where
  "send_request w link request =
     result_bind (map_err Serialize (Request_serialize w request)) (\<lambda>serialized_request.
     case sl_send link of
       Some e \<Rightarrow> Inl (Io e)
     | None \<Rightarrow>
         result_bind (ok_or ServerClosedConnection (sl_next link serialized_request)) (\<lambda>next_frame.
         result_bind (map_err Io next_frame) (\<lambda>raw_response.
         map_err Deserialize (Response_deserialize w raw_response))))"

definition login :: "wincode \<Rightarrow> stream_link \<Rightarrow> string \<Rightarrow> string \<Rightarrow> ClientError + Response" where
  "login w link username password = send_request w link (Login username password)"

definition signup :: "wincode \<Rightarrow> stream_link \<Rightarrow> string \<Rightarrow> string \<Rightarrow> ClientError + Response" where
  "signup w link username password = send_request w link (SignUp username password)"

definition logout :: "wincode \<Rightarrow> stream_link \<Rightarrow> ClientError + Response" where
  "logout w link = send_request w link LogOut"

definition how_many_tokens :: "wincode \<Rightarrow> stream_link \<Rightarrow> ClientError + Response" where
  "how_many_tokens w link = send_request w link HowManyTokensDoIHave"

definition purchase_tokens :: "wincode \<Rightarrow> stream_link \<Rightarrow> u64 \<Rightarrow> ClientError + Response" where
  "purchase_tokens w link amount = send_request w link (PurchaseTokens amount)"

definition timestamp_hash :: "wincode \<Rightarrow> stream_link \<Rightarrow> Sha256Hash \<Rightarrow> ClientError + Response" where
  "timestamp_hash w link hash = send_request w link (SignHash hash)"

definition history :: "wincode \<Rightarrow> stream_link \<Rightarrow> ClientError + Response" where
  "history w link = send_request w link Request.History"

lemmas client_calls = login_def signup_def logout_def how_many_tokens_def purchase_tokens_def
  timestamp_hash_def history_def

section \<open>Configuration of the command line client\<close>

datatype ClientConfigError =
    TomlNotInUtf8 string
  | Parse string
  | ConfigSafeRead SafeReadError
  | ConfigUnreliablePort

datatype ClientContextConversionError =
    ConversionSafeRead SafeReadError
  | IpParse string
  | UnreliablePort
  | CertificateParse string
  | PublicKeyNotInUtf8
  | PublicKeyParse string

record TimestampConfig =
  tg_server_ip :: string
  tg_server_port :: u16
  tg_server_certificate_name :: string
  tg_trust_roots_certificates :: bool

record ClientKeyConfig =
  kg_ca_cert_path :: string
  kg_server_rsa_public_key_path :: string

record ClientConfig =
  cg_timestamp :: TimestampConfig
  cg_keys :: ClientKeyConfig

definition ClientConfig_new :: "string \<Rightarrow> u16 \<Rightarrow> string \<Rightarrow> bool \<Rightarrow> string \<Rightarrow> string \<Rightarrow> ClientConfig" where
  "ClientConfig_new server_ip server_port server_certificate_name trust_roots_certificates
     cert_path key_path =
     \<lparr>cg_timestamp = \<lparr>tg_server_ip = server_ip, tg_server_port = server_port,
        tg_server_certificate_name = server_certificate_name,
        tg_trust_roots_certificates = trust_roots_certificates\<rparr>,
      cg_keys = \<lparr>kg_ca_cert_path = cert_path, kg_server_rsa_public_key_path = key_path\<rparr>\<rparr>"

record ('cert, 'pk) client_env =
  cv_ptr32 :: bool
  cv_try_reserve :: "nat \<Rightarrow> string option"
  cv_fs :: filesystem
  cv_utf8_error :: "byte list \<Rightarrow> string"
  cv_toml :: "string \<Rightarrow> string + ClientConfig"
  cv_parse_ip :: "string \<Rightarrow> string + IpAddr"
  cv_certs :: "byte list \<Rightarrow> (string + 'cert) list"
  cv_public_key :: "string \<Rightarrow> string + 'pk"

definition client_read ::
    "('cert, 'pk) client_env \<Rightarrow> string \<Rightarrow> string option \<Rightarrow> SafeReadError + byte list" where
  "client_read ce path extension = safe_read (cv_ptr32 ce) (cv_try_reserve ce) (cv_fs ce) path extension"

definition ClientConfig_from_file ::
    "('cert, 'pk) client_env \<Rightarrow> string \<Rightarrow> ClientConfigError + ClientConfig" where
  "ClientConfig_from_file ce path =
     result_bind (map_err ConfigSafeRead (client_read ce path (Some ''toml''))) (\<lambda>bytes.
     result_bind (map_err TomlNotInUtf8 (from_utf8 (cv_utf8_error ce) bytes)) (\<lambda>raw_toml.
     map_err Parse (cv_toml ce raw_toml)))"

definition to_client_context ::
    "('cert, 'pk) client_env \<Rightarrow> ClientConfig \<Rightarrow> ClientContextConversionError + ('cert, 'pk) ClientContext" where
  "to_client_context ce conf =
     result_bind (map_err IpParse (cv_parse_ip ce (tg_server_ip (cg_timestamp conf)))) (\<lambda>ip.
     if tg_server_port (cg_timestamp conf) = 0 then Inl UnreliablePort
     else
     let server_address = \<lparr>addr_ip = ip, addr_port = tg_server_port (cg_timestamp conf)\<rparr> in
     result_bind (map_err ConversionSafeRead
       (client_read ce (kg_ca_cert_path (cg_keys conf)) (Some ''pem''))) (\<lambda>ca_cert_bytes.
     result_bind (collect_results (map (map_err CertificateParse) (cv_certs ce ca_cert_bytes))) (\<lambda>ca_certs.
     result_bind (map_err ConversionSafeRead
       (client_read ce (kg_server_rsa_public_key_path (cg_keys conf)) (Some ''pem''))) (\<lambda>key_bytes.
     result_bind (map_err (\<lambda>_. PublicKeyNotInUtf8) (from_utf8 (cv_utf8_error ce) key_bytes)) (\<lambda>key_str.
     result_bind (map_err PublicKeyParse (cv_public_key ce key_str)) (\<lambda>server_rsa_public_key.
     Inr (ClientContext_new server_address (tg_server_certificate_name (cg_timestamp conf)) ca_certs
            server_rsa_public_key (tg_trust_roots_certificates (cg_timestamp conf)))))))))"

section \<open>Lemmas\<close>

text \<open>Trust: without the web roots, every anchor comes from the configured authority file.\<close>

lemma send_request_Inr_iff:
  "send_request w link req = Inr resp \<longleftrightarrow>
     (\<exists>bytes frame. Request_serialize w req = Inr bytes \<and> sl_send link = None \<and>
        sl_next link bytes = Some (Inr frame) \<and> Response_deserialize w frame = Inr resp)"
  by (auto simp: send_request_def result_bind_Inr_iff ok_or_def split: option.splits)

lemma connected_with_configured_key:
  assumes "to_client_context ce conf = Inr ctx" and "connect_from_context ti ctx = Inr client"
  shows "\<exists>bytes. client_read ce (kg_server_rsa_public_key_path (cg_keys conf)) (Some ''pem'') = Inr bytes \<and>
    utf8_valid bytes \<and>
    cv_public_key ce (map (\<lambda>b. char_of (unat b)) bytes) = Inr (cl_server_rsa_public_key client)"
    and "tg_server_port (cg_timestamp conf) \<noteq> 0"
    and "\<not> tg_trust_roots_certificates (cg_timestamp conf) \<Longrightarrow>
      \<exists>bytes certs domain. client_read ce (kg_ca_cert_path (cg_keys conf)) (Some ''pem'') = Inr bytes \<and>
        cv_certs ce bytes = map Inr certs \<and>
        tls_handshake ti (List.map_filter (tls_parse_root ti) certs) domain = None"
proof -
  show "\<exists>bytes. client_read ce (kg_server_rsa_public_key_path (cg_keys conf)) (Some ''pem'') = Inr bytes \<and>
      utf8_valid bytes \<and>
      cv_public_key ce (map (\<lambda>b. char_of (unat b)) bytes) = Inr (cl_server_rsa_public_key client)"
    and "tg_server_port (cg_timestamp conf) \<noteq> 0"
    using assms
    by (auto simp: to_client_context_def connect_from_context_def result_bind_Inr_iff ClientContext_new_def
        from_utf8_def Let_def split: if_splits option.splits)
  assume t: "\<not> tg_trust_roots_certificates (cg_timestamp conf)"
  from assms t show "\<exists>bytes certs domain.
      client_read ce (kg_ca_cert_path (cg_keys conf)) (Some ''pem'') = Inr bytes \<and>
      cv_certs ce bytes = map Inr certs \<and>
      tls_handshake ti (List.map_filter (tls_parse_root ti) certs) domain = None"
    by (auto simp: to_client_context_def connect_from_context_def result_bind_Inr_iff ClientContext_new_def
        Let_def collect_results_Inr_iff map_map_err_Inr add_parsable_certificates_def split: if_splits option.splits)
qed

end
