(* ===== verification/Example_Codec.thy ===== *)
theory Example_Codec
  imports Protocol
begin

text \<open>
  An instance of the \<^verbatim>\<open>wincode\<close> parameter, used by the witnesses: a tag byte for the variant,
  big-endian lengths and fixed-size arrays. It reads back everything it writes.
\<close>

section \<open>The codec\<close>

definition put_u64 :: "nat \<Rightarrow> byte list" where
  "put_u64 n = be_bytes 8 (of_nat n :: u64)"

definition get_u64 :: "byte list \<Rightarrow> (nat \<times> byte list) option" where
  "get_u64 bs = (if length bs < 8 then None else Some (unat (of_be_bytes (take 8 bs) :: u64), drop 8 bs))"

definition get_bytes :: "nat \<Rightarrow> byte list \<Rightarrow> (byte list \<times> byte list) option" where
  "get_bytes n bs = (if length bs < n then None else Some (take n bs, drop n bs))"

definition put_str :: "string \<Rightarrow> byte list" where
  "put_str s = put_u64 (length s) @ map (\<lambda>ch. of_nat (of_char ch)) s"

definition get_str :: "byte list \<Rightarrow> (string \<times> byte list) option" where
  "get_str bs = Option.bind (get_u64 bs) (\<lambda>(n, rest).
     map_option (\<lambda>(cs, rest). (map (\<lambda>b. char_of (unat b)) cs, rest)) (get_bytes n rest))"

definition MAX_ALLOCATION :: nat where "MAX_ALLOCATION = 4194304"

fun plain_enc_request :: "Request \<Rightarrow> wincode_write_error + byte list" where
  "plain_enc_request (Login u p) =
     (if length u \<le> MAX_ALLOCATION \<and> length p \<le> MAX_ALLOCATION then Inr (0 # put_str u @ put_str p)
      else Inl (WriteError ''length''))"
| "plain_enc_request (SignUp u p) =
     (if length u \<le> MAX_ALLOCATION \<and> length p \<le> MAX_ALLOCATION then Inr (1 # put_str u @ put_str p)
      else Inl (WriteError ''length''))"
| "plain_enc_request LogOut = Inr [2]"
| "plain_enc_request (SignHash h) =
     (if wf_hash h then Inr (3 # Sha256Hash_as_bytes h) else Inl (WriteError ''length''))"
| "plain_enc_request (PurchaseTokens n) = Inr (4 # be_bytes 8 n)"
| "plain_enc_request HowManyTokensDoIHave = Inr [5]"
| "plain_enc_request Request.History = Inr [6]"

definition plain_dec_request :: "byte list \<Rightarrow> wincode_read_error + Request" where
  "plain_dec_request bs = ok_or (ReadError ''malformed'')
     (case bs of
        [] \<Rightarrow> None
      | tag # rest \<Rightarrow>
         (if tag = 0 \<or> tag = 1 then
            Option.bind (get_str rest) (\<lambda>(u, rest). Option.bind (get_str rest) (\<lambda>(p, rest).
              if rest = [] then Some (if tag = 0 then Login u p else SignUp u p) else None))
          else if tag = 2 \<and> rest = [] then Some LogOut
          else if tag = 3 \<and> length rest = 32 then Some (SignHash (Sha256Hash rest))
          else if tag = 4 \<and> length rest = 8 then Some (PurchaseTokens (of_be_bytes rest))
          else if tag = 5 \<and> rest = [] then Some HowManyTokensDoIHave
          else if tag = 6 \<and> rest = [] then Some Request.History
          else None))"

definition put_record :: "HistoryRecord \<Rightarrow> byte list" where
  "put_record r = RsaSignature_as_bytes (hr_sign r) @ Timestamp_as_be_bytes (hr_timestamp r)"

definition get_record :: "byte list \<Rightarrow> (HistoryRecord \<times> byte list) option" where
  "get_record bs = Option.bind (get_bytes 256 bs) (\<lambda>(s, rest).
     map_option (\<lambda>(t, rest). (\<lparr>hr_sign = RsaSignature s, hr_timestamp = Timestamp_from_be t\<rparr>, rest))
       (get_bytes 16 rest))"

primrec get_records :: "nat \<Rightarrow> byte list \<Rightarrow> (HistoryRecord list \<times> byte list) option" where
  "get_records 0 bs = Some ([], bs)"
| "get_records (Suc n) bs = Option.bind (get_record bs) (\<lambda>(r, rest).
     map_option (\<lambda>(rs, rest). (r # rs, rest)) (get_records n rest))"

fun plain_enc_response :: "Response \<Rightarrow> wincode_write_error + byte list" where
  "plain_enc_response Ok = Inr [0]"
| "plain_enc_response (LoginFailed InvalidCredentials) = Inr [1, 0]"
| "plain_enc_response (LoginFailed LoginError.AlreadyLoggedIn) = Inr [1, 1]"
| "plain_enc_response (SignInFailed UsernameAlreadyTaken) = Inr [2, 0]"
| "plain_enc_response (SignInFailed SignInError.AlreadyLoggedIn) = Inr [2, 1]"
| "plain_enc_response NotLoggedIn = Inr [3]"
| "plain_enc_response (TokenCount n) = Inr (4 # be_bytes 8 n)"
| "plain_enc_response TokenAmountTooHigh = Inr [5]"
| "plain_enc_response NotEnoughTokens = Inr [6]"
| "plain_enc_response (Token h s t) =
     (if wf_hash h \<and> wf_signature s then Inr (7 # Sha256Hash_as_bytes h @ put_record \<lparr>hr_sign = s, hr_timestamp = t\<rparr>)
      else Inl (WriteError ''length''))"
| "plain_enc_response (OperationError m) =
     (if length m \<le> MAX_ALLOCATION then Inr (8 # put_str m) else Inl (WriteError ''length''))"
| "plain_enc_response (Response.History rs) =
     (if length rs \<le> MAX_ALLOCATION \<and> list_all (\<lambda>r. wf_signature (hr_sign r)) rs
      then Inr (9 # put_u64 (length rs) @ concat (map put_record rs)) else Inl (WriteError ''length''))"

definition plain_dec_response :: "byte list \<Rightarrow> wincode_read_error + Response" where
  "plain_dec_response bs = ok_or (ReadError ''malformed'')
     (case bs of
        [] \<Rightarrow> None
      | tag # rest \<Rightarrow>
         (if tag = 0 \<and> rest = [] then Some Ok
          else if tag = 1 \<and> rest = [0] then Some (LoginFailed InvalidCredentials)
          else if tag = 1 \<and> rest = [1] then Some (LoginFailed LoginError.AlreadyLoggedIn)
          else if tag = 2 \<and> rest = [0] then Some (SignInFailed UsernameAlreadyTaken)
          else if tag = 2 \<and> rest = [1] then Some (SignInFailed SignInError.AlreadyLoggedIn)
          else if tag = 3 \<and> rest = [] then Some NotLoggedIn
          else if tag = 4 \<and> length rest = 8 then Some (TokenCount (of_be_bytes rest))
          else if tag = 5 \<and> rest = [] then Some TokenAmountTooHigh
          else if tag = 6 \<and> rest = [] then Some NotEnoughTokens
          else if tag = 7 then
            Option.bind (get_bytes 32 rest) (\<lambda>(h, rest). Option.bind (get_record rest) (\<lambda>(r, rest).
              if rest = [] then Some (Token (Sha256Hash h) (hr_sign r) (hr_timestamp r)) else None))
          else if tag = 8 then
            Option.bind (get_str rest) (\<lambda>(m, rest). if rest = [] then Some (OperationError m) else None)
          else if tag = 9 then
            Option.bind (get_u64 rest) (\<lambda>(n, rest). Option.bind (get_records n rest) (\<lambda>(rs, rest).
              if rest = [] then Some (Response.History rs) else None))
          else None))"

definition plain_wincode :: wincode where
  "plain_wincode = \<lparr>wincode_enc_request = plain_enc_request, wincode_dec_request = plain_dec_request,
     wincode_enc_response = plain_enc_response, wincode_dec_response = plain_dec_response\<rparr>"

section \<open>Round trips\<close>

lemma get_put_u64: "n < 2 ^ 64 \<Longrightarrow> get_u64 (put_u64 n @ rest) = Some (n, rest)"
  by (simp add: get_u64_def put_u64_def of_be_bytes_be_bytes unat_of_nat)

lemma byte_of_char: "char_of (unat (of_nat (of_char ch) :: byte)) = ch"
proof -
  have "of_char ch < (256 :: nat)" by (cases ch) (auto simp: of_char_def horner_sum_simps of_bool_def)
  then show ?thesis by (simp add: unat_of_nat)
qed

lemma get_put_str: "length s < 2 ^ 64 \<Longrightarrow> get_str (put_str s @ rest) = Some (s, rest)"
  by (simp add: get_str_def put_str_def get_put_u64 get_bytes_def comp_def byte_of_char)

lemma plain_request_roundtrip: "plain_enc_request r = Inr bs \<Longrightarrow> plain_dec_request bs = Inr r"
proof (cases r)
  case (SignHash h)
  then show "plain_enc_request r = Inr bs \<Longrightarrow> ?thesis"
    by (cases h) (auto simp: plain_dec_request_def wf_hash_def split: if_splits)
qed (auto simp: plain_dec_request_def get_put_str get_put_str[where rest="[]", simplified] MAX_ALLOCATION_def of_be_bytes_be_bytes split: if_splits)

lemma get_put_record:
  "wf_signature (hr_sign r) \<Longrightarrow> get_record (put_record r @ rest) = Some (r, rest)"
  using ts_codec.dec_enc[of "hr_timestamp r"] ts_codec.enc_width[of "hr_timestamp r"]
  by (cases "hr_sign r")
    (simp add: get_record_def put_record_def get_bytes_def wf_signature_def RSA_KEY_SIZE_IN_BYTES_def
      RSA_KEY_SIZE_IN_BITS_def timestamp_of_blob_def)

lemma get_put_records:
  "list_all (\<lambda>r. wf_signature (hr_sign r)) rs \<Longrightarrow>
   get_records (length rs) (concat (map put_record rs) @ rest) = Some (rs, rest)"
  by (induction rs) (simp_all add: get_put_record)

lemma plain_response_roundtrip: "plain_enc_response r = Inr bs \<Longrightarrow> plain_dec_response bs = Inr r"
proof (cases r)
  case (Token h s t)
  assume "plain_enc_response r = Inr bs"
  then show ?thesis
    using Token get_put_record[of "\<lparr>hr_sign = s, hr_timestamp = t\<rparr>" "[]"]
    by (cases h) (auto simp: plain_dec_response_def get_bytes_def wf_hash_def split: if_splits)
next
  case (History rs)
  assume "plain_enc_response r = Inr bs"
  then show ?thesis
    using History get_put_records[of rs "[]"]
    by (auto simp: plain_dec_response_def get_put_u64 MAX_ALLOCATION_def split: if_splits)
next
  case (LoginFailed e)
  assume "plain_enc_response r = Inr bs"
  then show ?thesis using LoginFailed by (cases e) (auto simp: plain_dec_response_def)
next
  case (SignInFailed e)
  assume "plain_enc_response r = Inr bs"
  then show ?thesis using SignInFailed by (cases e) (auto simp: plain_dec_response_def)
qed (auto simp: plain_dec_response_def get_put_str[where rest="[]", simplified] MAX_ALLOCATION_def
    of_be_bytes_be_bytes split: if_splits)

lemma plain_wincode_correct: "wincode_correct plain_wincode"
  by (simp add: wincode_correct_def plain_wincode_def plain_request_roundtrip plain_response_roundtrip)

end
