(* ===== verification/Client_Cli.thy ===== *)
theory Client_Cli
  imports Client Example_Codec
begin

text \<open>
  The command line client, \<^verbatim>\<open>client_cli/src/main.rs\<close>: the menu loop, with what the user types,
  what the stream answers and what the file system does as the input of each round. The
  lines that are printed are values of a type of messages. Files are keyed by the
  components of the path they are opened with.
\<close>

section \<open>Messages\<close>

datatype cli_msg =
    OperationCancelled
  | UsernameTooLong
  | PasswordTooLong
  | LoginSuccessful
  | LoginErrorMsg LoginError
  | SignupComplete
  | SignupErrorMsg SignInError
  | LogoutSuccessful
  | NotLoggedInMsg
  | MustLogInFirst
  | TokensOwned u64
  | PurchaseComplete u64
  | AmountTooHigh
  | NotEnoughTokensMsg
  | ServerErrorMsg string
  | UnexpectedMsg Response
  | ClientErrorMsg ClientError
  | InvalidHashFormat
  | InvalidSignatureLength
  | ErrorReadingSignature io_error
  | SignatureIsValid
  | SignatureVerificationFailed
  | ErrorCreatingOutput string io_error
  | ErrorReadingFile SafeReadError
  | SignedSuccessfully Sha256Hash string Timestamp
  | CouldNotWrite io_error RsaSignature
  | SignatureSaved
  | LocalVerificationPassed
  | LocalVerificationFailed rsa_error
  | NoHistory
  | HistoryHeader nat
  | TimestampOutOfRange
  | HistoryLine string string
  | ClosingClient

section \<open>Helpers\<close>

text \<open>\<^verbatim>\<open>chrono::DateTime::from_timestamp\<close> and \<^verbatim>\<open>format\<close>.\<close>

record 'dt chrono =
  dt_from_timestamp :: "i64 \<Rightarrow> u32 \<Rightarrow> 'dt option"
  dt_format :: "string \<Rightarrow> 'dt \<Rightarrow> string"

definition timestamp_format :: "'dt chrono \<Rightarrow> Timestamp \<Rightarrow> string" where
  "timestamp_format ch ts =
     (let total_nanos = Timestamp_get ts;
          ts_seconds = (ucast (total_nanos div 1000000000) :: i64);
          ts_nanos = (ucast (total_nanos mod 1000000000) :: u32)
      in case dt_from_timestamp ch ts_seconds ts_nanos of
           Some datetime \<Rightarrow> dt_format ch ''%Y-%m-%d %H:%M:%S.%f'' datetime
         | None \<Rightarrow> ''invalid Epoch: '' @ show_int (sint ts_seconds) @ ''s '' @
                   show_nat (unat ts_nanos) @ ''ns'')"

definition validate_credentials_length :: "string \<Rightarrow> string \<Rightarrow> cli_msg list \<times> bool" where
  "validate_credentials_length username password =
     (if \<not> is_username_length_valid username then ([UsernameTooLong], False)
      else if \<not> is_password_length_valid password then ([PasswordTooLong], False)
      else ([], True))"

definition clean_path :: "string \<Rightarrow> string" where
  "clean_path raw = trim (trim_matches [CHR ''\"'', CHR 0x27] raw)"

section \<open>State and inputs\<close>

text \<open>
  The state of the loop: the flag that selects the menu, and the files. \<open>env_os\<close> is how the
  operating system presents a file to the reader that hashes it.
\<close>

type_synonym cli_files = "path_key \<rightharpoonup> byte list"

record cli_state =
  is_logged_in :: bool
  cli_files :: cli_files

record ('h, 'sk, 'pk, 'dt) cli_env =
  env_wincode :: wincode
  env_crypto :: "('h, 'sk, 'pk) crypto"
  env_hex :: hex_crate
  env_chrono :: "'dt chrono"
  env_client :: "'pk STSSClient"
  env_os :: "byte list option \<Rightarrow> io_error + os_file \<times> (io_error + u64)"

text \<open>
  One round: the answers to the prompts (\<open>None\<close> when a prompt fails), the stream, the failure
  of creating the output file or reading the signature file, and what \<^verbatim>\<open>write\<close> returns.
\<close>

record cli_round =
  in_choice :: "string option"
  in_user :: "string option"
  in_pass :: "string option"
  in_amount :: "u64 option"
  in_hash :: "string option"
  in_path :: "string option"
  in_ts :: "u128 option"
  in_file :: "string option"
  in_out :: "string option"
  in_link :: stream_link
  in_create :: "io_error option"
  in_read :: "io_error option"
  in_write :: "io_error + nat"

text \<open>\<^verbatim>\<open>create_new\<close> fails on an existing file; \<^verbatim>\<open>fs::read\<close> fails on a missing one.\<close>

definition create_new :: "io_error option \<Rightarrow> path_key \<Rightarrow> cli_files \<Rightarrow> io_error + cli_files" where
  "create_new failing k files =
     (case failing of
        Some e \<Rightarrow> Inl e
      | None \<Rightarrow>
          (if files k \<noteq> None then Inl (IoError AlreadyExists ''File exists'')
           else Inr (files(k \<mapsto> []))))"

definition fs_read :: "io_error option \<Rightarrow> path_key \<Rightarrow> cli_files \<Rightarrow> io_error + byte list" where
  "fs_read failing k files =
     (case failing of
        Some e \<Rightarrow> Inl e
      | None \<Rightarrow> ok_or (IoError NotFound ''No such file or directory'') (files k))"

section \<open>Menu entries\<close>

definition menu :: "bool \<Rightarrow> string list" where
  "menu logged =
     (if logged then [''Check Tokens'', ''Buy Tokens'', ''Hash a File'', ''History'', ''Logout'']
      else [''Login'', ''Signup'']) @ [''Verify a Hash'', ''Exit'']"

definition cli_login ::
    "('h, 'sk, 'pk, 'dt) cli_env \<Rightarrow> cli_round \<Rightarrow> cli_state \<Rightarrow> cli_msg list \<times> cli_state" where
  "cli_login env rd st =
     (case (in_user rd, in_pass rd) of
        (Some u, Some p) \<Rightarrow>
          (case validate_credentials_length u p of
             (msgs, False) \<Rightarrow> (msgs, st)
           | (_, True) \<Rightarrow>
               (case login (env_wincode env) (in_link rd) u p of
                  Inr Ok \<Rightarrow> ([LoginSuccessful], st\<lparr>is_logged_in := True\<rparr>)
                | Inr (LoginFailed e) \<Rightarrow> ([LoginErrorMsg e], st)
                | Inr (OperationError msg) \<Rightarrow> ([ServerErrorMsg msg], st)
                | Inr unexpected \<Rightarrow> ([UnexpectedMsg unexpected], st)
                | Inl e \<Rightarrow> ([ClientErrorMsg e], st)))
      | _ \<Rightarrow> ([OperationCancelled], st))"

definition cli_signup ::
    "('h, 'sk, 'pk, 'dt) cli_env \<Rightarrow> cli_round \<Rightarrow> cli_state \<Rightarrow> cli_msg list \<times> cli_state" where
  "cli_signup env rd st =
     (case (in_user rd, in_pass rd) of
        (Some u, Some p) \<Rightarrow>
          (case validate_credentials_length u p of
             (msgs, False) \<Rightarrow> (msgs, st)
           | (_, True) \<Rightarrow>
               (case signup (env_wincode env) (in_link rd) u p of
                  Inr Ok \<Rightarrow> ([SignupComplete], st)
                | Inr (SignInFailed e) \<Rightarrow> ([SignupErrorMsg e], st)
                | Inr (OperationError msg) \<Rightarrow> ([ServerErrorMsg msg], st)
                | Inr unexpected \<Rightarrow> ([UnexpectedMsg unexpected], st)
                | Inl e \<Rightarrow> ([ClientErrorMsg e], st)))
      | _ \<Rightarrow> ([OperationCancelled], st))"

definition cli_logout ::
    "('h, 'sk, 'pk, 'dt) cli_env \<Rightarrow> cli_round \<Rightarrow> cli_state \<Rightarrow> cli_msg list \<times> cli_state" where
  "cli_logout env rd st =
     (case logout (env_wincode env) (in_link rd) of
        Inr Ok \<Rightarrow> ([LogoutSuccessful], st\<lparr>is_logged_in := False\<rparr>)
      | Inr NotLoggedIn \<Rightarrow> ([NotLoggedInMsg], st)
      | Inr (OperationError msg) \<Rightarrow> ([ServerErrorMsg msg], st)
      | Inr unexpected \<Rightarrow> ([UnexpectedMsg unexpected], st)
      | Inl e \<Rightarrow> ([ClientErrorMsg e], st))"

definition cli_check_tokens ::
    "('h, 'sk, 'pk, 'dt) cli_env \<Rightarrow> cli_round \<Rightarrow> cli_state \<Rightarrow> cli_msg list \<times> cli_state" where
  "cli_check_tokens env rd st =
     (case how_many_tokens (env_wincode env) (in_link rd) of
        Inr (TokenCount count) \<Rightarrow> ([TokensOwned count], st)
      | Inr NotLoggedIn \<Rightarrow> ([MustLogInFirst], st)
      | Inr (OperationError msg) \<Rightarrow> ([ServerErrorMsg msg], st)
      | Inr unexpected \<Rightarrow> ([UnexpectedMsg unexpected], st)
      | Inl e \<Rightarrow> ([ClientErrorMsg e], st))"

definition cli_buy_tokens ::
    "('h, 'sk, 'pk, 'dt) cli_env \<Rightarrow> cli_round \<Rightarrow> cli_state \<Rightarrow> cli_msg list \<times> cli_state" where
  "cli_buy_tokens env rd st =
     (case in_amount rd of
        Some amount \<Rightarrow>
          (case purchase_tokens (env_wincode env) (in_link rd) amount of
             Inr (TokenCount new_total) \<Rightarrow> ([PurchaseComplete new_total], st)
           | Inr TokenAmountTooHigh \<Rightarrow> ([AmountTooHigh], st)
           | Inr NotLoggedIn \<Rightarrow> ([MustLogInFirst], st)
           | Inr (OperationError msg) \<Rightarrow> ([ServerErrorMsg msg], st)
           | Inr unexpected \<Rightarrow> ([UnexpectedMsg unexpected], st)
           | Inl e \<Rightarrow> ([ClientErrorMsg e], st))
      | None \<Rightarrow> ([OperationCancelled], st))"

definition cli_verify_hash ::
    "('h, 'sk, 'pk, 'dt) cli_env \<Rightarrow> cli_round \<Rightarrow> cli_state \<Rightarrow> cli_msg list \<times> cli_state" where
  "cli_verify_hash env rd st =
     (case (in_hash rd, in_path rd, in_ts rd) of
        (Some h_raw, Some p_raw, Some ts_raw) \<Rightarrow>
          (case Sha256Hash_from_str (env_hex env) h_raw of
             Inl _ \<Rightarrow> ([InvalidHashFormat], st)
           | Inr hash \<Rightarrow>
          (case fs_read (in_read rd) (path_key (clean_path p_raw)) (cli_files st) of
             Inl e \<Rightarrow> ([ErrorReadingSignature e], st)
           | Inr raw_sign \<Rightarrow>
          (case RsaSignature_try_from raw_sign of
             Inl _ \<Rightarrow> ([InvalidSignatureLength], st)
           | Inr sign \<Rightarrow>
          (case verify_timestamp_signature (env_crypto env) (cl_server_rsa_public_key (env_client env))
                  hash (Timestamp_new ts_raw) sign of
             Inr _ \<Rightarrow> ([SignatureIsValid], st)
           | Inl _ \<Rightarrow> ([SignatureVerificationFailed], st)))))
      | _ \<Rightarrow> ([OperationCancelled], st))"

text \<open>The output file is created before anything else; \<^verbatim>\<open>write\<close> may take only a part of the bytes.\<close>

definition cli_hash_file ::
    "('h, 'sk, 'pk, 'dt) cli_env \<Rightarrow> cli_round \<Rightarrow> cli_state \<Rightarrow> cli_msg list \<times> cli_state" where
  "cli_hash_file env rd st =
     (case (in_file rd, in_out rd) of
        (Some f_raw, Some o_raw) \<Rightarrow>
          (let file_path = clean_path f_raw; output_path = clean_path o_raw
           in case create_new (in_create rd) (path_key output_path) (cli_files st) of
                Inl e \<Rightarrow> ([ErrorCreatingOutput output_path e], st)
              | Inr files \<Rightarrow>
          (let st = st\<lparr>cli_files := files\<rparr>
           in case hash_file (env_crypto env) (\<lambda>p. env_os env (files (path_key p))) file_path None of
                Inl e \<Rightarrow> ([ErrorReadingFile e], st)
              | Inr hash_result \<Rightarrow>
          (case timestamp_hash (env_wincode env) (in_link rd) hash_result of
             Inr (Token hash sign timestamp) \<Rightarrow>
               (let (written, st) =
                      (case in_write rd of
                         Inl write_err \<Rightarrow> (CouldNotWrite write_err sign, st)
                       | Inr n \<Rightarrow> (SignatureSaved, st\<lparr>cli_files := files(path_key output_path \<mapsto>
                                     take n (RsaSignature_as_bytes sign))\<rparr>));
                    verified =
                      (case verify_timestamp_signature (env_crypto env)
                              (cl_server_rsa_public_key (env_client env)) hash_result timestamp sign of
                         Inr _ \<Rightarrow> LocalVerificationPassed
                       | Inl e \<Rightarrow> LocalVerificationFailed e)
                in ([SignedSuccessfully hash (timestamp_format (env_chrono env) timestamp) timestamp,
                     written, verified], st))
           | Inr NotEnoughTokens \<Rightarrow> ([NotEnoughTokensMsg], st)
           | Inr NotLoggedIn \<Rightarrow> ([MustLogInFirst], st)
           | Inr (OperationError msg) \<Rightarrow> ([ServerErrorMsg msg], st)
           | Inr unexpected \<Rightarrow> ([UnexpectedMsg unexpected], st)
           | Inl e \<Rightarrow> ([ClientErrorMsg e], st))))
      | _ \<Rightarrow> ([OperationCancelled], st))"

text \<open>A line of the history; slicing a shorter string would panic.\<close>

definition history_line ::
    "hex_crate \<Rightarrow> 'dt chrono \<Rightarrow> HistoryRecord \<Rightarrow> cli_msg list outcome" where
  "history_line hx ch record =
     (let t = Timestamp_get (hr_timestamp record);
          (warning, ts_seconds) =
            (if unat t < 2 ^ 63 then ([], ucast t :: i64) else ([TimestampOutOfRange], 0));
          time_str = (case dt_from_timestamp ch ts_seconds 0 of
                        Some dt \<Rightarrow> dt_format ch ''%Y-%m-%d %H:%M:%S'' dt
                      | None \<Rightarrow> ''Invalid Epoch: '' @ show_int (sint ts_seconds));
          sig_hex = hex_encode hx (RsaSignature_as_bytes (hr_sign record))
      in if length sig_hex < 8 then Panic
         else Returns (warning @ [HistoryLine time_str
                (take 8 sig_hex @ ''...'' @ drop (length sig_hex - 8) sig_hex)]))"

fun history_lines ::
    "hex_crate \<Rightarrow> 'dt chrono \<Rightarrow> HistoryRecord list \<Rightarrow> cli_msg list outcome" where
  "history_lines hx ch [] = Returns []"
| "history_lines hx ch (r # rs) =
     (case history_line hx ch r of
        Panic \<Rightarrow> Panic
      | Returns msgs \<Rightarrow>
          (case history_lines hx ch rs of Panic \<Rightarrow> Panic | Returns rest \<Rightarrow> Returns (msgs @ rest)))"

definition cli_history ::
    "('h, 'sk, 'pk, 'dt) cli_env \<Rightarrow> cli_round \<Rightarrow> cli_state \<Rightarrow> (cli_msg list \<times> cli_state) outcome" where
  "cli_history env rd st =
     (case history (env_wincode env) (in_link rd) of
        Inr (Response.History records) \<Rightarrow>
          (if records = [] then Returns ([NoHistory], st)
           else case history_lines (env_hex env) (env_chrono env) records of
                  Panic \<Rightarrow> Panic
                | Returns msgs \<Rightarrow> Returns (HistoryHeader (length records) # msgs, st))
      | Inr unexpected \<Rightarrow> Returns ([UnexpectedMsg unexpected], st)
      | Inl e \<Rightarrow> Returns ([ClientErrorMsg e], st))"

section \<open>The loop\<close>

text \<open>One round; \<open>True\<close> when the loop goes on.\<close>

definition cli_step ::
    "('h, 'sk, 'pk, 'dt) cli_env \<Rightarrow> cli_round \<Rightarrow> cli_state \<Rightarrow> (cli_msg list \<times> cli_state \<times> bool) outcome" where
  "cli_step env rd st =
     (let continue = (\<lambda>(msgs, st). Returns (msgs, st, True))
      in case in_choice rd of
           None \<Rightarrow> Returns ([ClosingClient], st, False)
         | Some choice \<Rightarrow>
             (if choice = ''Login'' then continue (cli_login env rd st)
              else if choice = ''Signup'' then continue (cli_signup env rd st)
              else if choice = ''Logout'' then continue (cli_logout env rd st)
              else if choice = ''Check Tokens'' then continue (cli_check_tokens env rd st)
              else if choice = ''Buy Tokens'' then continue (cli_buy_tokens env rd st)
              else if choice = ''Verify a Hash'' then continue (cli_verify_hash env rd st)
              else if choice = ''Hash a File'' then continue (cli_hash_file env rd st)
              else if choice = ''History''
                   then (case cli_history env rd st of Panic \<Rightarrow> Panic | Returns r \<Rightarrow> continue r)
              else if choice = ''Exit'' then Returns ([ClosingClient], st, False)
              else Returns ([], st, True)))"

fun cli_loop ::
    "('h, 'sk, 'pk, 'dt) cli_env \<Rightarrow> cli_round list \<Rightarrow> cli_state \<Rightarrow> (cli_msg list \<times> cli_state) outcome" where
  "cli_loop env [] st = Returns ([], st)"
| "cli_loop env (rd # rds) st =
     (case cli_step env rd st of
        Panic \<Rightarrow> Panic
      | Returns (msgs, st, go_on) \<Rightarrow>
          (if go_on
           then (case cli_loop env rds st of
                   Panic \<Rightarrow> Panic
                 | Returns (rest, st) \<Rightarrow> Returns (msgs @ rest, st))
           else Returns (msgs, st)))"

section \<open>Specification\<close>

text \<open>
  \<open>hex_correct\<close>: what was encoded is decoded again. \<open>digest_typed\<close> and \<open>response_typed\<close>: the
  widths of the arrays the types of the crates guarantee. \<open>chrono_bounded\<close>: the date library
  knows no instant \<open>2 ^ 43\<close> seconds or more after the epoch, some 278000 years.
\<close>

definition hex_correct :: "hex_crate \<Rightarrow> bool" where
  "hex_correct hx \<longleftrightarrow> (\<forall>bs. hex_decode_to_slice hx (hex_encode hx bs) (length bs) = Inr bs)"

definition digest_typed :: "('h, 'sk, 'pk) crypto \<Rightarrow> bool" where
  "digest_typed cr \<longleftrightarrow> (\<forall>h. length (digest_finalize cr h) = 32)"

definition response_typed :: "wincode \<Rightarrow> bool" where
  "response_typed w \<longleftrightarrow>
     (\<forall>frame h s t. wincode_dec_response w frame = Inr (Token h s t) \<longrightarrow> wf_hash h \<and> wf_signature s)"

definition chrono_bounded :: "'dt chrono \<Rightarrow> bool" where
  "chrono_bounded ch \<longleftrightarrow> (\<forall>s n. 2 ^ 43 \<le> sint s \<longrightarrow> dt_from_timestamp ch s n = None)"

section \<open>Lemmas\<close>

lemma hash_file_typed: "digest_typed cr \<Longrightarrow> hash_file cr fs p ext = Inr h \<Longrightarrow> wf_hash h"
  by (auto simp: hash_file_def result_bind_Inr_iff digest_typed_def wf_hash_def Sha256Hash_from_def)

lemma display_parses:
  assumes "hex_correct hx" and "wf_hash h"
  shows "Sha256Hash_from_str hx (Sha256Hash_display hx h) = Inr h"
proof (cases h)
  case (Sha256Hash bs)
  have "hex_decode_to_slice hx (hex_encode hx bs) (length bs) = Inr bs"
    using assms(1) by (simp add: hex_correct_def)
  then show ?thesis
    using assms(2) Sha256Hash by (simp add: Sha256Hash_from_str_def Sha256Hash_display_def wf_hash_def)
qed

lemma received_token_typed:
  assumes "response_typed w" and "timestamp_hash w link h = Inr (Token h' s t)"
  shows "wf_signature s"
  using assms by (auto simp: timestamp_hash_def send_request_Inr_iff Response_deserialize_def response_typed_def)

lemma try_from_signature: "wf_signature s \<Longrightarrow> RsaSignature_try_from (RsaSignature_as_bytes s) = Inr s"
  by (cases s) (simp add: RsaSignature_try_from_def wf_signature_def)

lemma unat_ucast_fits:
  fixes x :: "'a::len word"
  assumes "unat x < 2 ^ LENGTH('b::len)"
  shows "unat (ucast x :: 'b word) = unat x"
  using assms by (simp add: unsigned_ucast_eq take_bit_nat_eq_self)

lemma cli_hash_file_signed:
  assumes "cli_hash_file env rd st = (msgs, st')" and "in_out rd = Some o_raw"
    and "LocalVerificationPassed \<in> set msgs"
  obtains f_raw files h h' s t where "in_file rd = Some f_raw"
    and "create_new (in_create rd) (path_key (clean_path o_raw)) (cli_files st) = Inr files"
    and "hash_file (env_crypto env) (\<lambda>p. env_os env (files (path_key p))) (clean_path f_raw) None = Inr h"
    and "timestamp_hash (env_wincode env) (in_link rd) h = Inr (Token h' s t)"
    and "verify_timestamp_signature (env_crypto env) (cl_server_rsa_public_key (env_client env)) h t s = Inr ()"
    and "SignedSuccessfully h' (timestamp_format (env_chrono env) t) t \<in> set msgs"
    and "\<And>n. in_write rd = Inr n \<Longrightarrow>
      st' = st\<lparr>cli_files := files(path_key (clean_path o_raw) \<mapsto> take n (RsaSignature_as_bytes s))\<rparr>"
  using assms
  by (auto simp: cli_hash_file_def Let_def split: option.splits sum.splits Response.splits)

section \<open>Example instance\<close>

text \<open>A digest of 32 bytes: the first 32 of the message, filled up with zeros.\<close>

definition wide_crypto :: "(byte list, unit, unit) crypto" where
  "wide_crypto = plain_crypto\<lparr>digest_finalize := (\<lambda>h. take 32 (h @ replicate 32 0))\<rparr>"

definition wide_signature :: "Sha256Hash \<Rightarrow> RsaSignature" where
  "wide_signature h = RsaSignature (replicate 223 0 @ 1 # Sha256Hash_as_bytes h)"

definition plain_chrono :: "string chrono" where
  "plain_chrono = \<lparr>dt_from_timestamp = (\<lambda>s n. if sint s < 2 ^ 43 then Some (show_int (sint s)) else None),
     dt_format = (\<lambda>_ dt. dt)\<rparr>"

definition plain_os :: "byte list option \<Rightarrow> io_error + os_file \<times> (io_error + u64)" where
  "plain_os contents =
     (case contents of
        None \<Rightarrow> Inl (IoError NotFound [])
      | Some bs \<Rightarrow> Inr (\<lparr>of_content = bs, of_plan = []\<rparr>, Inr (of_nat (length bs))))"

definition plain_cli :: "(byte list, unit, unit, string) cli_env" where
  "plain_cli = \<lparr>env_wincode = plain_wincode, env_crypto = wide_crypto, env_hex = plain_hex,
     env_chrono = plain_chrono, env_client = \<lparr>cl_server_rsa_public_key = ()\<rparr>, env_os = plain_os\<rparr>"

definition doc_hash :: Sha256Hash where
  "doc_hash = Sha256Hash (7 # replicate 31 0)"

definition cli_start :: cli_state where
  "cli_start = \<lparr>is_logged_in = True, cli_files = [path_key ''doc.txt'' \<mapsto> [7]]\<rparr>"

definition answer_with :: "Response \<Rightarrow> stream_link" where
  "answer_with resp = \<lparr>sl_send = None,
     sl_next = (\<lambda>_. Some (case plain_enc_response resp of Inr bs \<Rightarrow> Inr bs | Inl _ \<Rightarrow> Inl (IoError InvalidData [])))\<rparr>"

definition idle_round :: cli_round where
  "idle_round = \<lparr>in_choice = None, in_user = None, in_pass = None, in_amount = None, in_hash = None,
     in_path = None, in_ts = None, in_file = None, in_out = None,
     in_link = answer_with NotLoggedIn, in_create = None, in_read = None, in_write = Inr 0\<rparr>"

definition sign_round :: "Response \<Rightarrow> cli_round" where
  "sign_round resp = idle_round\<lparr>in_file := Some ''doc.txt'', in_out := Some ''doc.sig'',
     in_link := answer_with resp, in_write := Inr 256\<rparr>"

lemma of_char_of_byte: "of_char (char_of (unat b)) = (b :: byte)"
proof -
  have "unat b < 2 ^ LENGTH(8)" by (rule unsigned_less)
  then have "of_char (char_of (unat b)) = unat b" by simp
  then have "of_char (char_of (unat b)) = (of_nat (unat b) :: byte)" by (metis of_nat_of_char)
  then show ?thesis by simp
qed

lemma plain_hex_correct: "hex_correct plain_hex"
  by (simp add: hex_correct_def plain_hex_def comp_def of_char_of_byte)

lemma wide_crypto_typed: "digest_typed wide_crypto"
  by (auto simp: digest_typed_def wide_crypto_def min_def)

lemma plain_response_typed: "response_typed plain_wincode"
  by (auto simp: response_typed_def plain_wincode_def plain_dec_response_def ok_or_def get_bytes_def
      get_record_def wf_hash_def wf_signature_def RSA_KEY_SIZE_IN_BYTES_def RSA_KEY_SIZE_IN_BITS_def
      split: option.splits list.splits if_splits bind_splits)

lemma plain_exchange:
  assumes "plain_enc_request req = Inr b" and "plain_enc_response resp = Inr b'"
  shows "send_request plain_wincode (answer_with resp) req = Inr resp"
  using assms plain_response_roundtrip[OF assms(2)]
  by (simp add: send_request_Inr_iff answer_with_def Request_serialize_def Response_deserialize_def plain_wincode_def)

lemma clean_examples [simp]:
  "clean_path ''doc.txt'' = ''doc.txt''" "clean_path ''doc.sig'' = ''doc.sig''"
  "path_key ''doc.txt'' = (False, [''doc.txt''])" "path_key ''doc.sig'' = (False, [''doc.sig''])"
  by code_simp+

lemma doc_hashed: "hash_file wide_crypto (\<lambda>p. plain_os (((cli_files cli_start)(path_key ''doc.sig'' \<mapsto> [])) (path_key p)))
    ''doc.txt'' None = Inr doc_hash"
  by (simp add: hash_file_def SafeFileReader_new_def plain_os_def cli_start_def hash_chunks.simps
      next_chunk_def take_read_def file_read_def CHUNK_SIZE_def doc_hash_def Sha256Hash_from_def)
    (simp add: wide_crypto_def plain_crypto_def)

lemma doc_verified: "verify_timestamp_signature wide_crypto () doc_hash t (wide_signature doc_hash) = Inr ()"
  by (simp add: verify_timestamp_signature_def wide_crypto_def plain_crypto_def doc_hash_def wide_signature_def)

lemma doc_wf: "wf_hash doc_hash" "wf_signature (wide_signature doc_hash)"
  by (simp_all add: doc_hash_def wide_signature_def wf_hash_def wf_signature_def RSA_KEY_SIZE_IN_BYTES_def
      RSA_KEY_SIZE_IN_BITS_def)

lemma doc_signed:
  "\<exists>d. cli_hash_file plain_cli (sign_round (Token doc_hash (wide_signature doc_hash) t)) cli_start =
     ([SignedSuccessfully doc_hash d t, SignatureSaved, LocalVerificationPassed],
      cli_start\<lparr>cli_files := (cli_files cli_start)(path_key ''doc.sig'' \<mapsto> RsaSignature_as_bytes (wide_signature doc_hash))\<rparr>)"
proof -
  have "timestamp_hash plain_wincode (answer_with (Token doc_hash (wide_signature doc_hash) t)) doc_hash =
      Inr (Token doc_hash (wide_signature doc_hash) t)"
    unfolding timestamp_hash_def by (rule plain_exchange) (simp_all add: doc_wf)
  moreover have "length (RsaSignature_as_bytes (wide_signature doc_hash)) = 256"
    using doc_wf(2) by (simp add: wf_signature_def RSA_KEY_SIZE_IN_BYTES_def RSA_KEY_SIZE_IN_BITS_def)
  moreover have "create_new None (path_key ''doc.sig'') (cli_files cli_start) =
      Inr ((cli_files cli_start)(path_key ''doc.sig'' \<mapsto> []))"
    by (simp add: create_new_def cli_start_def)
  ultimately show ?thesis
    using doc_hashed doc_verified[of t]
    by (simp add: cli_hash_file_def sign_round_def idle_round_def plain_cli_def)
qed

section \<open>Properties\<close>



text \<open>
  C39. A signing attempt that fails spoils its output path: the file is created before the request,
  so that after an unreadable document, an empty account or a broken connection it is there
  and empty, and the next attempt with the same path is refused because the file exists.
\<close>

theorem failed_signing_blocks_output_path:
  assumes "in_file rd = Some f_raw" and "in_out rd = Some o_raw" and "in_create rd = None"
    and "cli_files st (path_key (clean_path o_raw)) = None"
    and "cli_hash_file env rd st = (msgs, st')" and "\<forall>h d t. SignedSuccessfully h d t \<notin> set msgs"
    and "in_file rd' = Some f_raw'" and "in_out rd' = Some o_raw" and "in_create rd' = None"
  shows "cli_files st' = (cli_files st)(path_key (clean_path o_raw) \<mapsto> []) \<and>
    cli_hash_file env rd' st' =
      ([ErrorCreatingOutput (clean_path o_raw) (IoError AlreadyExists ''File exists'')], st')"
proof -
  have "cli_files st' = (cli_files st)(path_key (clean_path o_raw) \<mapsto> [])"
    using assms(1-6)
    by (auto simp: cli_hash_file_def create_new_def Let_def split: sum.splits Response.splits)
  then show ?thesis using assms(7-9) by (simp add: cli_hash_file_def create_new_def)
qed

theorem failed_signing_blocks_output_path_witness:
  "\<exists>st'. cli_hash_file plain_cli (sign_round NotEnoughTokens) cli_start = ([NotEnoughTokensMsg], st') \<and>
     cli_hash_file plain_cli (sign_round NotEnoughTokens) st' =
       ([ErrorCreatingOutput ''doc.sig'' (IoError AlreadyExists ''File exists'')], st')"
proof -
  have x: "timestamp_hash plain_wincode (answer_with NotEnoughTokens) doc_hash = Inr NotEnoughTokens"
    unfolding timestamp_hash_def by (rule plain_exchange) (simp_all add: doc_wf)
  have c: "create_new None (path_key ''doc.sig'') (cli_files cli_start) =
      Inr ((cli_files cli_start)(path_key ''doc.sig'' \<mapsto> []))"
    by (simp add: create_new_def cli_start_def)
  obtain st' where r: "cli_hash_file plain_cli (sign_round NotEnoughTokens) cli_start = ([NotEnoughTokensMsg], st')"
    using doc_hashed x c by (simp add: cli_hash_file_def sign_round_def idle_round_def plain_cli_def)
  have "cli_files cli_start (path_key (clean_path ''doc.sig'')) = None" by (simp add: cli_start_def)
  from failed_signing_blocks_output_path[OF _ _ _ this r, of "''doc.txt''" "sign_round NotEnoughTokens" "''doc.txt''"] r
  show ?thesis by (simp add: sign_round_def idle_round_def)
qed

text \<open>
  C40. The time a token is announced with is right, the time the history shows is not. The former
  splits the nanoseconds of the timestamp into seconds and a remainder below one second. The
  latter takes the nanoseconds for seconds: for every timestamp from some two and a half
  hours after the epoch on, and up to the year 2262, the line reads \<^verbatim>\<open>Invalid Epoch\<close>
  and a number.
\<close>

theorem history_shows_nanoseconds_as_seconds:
  assumes "chrono_bounded ch" and "8 \<le> length (hex_encode hx (RsaSignature_as_bytes s))"
    and "2 ^ 43 \<le> unat n" and "unat n < 2 ^ 63"
  shows "(\<exists>sec nanos. unat sec * 10 ^ 9 + unat nanos = unat n \<and> unat nanos < 10 ^ 9 \<and>
      (\<forall>dt. dt_from_timestamp ch sec nanos = Some dt \<longrightarrow>
         timestamp_format ch (Timestamp n) = dt_format ch ''%Y-%m-%d %H:%M:%S.%f'' dt)) \<and>
    (\<exists>short. history_line hx ch \<lparr>hr_sign = s, hr_timestamp = Timestamp n\<rparr> =
      Returns [HistoryLine (''Invalid Epoch: '' @ show_nat (unat n)) short])"
proof -
  have d: "unat (n div 1000000000) = unat n div 1000000000" "unat (n mod 1000000000) = unat n mod 1000000000"
    by (simp_all add: unat_div unat_mod)
  have q: "unat n div 1000000000 < 2 ^ 64" using assms(4) by simp
  have sec: "unat (ucast (n div 1000000000) :: i64) = unat n div 1000000000"
    using q by (simp add: unat_ucast_fits d)
  have nanos: "unat (ucast (n mod 1000000000) :: u32) = unat n mod 1000000000"
    by (simp add: unat_ucast_fits d)
  have "unat n div 1000000000 * 10 ^ 9 + unat n mod 1000000000 = unat n" by simp
  moreover have "unat n mod 1000000000 < 10 ^ 9" by simp
  moreover have "timestamp_format ch (Timestamp n) = dt_format ch ''%Y-%m-%d %H:%M:%S.%f'' dt"
    if "dt_from_timestamp ch (ucast (n div 1000000000)) (ucast (n mod 1000000000)) = Some dt" for dt
    using that by (simp add: timestamp_format_def)
  ultimately have fmt: "\<exists>sec nanos. unat sec * 10 ^ 9 + unat nanos = unat n \<and> unat nanos < 10 ^ 9 \<and>
      (\<forall>dt. dt_from_timestamp ch sec nanos = Some dt \<longrightarrow>
         timestamp_format ch (Timestamp n) = dt_format ch ''%Y-%m-%d %H:%M:%S.%f'' dt)"
    using sec nanos by metis
  have u: "unat (ucast n :: i64) = unat n" using assms(4) by (simp add: unat_ucast_fits)
  then have i: "sint (ucast n :: i64) = int (unat n)" using assms(4) by (simp add: sint_eq_unat)
  have "(2 :: int) ^ 43 \<le> int (unat n)" using assms(3) by (metis of_nat_le_iff of_nat_numeral of_nat_power)
  then have "dt_from_timestamp ch (ucast n) 0 = None"
    using assms(1) unfolding chrono_bounded_def i[symmetric] by blast
  moreover have "show_int (sint (ucast n :: i64)) = show_nat (unat n)"
    unfolding i show_int_def by (simp only: nat_int of_nat_less_0_iff if_False)
  ultimately have "\<exists>short. history_line hx ch \<lparr>hr_sign = s, hr_timestamp = Timestamp n\<rparr> =
      Returns [HistoryLine (''Invalid Epoch: '' @ show_nat (unat n)) short]"
    using assms(2,4) by (simp add: history_line_def Let_def)
  with fmt show ?thesis by blast
qed

theorem history_shows_nanoseconds_as_seconds_witness:
  "\<exists>short. history_line plain_hex plain_chrono \<lparr>hr_sign = wide_signature doc_hash, hr_timestamp = Timestamp (2 ^ 60)\<rparr> =
     Returns [HistoryLine (''Invalid Epoch: '' @ show_nat (unat (2 ^ 60 :: u128))) short]"
proof -
  have "chrono_bounded plain_chrono" by (simp add: chrono_bounded_def plain_chrono_def)
  moreover have "8 \<le> length (hex_encode plain_hex (RsaSignature_as_bytes (wide_signature doc_hash)))"
    by (simp add: plain_hex_def wide_signature_def doc_hash_def)
  ultimately show ?thesis
    using history_shows_nanoseconds_as_seconds[of plain_chrono plain_hex "wide_signature doc_hash" "2 ^ 60"] by simp
qed

end
