(* ===== verification/Database.thy ===== *)
theory Database
  imports Protocol
begin

text \<open>
  The server's database, \<^verbatim>\<open>server/src/database.rs\<close>. The tables are lists of rows; every SQL
  text of the source is one definition with the meaning SQL gives it under the schema of
  \<^verbatim>\<open>initialize_db\<close> (primary keys, foreign key, \<^verbatim>\<open>CHECK\<close>). A statement, a \<^verbatim>\<open>BEGIN\<close> or a
  \<^verbatim>\<open>COMMIT\<close> may also fail in the engine or the pool: \<open>io i\<close> is the failure of the
  \<open>i\<close>-th awaited statement of a call, if there is one. A transaction that is dropped
  without a commit is rolled back, so a call that fails returns the database it was given.
  Argon2 is the parameter \<open>argon2\<close>.
\<close>

section \<open>Errors\<close>

datatype db_error_kind =
    UniqueViolation | ForeignKeyViolation | CheckViolation | OtherDbError string

datatype sqlx_error =
    Database db_error_kind
  | ColumnDecode string
  | OtherSqlxError string

datatype argon2_error = Argon2Error string

datatype InternalDataBaseError = Sql sqlx_error | Hash argon2_error

datatype AuthenticationError =
    UserNotFound string | InvalidPassword | InternalDataBase InternalDataBaseError

datatype RegistrationError =
    UserAlreadyExists string | InternalDataBase InternalDataBaseError

datatype GetTokensError =
    UserDoesNotExist | TokenIntegrityCheckViolated string i64
  | InternalDataBase InternalDataBaseError

datatype AddTokensError =
    UserDoesNotExist | TokenOverflow | InternalDataBase InternalDataBaseError

datatype SubtractTokensError =
    UserDoesNotExist | InsufficientTokens | InternalDataBase InternalDataBaseError

datatype UserHistoryError =
    UserDoesNotExist | TimestampIntegrityViolated string | HashIntegrityViolated string
  | InternalDataBase InternalDataBaseError

datatype AddRecordError = UserDoesNotExist | InternalDataBase InternalDataBaseError

text \<open>The \<^verbatim>\<open>From<sqlx::Error>\<close> conversions.\<close>

definition GetTokensError_from :: "sqlx_error \<Rightarrow> GetTokensError" where
  "GetTokensError_from err = GetTokensError.InternalDataBase (Sql err)"

definition AddTokensError_from :: "sqlx_error \<Rightarrow> AddTokensError" where
  "AddTokensError_from err = AddTokensError.InternalDataBase (Sql err)"

definition SubtractTokensError_from :: "sqlx_error \<Rightarrow> SubtractTokensError" where
  "SubtractTokensError_from err = SubtractTokensError.InternalDataBase (Sql err)"

definition UserHistoryError_from :: "sqlx_error \<Rightarrow> UserHistoryError" where
  "UserHistoryError_from err = UserHistoryError.InternalDataBase (Sql err)"

definition AddRecordError_from :: "sqlx_error \<Rightarrow> AddRecordError" where
  "AddRecordError_from err = AddRecordError.InternalDataBase (Sql err)"

section \<open>Tables and statements\<close>

record UserRow =
  u_username :: string
  u_password_hash :: string
  u_available_tokens :: i64
  u_registered_from_ip :: string

record HistoryRow =
  h_username :: string
  h_timestamp :: "byte list"
  h_hash :: "byte list"

record ServerDb =
  db_users :: "UserRow list"
  db_history :: "HistoryRow list"

type_synonym sql_io = "nat \<Rightarrow> sqlx_error option"

definition attempt :: "sql_io \<Rightarrow> nat \<Rightarrow> sqlx_error + 'a \<Rightarrow> sqlx_error + 'a" where
  "attempt io i r = (case io i of Some e \<Rightarrow> Inl e | None \<Rightarrow> r)"

definition no_fault :: sql_io where
  "no_fault = (\<lambda>_. None)"

definition find_user :: "ServerDb \<Rightarrow> string \<Rightarrow> UserRow option" where
  "find_user db username = find (\<lambda>r. u_username r = username) (db_users db)"

definition sql_insert_user :: "UserRow \<Rightarrow> ServerDb \<Rightarrow> sqlx_error + ServerDb" where
  "sql_insert_user row db =
     (if find_user db (u_username row) \<noteq> None then Inl (Database UniqueViolation)
      else if sint (u_available_tokens row) < 0 then Inl (Database CheckViolation)
      else Inr (db\<lparr>db_users := db_users db @ [row]\<rparr>))"

text \<open>
  \<^verbatim>\<open>UPDATE users SET available_tokens = available_tokens + $1 WHERE username = $2\<close>; the
  statement with \<^verbatim>\<open>-\<close> passes the negated amount. The addition wraps here; the callers
  run it only after a checked addition of the same numbers in the same transaction.
\<close>

definition sql_update_tokens :: "i64 \<Rightarrow> string \<Rightarrow> ServerDb \<Rightarrow> sqlx_error + ServerDb" where
  "sql_update_tokens delta username db =
     (let rows = map (\<lambda>r. if u_username r = username
                          then r\<lparr>u_available_tokens := u_available_tokens r + delta\<rparr> else r)
                     (db_users db)
      in if list_ex (\<lambda>r. u_username r = username \<and> sint (u_available_tokens r) < 0) rows
         then Inl (Database CheckViolation)
         else Inr (db\<lparr>db_users := rows\<rparr>))"

definition sql_insert_history :: "HistoryRow \<Rightarrow> ServerDb \<Rightarrow> sqlx_error + ServerDb" where
  "sql_insert_history row db =
     (if list_ex (\<lambda>h. h_username h = h_username row \<and> h_timestamp h = h_timestamp row)
           (db_history db)
      then Inl (Database UniqueViolation)
      else if find_user db (h_username row) = None then Inl (Database ForeignKeyViolation)
      else Inr (db\<lparr>db_history := db_history db @ [row]\<rparr>))"

text \<open>
  \<^verbatim>\<open>ORDER BY timestamp DESC LIMIT 100\<close>: SQLite compares blobs with \<^verbatim>\<open>memcmp\<close>, the
  lexicographic order on byte lists.
\<close>

definition sql_select_history :: "string \<Rightarrow> ServerDb \<Rightarrow> HistoryRow list" where
  "sql_select_history username db =
     take 100 (rev (sort_key h_timestamp (filter (\<lambda>h. h_username h = username) (db_history db))))"

section \<open>Operations of ServerDataBase\<close>

record 'ph argon2 =
  argon2_hash_password :: "string \<Rightarrow> string \<Rightarrow> argon2_error + string"
  argon2_parse_hash :: "string \<Rightarrow> argon2_error + 'ph"
  argon2_verify_password :: "string \<Rightarrow> 'ph \<Rightarrow> argon2_error + unit"

definition timestamp_as_sql_database_format :: "Timestamp \<Rightarrow> byte list" where
  "timestamp_as_sql_database_format ts = Timestamp_as_be_bytes ts"

definition verify_user_password ::
    "'ph argon2 \<Rightarrow> sql_io \<Rightarrow> ServerDb \<Rightarrow> string \<Rightarrow> string \<Rightarrow> AuthenticationError + unit" where
  "verify_user_password ar io db username plain_password =
     (case attempt io 0 (Inr (map_option u_password_hash (find_user db username))) of
        Inl e \<Rightarrow> Inl (AuthenticationError.InternalDataBase (Sql e))
      | Inr None \<Rightarrow> Inl (UserNotFound username)
      | Inr (Some stored_hash) \<Rightarrow>
          (case argon2_parse_hash ar stored_hash of
             Inl e \<Rightarrow> Inl (AuthenticationError.InternalDataBase (Hash e))
           | Inr parsed_hash \<Rightarrow>
               (case argon2_verify_password ar plain_password parsed_hash of
                  Inr _ \<Rightarrow> Inr ()
                | Inl _ \<Rightarrow> Inl InvalidPassword)))"

definition try_register_user ::
    "'ph argon2 \<Rightarrow> sql_io \<Rightarrow> string \<Rightarrow> ServerDb \<Rightarrow> string \<Rightarrow> string \<Rightarrow> string
     \<Rightarrow> (RegistrationError + unit) \<times> ServerDb" where
  "try_register_user ar io salt db username plain_password ip =
     (case argon2_hash_password ar plain_password salt of
        Inl e \<Rightarrow> (Inl (RegistrationError.InternalDataBase (Hash e)), db)
      | Inr password_hash \<Rightarrow>
          (case attempt io 0 (sql_insert_user
                  \<lparr>u_username = username, u_password_hash = password_hash,
                   u_available_tokens = 0, u_registered_from_ip = ip\<rparr> db) of
             Inr db' \<Rightarrow> (Inr (), db')
           | Inl (Database UniqueViolation) \<Rightarrow> (Inl (UserAlreadyExists username), db)
           | Inl e \<Rightarrow> (Inl (RegistrationError.InternalDataBase (Sql e)), db)))"

definition get_user_tokens :: "sql_io \<Rightarrow> ServerDb \<Rightarrow> string \<Rightarrow> GetTokensError + u64" where
  "get_user_tokens io db username =
     (case attempt io 0 (Inr (map_option u_available_tokens (find_user db username))) of
        Inl e \<Rightarrow> Inl (GetTokensError_from e)
      | Inr (Some tokens) \<Rightarrow>
          (if sint tokens < 0 then Inl (TokenIntegrityCheckViolated username tokens)
           else Inr tokens)
      | Inr None \<Rightarrow> Inl GetTokensError.UserDoesNotExist)"

definition add_user_tokens ::
    "sql_io \<Rightarrow> ServerDb \<Rightarrow> string \<Rightarrow> u64 \<Rightarrow> (AddTokensError + u64) \<times> ServerDb" where
  "add_user_tokens io db username amount_u64 =
     (case try_into_signed amount_u64 of
        None \<Rightarrow> (Inl TokenOverflow, db)
      | Some amount \<Rightarrow>
     (case attempt io 0 (Inr db) of
        Inl e \<Rightarrow> (Inl (AddTokensError_from e), db)
      | Inr tx \<Rightarrow>
     (case attempt io 1 (Inr (map_option u_available_tokens (find_user tx username))) of
        Inl e \<Rightarrow> (Inl (AddTokensError_from e), db)
      | Inr None \<Rightarrow> (Inl AddTokensError.UserDoesNotExist, db)
      | Inr (Some tokens) \<Rightarrow>
     (case checked_add_s tokens amount of
        None \<Rightarrow> (Inl TokenOverflow, db)
      | Some resulting_tokens \<Rightarrow>
     (case attempt io 2 (sql_update_tokens amount username tx) of
        Inl e \<Rightarrow> (Inl (AddTokensError_from e), db)
      | Inr tx' \<Rightarrow>
     (case attempt io 3 (Inr tx') of
        Inl e \<Rightarrow> (Inl (AddTokensError_from e), db)
      | Inr db' \<Rightarrow> (Inr resulting_tokens, db')))))))"

definition subtract_user_tokens ::
    "sql_io \<Rightarrow> ServerDb \<Rightarrow> string \<Rightarrow> u64 \<Rightarrow> (SubtractTokensError + u64) \<times> ServerDb" where
  "subtract_user_tokens io db username amount_u64 =
     (case try_into_signed amount_u64 of
        None \<Rightarrow> (Inl InsufficientTokens, db)
      | Some amount \<Rightarrow>
     (case attempt io 0 (Inr db) of
        Inl e \<Rightarrow> (Inl (SubtractTokensError_from e), db)
      | Inr tx \<Rightarrow>
     (case attempt io 1 (Inr (map_option u_available_tokens (find_user tx username))) of
        Inl e \<Rightarrow> (Inl (SubtractTokensError_from e), db)
      | Inr None \<Rightarrow> (Inl SubtractTokensError.UserDoesNotExist, db)
      | Inr (Some tokens) \<Rightarrow>
     (case checked_sub_s tokens amount of
        None \<Rightarrow> (Inl InsufficientTokens, db)
      | Some resulting_tokens \<Rightarrow>
     (if sint resulting_tokens < 0 then (Inl InsufficientTokens, db)
      else
     (case attempt io 2 (sql_update_tokens (- amount) username tx) of
        Inl e \<Rightarrow> (Inl (SubtractTokensError_from e), db)
      | Inr tx' \<Rightarrow>
     (case attempt io 3 (Inr tx') of
        Inl e \<Rightarrow> (Inl (SubtractTokensError_from e), db)
      | Inr db' \<Rightarrow> (Inr resulting_tokens, db'))))))))"

definition add_user_record ::
    "sql_io \<Rightarrow> ServerDb \<Rightarrow> string \<Rightarrow> Timestamp \<Rightarrow> RsaSignature
     \<Rightarrow> (AddRecordError + unit) \<times> ServerDb" where
  "add_user_record io db username timestamp sign =
     (case attempt io 0 (Inr db) of
        Inl e \<Rightarrow> (Inl (AddRecordError_from e), db)
      | Inr tx \<Rightarrow>
     (case attempt io 1 (Inr (find_user tx username)) of
        Inl e \<Rightarrow> (Inl (AddRecordError_from e), db)
      | Inr None \<Rightarrow> (Inl AddRecordError.UserDoesNotExist, db)
      | Inr (Some _) \<Rightarrow>
     (let ts_bytes = timestamp_as_sql_database_format timestamp;
          sign_bytes = RsaSignature_as_bytes sign
      in case attempt io 2 (sql_insert_history
                \<lparr>h_username = username, h_timestamp = ts_bytes, h_hash = sign_bytes\<rparr> tx) of
           Inl e \<Rightarrow> (Inl (AddRecordError_from e), db)
         | Inr tx' \<Rightarrow>
     (case attempt io 3 (Inr tx') of
        Inl e \<Rightarrow> (Inl (AddRecordError_from e), db)
      | Inr db' \<Rightarrow> (Inr (), db')))))"

text \<open>The loop of \<^verbatim>\<open>get_user_history\<close> over the row stream; \<open>i\<close> is the next await.\<close>

fun collect_records ::
    "hex_crate \<Rightarrow> sql_io \<Rightarrow> nat \<Rightarrow> HistoryRow list \<Rightarrow> HistoryRecord list
     \<Rightarrow> UserHistoryError + HistoryRecord list" where
  "collect_records hx io i [] records =
     (case attempt io i (Inr ()) of
        Inl e \<Rightarrow> Inl (UserHistoryError_from e)
      | Inr _ \<Rightarrow> Inr records)"
| "collect_records hx io i (row # rows) records =
     (case attempt io i (Inr ()) of
        Inl e \<Rightarrow> Inl (UserHistoryError_from e)
      | Inr _ \<Rightarrow>
     (let raw_ts_bytes = h_timestamp row
      in if length raw_ts_bytes \<noteq> 16
         then Inl (TimestampIntegrityViolated (hex_encode hx raw_ts_bytes))
         else
     (let ts = Timestamp_from_be raw_ts_bytes;
          hash_slice = h_hash row
      in case RsaSignature_try_from hash_slice of
           Inl _ \<Rightarrow> Inl (HashIntegrityViolated (hex_encode hx hash_slice))
         | Inr hash_bytes \<Rightarrow>
             collect_records hx io (Suc i) rows (records @ [HistoryRecord_new hash_bytes ts]))))"

definition get_user_history ::
    "hex_crate \<Rightarrow> sql_io \<Rightarrow> ServerDb \<Rightarrow> string \<Rightarrow> UserHistoryError + HistoryRecord list" where
  "get_user_history hx io db username =
     (case attempt io 0 (Inr db) of
        Inl e \<Rightarrow> Inl (UserHistoryError_from e)
      | Inr tx \<Rightarrow>
     (case attempt io 1 (Inr (find_user tx username)) of
        Inl e \<Rightarrow> Inl (UserHistoryError_from e)
      | Inr None \<Rightarrow> Inl UserHistoryError.UserDoesNotExist
      | Inr (Some _) \<Rightarrow> collect_records hx io 2 (sql_select_history username tx) []))"

section \<open>Specification\<close>

text \<open>
  The invariant of the tables (what the schema and the operations keep), what a client
  observes of them, and the account book the token operations implement.
\<close>

definition db_inv :: "ServerDb \<Rightarrow> bool" where
  "db_inv db \<longleftrightarrow>
     distinct (map u_username (db_users db)) \<and>
     (\<forall>r \<in> set (db_users db). 0 \<le> sint (u_available_tokens r)) \<and>
     distinct (map (\<lambda>h. (h_username h, h_timestamp h)) (db_history db)) \<and>
     (\<forall>h \<in> set (db_history db).
        find_user db (h_username h) \<noteq> None \<and> length (h_timestamp h) = 16 \<and>
        length (h_hash h) = RSA_KEY_SIZE_IN_BYTES)"

definition balance :: "ServerDb \<Rightarrow> string \<rightharpoonup> nat" where
  "balance db username = map_option (\<lambda>r. unat (u_available_tokens r)) (find_user db username)"

definition credentials :: "ServerDb \<Rightarrow> string \<rightharpoonup> string" where
  "credentials db username = map_option u_password_hash (find_user db username)"

definition set_tokens :: "string \<Rightarrow> i64 \<Rightarrow> ServerDb \<Rightarrow> ServerDb" where
  "set_tokens u t db = db\<lparr>db_users := map (\<lambda>r. if u_username r = u then r\<lparr>u_available_tokens := t\<rparr> else r)
     (db_users db)\<rparr>"

text \<open>
  The abstract account book: a balance below \<open>2 ^ 63\<close> for each registered user. An amount is
  refused before the user is looked up when it does not fit in an \<^verbatim>\<open>i64\<close>.
\<close>

type_synonym ledger = "string \<rightharpoonup> nat"

definition ledger_add :: "ledger \<Rightarrow> string \<Rightarrow> nat \<Rightarrow> (AddTokensError + nat) \<times> ledger" where
  "ledger_add L u n =
     (if 2 ^ 63 \<le> n then (Inl TokenOverflow, L)
      else case L u of
        None \<Rightarrow> (Inl AddTokensError.UserDoesNotExist, L)
      | Some b \<Rightarrow> (if b + n < 2 ^ 63 then (Inr (b + n), L(u \<mapsto> b + n)) else (Inl TokenOverflow, L)))"

definition ledger_subtract :: "ledger \<Rightarrow> string \<Rightarrow> nat \<Rightarrow> (SubtractTokensError + nat) \<times> ledger" where
  "ledger_subtract L u n =
     (if 2 ^ 63 \<le> n then (Inl InsufficientTokens, L)
      else case L u of
        None \<Rightarrow> (Inl SubtractTokensError.UserDoesNotExist, L)
      | Some b \<Rightarrow> (if n \<le> b then (Inr (b - n), L(u \<mapsto> b - n)) else (Inl InsufficientTokens, L)))"

definition empty_db :: ServerDb where
  "empty_db = \<lparr>db_users = [], db_history = []\<rparr>"

definition argon2_correct :: "'ph argon2 \<Rightarrow> bool" where
  "argon2_correct ar \<longleftrightarrow>
     (\<forall>pw salt h. argon2_hash_password ar pw salt = Inr h \<longrightarrow>
        (\<exists>p. argon2_parse_hash ar h = Inr p \<and> argon2_verify_password ar pw p = Inr ()))"

inductive db_step :: "'ph argon2 \<Rightarrow> ServerDb \<Rightarrow> ServerDb \<Rightarrow> bool" for ar where
  register: "db_step ar db (snd (try_register_user ar io salt db username pw ip))"
| credit: "db_step ar db (snd (add_user_tokens io db username n))"
| charge: "db_step ar db (snd (subtract_user_tokens io db username n))"
| log: "wf_signature sign \<Longrightarrow> db_step ar db (snd (add_user_record io db username ts sign))"

definition record_of_row :: "HistoryRow \<Rightarrow> HistoryRecord" where
  "record_of_row h = HistoryRecord_new (RsaSignature (h_hash h)) (Timestamp_from_be (h_timestamp h))"

definition user_records :: "ServerDb \<Rightarrow> string \<Rightarrow> HistoryRecord set" where
  "user_records db u = record_of_row ` {h \<in> set (db_history db). h_username h = u}"

definition newest_first :: "HistoryRecord list \<Rightarrow> bool" where
  "newest_first rs \<longleftrightarrow>
     sorted_wrt (\<lambda>a b. Timestamp_get (hr_timestamp b) < Timestamp_get (hr_timestamp a)) rs"

definition newest_rows :: "string \<Rightarrow> ServerDb \<Rightarrow> HistoryRow list" where
  "newest_rows u db = rev (sort_key h_timestamp (filter (\<lambda>h. h_username h = u) (db_history db)))"

section \<open>Example instances\<close>

text \<open>Concrete parameters and databases on which the witnesses run.\<close>

definition plain_argon2 :: "string argon2" where
  "plain_argon2 = \<lparr>
     argon2_hash_password = (\<lambda>pw salt. Inr (CHR ''$'' # pw)),
     argon2_parse_hash = (\<lambda>h. case h of [] \<Rightarrow> Inl (Argon2Error ''empty'') | _ # p \<Rightarrow> Inr p),
     argon2_verify_password = (\<lambda>pw p. if pw = p then Inr () else Inl (Argon2Error ''mismatch''))\<rparr>"

definition alice_db :: "i64 \<Rightarrow> ServerDb" where
  "alice_db n = \<lparr>db_users = [\<lparr>u_username = ''alice'', u_password_hash = ''$pw'',
     u_available_tokens = n, u_registered_from_ip = ''127.0.0.1''\<rparr>], db_history = []\<rparr>"

definition alice_signature :: RsaSignature where
  "alice_signature = plain_signature (Sha256Hash (replicate 32 5)) (Timestamp 9)"

definition alice_signed_db :: ServerDb where
  "alice_signed_db = (alice_db 0)\<lparr>db_history := [\<lparr>h_username = ''alice'',
     h_timestamp = Timestamp_as_be_bytes (Timestamp 9), h_hash = RsaSignature_as_bytes alice_signature\<rparr>]\<rparr>"

section \<open>Statements on the tables\<close>

lemma attempt_no_fault [simp]: "attempt no_fault i r = r"
  by (simp add: attempt_def no_fault_def)

lemma attempt_Inr_iff [simp]: "attempt io i r = Inr x \<longleftrightarrow> io i = None \<and> r = Inr x"
  by (auto simp: attempt_def split: option.splits)

lemma find_user_Some:
  "find_user db u = Some r \<Longrightarrow> r \<in> set (db_users db) \<and> u_username r = u"
  by (auto simp: find_user_def find_Some_iff in_set_conv_nth)

lemma find_user_None_iff: "find_user db u = None \<longleftrightarrow> u \<notin> u_username ` set (db_users db)"
  by (auto simp: find_user_def find_None_iff)

lemma find_user_unique:
  assumes "distinct (map u_username (db_users db))" and "r \<in> set (db_users db)"
  shows "find_user db (u_username r) = Some r"
proof (cases "find_user db (u_username r)")
  case None
  with assms(2) show ?thesis by (auto simp: find_user_None_iff)
next
  case (Some s)
  with find_user_Some[OF Some] assms show ?thesis
    by (metis distinct_map inj_onD)
qed

lemma find_user_map:
  assumes "\<And>r. u_username (f r) = u_username r"
  shows "find_user (db\<lparr>db_users := map f (db_users db)\<rparr>) u = map_option f (find_user db u)"
proof -
  have "find (\<lambda>r. u_username r = u) (map f rs) = map_option f (find (\<lambda>r. u_username r = u) rs)" for rs
    by (induction rs) (auto simp: assms)
  then show ?thesis by (simp add: find_user_def)
qed

lemma find_user_history [simp]: "find_user (db\<lparr>db_history := hs\<rparr>) u = find_user db u"
  by (simp add: find_user_def)

lemma find_user_append:
  "find_user (db\<lparr>db_users := db_users db @ [row]\<rparr>) u =
     (case find_user db u of Some r \<Rightarrow> Some r
      | None \<Rightarrow> if u_username row = u then Some row else None)"
proof -
  have "find P (rs @ [row]) = (case find P rs of Some r \<Rightarrow> Some r | None \<Rightarrow> if P row then Some row else None)" for P rs
    by (induction rs) auto
  then show ?thesis by (simp add: find_user_def)
qed

lemma db_inv_find_user: "db_inv db \<Longrightarrow> find_user db u = Some r \<Longrightarrow> 0 \<le> sint (u_available_tokens r)"
  by (auto simp: db_inv_def dest: find_user_Some)

lemma sql_update_tokens_eq:
  assumes "db_inv db" and "find_user db u = Some r"
  shows "sql_update_tokens d u db =
    (if sint (u_available_tokens r + d) < 0 then Inl (Database CheckViolation)
     else Inr (set_tokens u (u_available_tokens r + d) db))"
proof -
  let ?upd = "\<lambda>s. if u_username s = u then s\<lparr>u_available_tokens := u_available_tokens s + d\<rparr> else s"
  let ?set = "\<lambda>s. if u_username s = u then s\<lparr>u_available_tokens := u_available_tokens r + d\<rparr> else s"
  have tok: "u_available_tokens s = u_available_tokens r"
    if "s \<in> set (db_users db)" "u_username s = u" for s
    using find_user_unique[of db s] that assms by (simp add: db_inv_def)
  have r: "r \<in> set (db_users db)" "u_username r = u"
    using find_user_Some[OF assms(2)] by auto
  have m: "map ?upd (db_users db) = map ?set (db_users db)"
  proof (rule map_cong[OF refl])
    fix s assume "s \<in> set (db_users db)"
    then show "?upd s = ?set s" using tok[of s] by (cases "u_username s = u") simp_all
  qed
  have "list_ex (\<lambda>s. u_username s = u \<and> sint (u_available_tokens s) < 0) (map ?set us)
      \<longleftrightarrow> (\<exists>s \<in> set us. u_username s = u) \<and> sint (u_available_tokens r + d) < 0" for us
    by (induction us) auto
  with r have ex: "list_ex (\<lambda>s. u_username s = u \<and> sint (u_available_tokens s) < 0)
      (map ?set (db_users db)) \<longleftrightarrow> sint (u_available_tokens r + d) < 0"
    by blast
  show ?thesis
    unfolding sql_update_tokens_def Let_def m ex set_tokens_def by (rule refl)
qed

lemma find_user_set_tokens:
  "find_user (set_tokens u t db) v =
     map_option (\<lambda>r. if v = u then r\<lparr>u_available_tokens := t\<rparr> else r) (find_user db v)"
proof -
  have "find_user (set_tokens u t db) v = map_option (\<lambda>r. if u_username r = u then r\<lparr>u_available_tokens := t\<rparr> else r) (find_user db v)"
    unfolding set_tokens_def by (rule find_user_map) simp
  also have "\<dots> = map_option (\<lambda>r. if v = u then r\<lparr>u_available_tokens := t\<rparr> else r) (find_user db v)"
    by (cases "find_user db v") (auto dest: find_user_Some)
  finally show ?thesis .
qed

lemma set_tokens_history [simp]: "db_history (set_tokens u t db) = db_history db"
  by (simp add: set_tokens_def)

lemma credentials_set_tokens [simp]: "credentials (set_tokens u t db) = credentials db"
proof
  fix v show "credentials (set_tokens u t db) v = credentials db v"
    by (cases "find_user db v") (simp_all add: credentials_def find_user_set_tokens)
qed

lemma balance_set_tokens:
  "find_user db u \<noteq> None \<Longrightarrow> balance (set_tokens u t db) = (balance db)(u \<mapsto> unat t)"
  by (rule ext) (auto simp: balance_def find_user_set_tokens option.map_comp comp_def)

lemma db_inv_set_tokens:
  assumes "db_inv db" and "0 \<le> sint t"
  shows "db_inv (set_tokens u t db)"
proof -
  have "map u_username (db_users (set_tokens u t db)) = map u_username (db_users db)"
    unfolding set_tokens_def by simp
  moreover have "\<forall>r \<in> set (db_users (set_tokens u t db)). 0 \<le> sint (u_available_tokens r)"
    using assms by (auto simp: set_tokens_def db_inv_def)
  ultimately show ?thesis
    using assms(1) by (simp add: db_inv_def find_user_set_tokens)
qed

section \<open>Token accounts\<close>

lemma db_inv_unat: "db_inv db \<Longrightarrow> find_user db u = Some r \<Longrightarrow> unat (u_available_tokens r) < 2 ^ 63"
  using db_inv_find_user[of db u r] sint_nonneg_iff[of "u_available_tokens r"] by simp

lemma add_user_tokens_eq:
  assumes "db_inv db"
  shows "add_user_tokens no_fault db u n =
    (if 2 ^ 63 \<le> unat n then (Inl TokenOverflow, db)
     else case find_user db u of
       None \<Rightarrow> (Inl AddTokensError.UserDoesNotExist, db)
     | Some r \<Rightarrow>
         (if unat (u_available_tokens r) + unat n < 2 ^ 63
          then (Inr (u_available_tokens r + n), set_tokens u (u_available_tokens r + n) db)
          else (Inl TokenOverflow, db)))"
proof (cases "find_user db u")
  case (Some r)
  let ?t = "u_available_tokens r"
  have t: "unat ?t < 2 ^ 63" using assms Some by (rule db_inv_unat)
  show ?thesis
  proof (cases "unat n < 2 ^ 63")
    case True
    have sum: "checked_add_s ?t n = (if unat ?t + unat n < 2 ^ 63 then Some (?t + n) else None)"
      "unat (?t + n) = unat ?t + unat n"
      using checked_add_s_nonneg[of ?t n] t True by simp_all
    have "\<not> sint (?t + n) < 0" if "unat ?t + unat n < 2 ^ 63"
      using that sum(2) sint_nonneg_iff[of "?t + n"] by simp
    with sum(1) True show ?thesis
      by (simp add: add_user_tokens_def try_into_signed_def Some sql_update_tokens_eq[OF assms Some])
  qed (simp add: add_user_tokens_def try_into_signed_def)
qed (simp add: add_user_tokens_def try_into_signed_def not_le)

lemma subtract_user_tokens_eq:
  assumes "db_inv db"
  shows "subtract_user_tokens no_fault db u n =
    (if 2 ^ 63 \<le> unat n then (Inl InsufficientTokens, db)
     else case find_user db u of
       None \<Rightarrow> (Inl SubtractTokensError.UserDoesNotExist, db)
     | Some r \<Rightarrow>
         (if unat n \<le> unat (u_available_tokens r)
          then (Inr (u_available_tokens r - n), set_tokens u (u_available_tokens r - n) db)
          else (Inl InsufficientTokens, db)))"
proof (cases "find_user db u")
  case (Some r)
  let ?t = "u_available_tokens r"
  have t: "unat ?t < 2 ^ 63" using assms Some by (rule db_inv_unat)
  show ?thesis
  proof (cases "unat n < 2 ^ 63")
    case True
    have diff: "checked_sub_s ?t n = Some (?t - n)" "sint (?t - n) < 0 \<longleftrightarrow> unat ?t < unat n"
      using checked_sub_s_nonneg[of ?t n] t True by simp_all
    from diff(1,2) True show ?thesis
      by (simp add: subtract_user_tokens_def try_into_signed_def Some
          sql_update_tokens_eq[OF assms Some, of "- n", simplified])
  qed (simp add: subtract_user_tokens_def try_into_signed_def)
qed (simp add: subtract_user_tokens_def try_into_signed_def not_le)

lemma add_user_tokens_refines:
  assumes "db_inv db"
  shows "map_prod (map_sum id unat) balance (add_user_tokens no_fault db u n) =
    ledger_add (balance db) u (unat n)"
proof (cases "find_user db u")
  case (Some r)
  have t: "unat (u_available_tokens r) < 2 ^ 63" using assms Some by (rule db_inv_unat)
  show ?thesis
    using Some t checked_add_s_nonneg(2)[of "u_available_tokens r" n]
    by (simp add: add_user_tokens_eq[OF assms] ledger_add_def balance_set_tokens not_le)
      (simp add: balance_def)
qed (simp add: add_user_tokens_eq[OF assms] ledger_add_def balance_def)

lemma subtract_user_tokens_refines:
  assumes "db_inv db"
  shows "map_prod (map_sum id unat) balance (subtract_user_tokens no_fault db u n) =
    ledger_subtract (balance db) u (unat n)"
proof (cases "find_user db u")
  case (Some r)
  have t: "unat (u_available_tokens r) < 2 ^ 63" using assms Some by (rule db_inv_unat)
  show ?thesis
    using Some t checked_sub_s_nonneg(3)[of "u_available_tokens r" n]
    by (simp add: subtract_user_tokens_eq[OF assms] ledger_subtract_def balance_set_tokens not_le)
      (simp add: balance_def)
qed (simp add: subtract_user_tokens_eq[OF assms] ledger_subtract_def balance_def)

section \<open>Faults\<close>

lemma attempt_cases: "attempt io i r = r \<or> (\<exists>e. attempt io i r = Inl e)"
  by (auto simp: attempt_def split: option.splits)

lemma add_user_tokens_fault:
  "add_user_tokens io db u n = add_user_tokens no_fault db u n \<or>
   (\<exists>e. add_user_tokens io db u n = (Inl (AddTokensError_from e), db))"
  by (auto simp: add_user_tokens_def attempt_def no_fault_def split: option.splits sum.splits)

lemma subtract_user_tokens_fault:
  "subtract_user_tokens io db u n = subtract_user_tokens no_fault db u n \<or>
   (\<exists>e. subtract_user_tokens io db u n = (Inl (SubtractTokensError_from e), db))"
  by (auto simp: subtract_user_tokens_def attempt_def no_fault_def split: option.splits sum.splits)

lemma add_user_tokens_ok:
  assumes "db_inv db" and "add_user_tokens io db u n = (Inr k, db')"
  obtains r where "find_user db u = Some r" "k = u_available_tokens r + n"
    "unat (u_available_tokens r) + unat n < 2 ^ 63" "db' = set_tokens u k db"
  using add_user_tokens_fault[of io db u n] assms that
  by (auto simp: add_user_tokens_eq split: if_splits option.splits)

lemma subtract_user_tokens_ok:
  assumes "db_inv db" and "subtract_user_tokens io db u n = (Inr k, db')"
  obtains r where "find_user db u = Some r" "k = u_available_tokens r - n"
    "unat n \<le> unat (u_available_tokens r)" "db' = set_tokens u k db"
  using subtract_user_tokens_fault[of io db u n] assms that
  by (auto simp: subtract_user_tokens_eq split: if_splits option.splits)

lemma add_user_tokens_Inl: "add_user_tokens io db u n = (Inl e, db') \<Longrightarrow> db' = db"
  by (auto simp: add_user_tokens_def split: option.splits sum.splits if_splits)

lemma subtract_user_tokens_Inl: "subtract_user_tokens io db u n = (Inl e, db') \<Longrightarrow> db' = db"
  by (auto simp: subtract_user_tokens_def split: option.splits sum.splits if_splits)

lemma add_user_record_Inl: "add_user_record io db u t s = (Inl e, db') \<Longrightarrow> db' = db"
  by (auto simp: add_user_record_def Let_def split: option.splits sum.splits if_splits)

lemma try_register_user_Inl: "try_register_user ar io salt db u pw ip = (Inl e, db') \<Longrightarrow> db' = db"
  by (auto simp: try_register_user_def split: option.splits sum.splits sqlx_error.splits db_error_kind.splits)

lemma try_register_user_ok_iff:
  "try_register_user ar io salt db u pw ip = (Inr x, db') \<longleftrightarrow>
     (\<exists>h. argon2_hash_password ar pw salt = Inr h \<and> io 0 = None \<and> find_user db u = None \<and>
        db' = db\<lparr>db_users := db_users db @
          [\<lparr>u_username = u, u_password_hash = h, u_available_tokens = 0, u_registered_from_ip = ip\<rparr>]\<rparr>)"
  by (auto simp: try_register_user_def attempt_def sql_insert_user_def
      split: option.splits sum.splits sqlx_error.splits db_error_kind.splits if_splits)

lemma add_user_record_ok_iff:
  "add_user_record io db u t s = (Inr x, db') \<longleftrightarrow>
     io 0 = None \<and> io 1 = None \<and> io 2 = None \<and> io 3 = None \<and> find_user db u \<noteq> None \<and>
     \<not> list_ex (\<lambda>h. h_username h = u \<and> h_timestamp h = Timestamp_as_be_bytes t) (db_history db) \<and>
     db' = db\<lparr>db_history := db_history db @
        [\<lparr>h_username = u, h_timestamp = Timestamp_as_be_bytes t, h_hash = RsaSignature_as_bytes s\<rparr>]\<rparr>"
  by (auto simp: add_user_record_def attempt_def Let_def timestamp_as_sql_database_format_def
      sql_insert_history_def split: option.splits sum.splits if_splits)

section \<open>The invariant\<close>

lemma db_inv_add_user_tokens:
  assumes "db_inv db" shows "db_inv (snd (add_user_tokens io db u n))"
proof (cases "fst (add_user_tokens io db u n)")
  case (Inl e)
  then show ?thesis
    using add_user_tokens_Inl[of io db u n e] assms by (cases "add_user_tokens io db u n") auto
next
  case (Inr k)
  then obtain db' where k: "add_user_tokens io db u n = (Inr k, db')"
    by (cases "add_user_tokens io db u n") auto
  from assms this obtain r where r: "find_user db u = Some r" "k = u_available_tokens r + n"
    "unat (u_available_tokens r) + unat n < 2 ^ 63" "db' = set_tokens u k db"
    by (rule add_user_tokens_ok)
  then have "0 \<le> sint k"
    using checked_add_s_nonneg(2)[of "u_available_tokens r" n] by (simp add: sint_nonneg_iff)
  with k r(4) assms show ?thesis by (simp add: db_inv_set_tokens)
qed

lemma db_inv_subtract_user_tokens:
  assumes "db_inv db" shows "db_inv (snd (subtract_user_tokens io db u n))"
proof (cases "fst (subtract_user_tokens io db u n)")
  case (Inl e)
  then show ?thesis
    using subtract_user_tokens_Inl[of io db u n e] assms
    by (cases "subtract_user_tokens io db u n") auto
next
  case (Inr k)
  then obtain db' where k: "subtract_user_tokens io db u n = (Inr k, db')"
    by (cases "subtract_user_tokens io db u n") auto
  from assms this obtain r where r: "find_user db u = Some r" "k = u_available_tokens r - n"
    "unat n \<le> unat (u_available_tokens r)" "db' = set_tokens u k db"
    by (rule subtract_user_tokens_ok)
  then have "0 \<le> sint k"
    using db_inv_unat[OF assms r(1)] by (simp add: sint_nonneg_iff unat_sub word_le_nat_alt)
  with k r(4) assms show ?thesis by (simp add: db_inv_set_tokens)
qed

lemma db_inv_append_user:
  assumes "db_inv db" and "find_user db (u_username row) = None" and "0 \<le> sint (u_available_tokens row)"
  shows "db_inv (db\<lparr>db_users := db_users db @ [row]\<rparr>)"
  using assms by (auto simp: db_inv_def find_user_append find_user_None_iff split: option.splits)

lemma db_inv_try_register_user:
  assumes "db_inv db" shows "db_inv (snd (try_register_user ar io salt db u pw ip))"
proof (cases "try_register_user ar io salt db u pw ip")
  case (Pair res db')
  have "db_inv db'"
  proof (cases res)
    case (Inl e)
    with Pair assms show ?thesis by (auto dest: try_register_user_Inl)
  next
    case (Inr x)
    with Pair assms show ?thesis by (auto simp: try_register_user_ok_iff db_inv_append_user)
  qed
  with Pair show ?thesis by simp
qed

lemma db_inv_add_user_record:
  assumes "db_inv db" and "wf_signature s"
  shows "db_inv (snd (add_user_record io db u t s))"
proof (cases "add_user_record io db u t s")
  case (Pair res db')
  show ?thesis
  proof (cases res)
    case (Inl e)
    with Pair assms(1) show ?thesis by (auto dest: add_user_record_Inl)
  next
    case (Inr x)
    with Pair have "find_user db u \<noteq> None"
      and "\<not> list_ex (\<lambda>h. h_username h = u \<and> h_timestamp h = Timestamp_as_be_bytes t) (db_history db)"
      and "db' = db\<lparr>db_history := db_history db @
        [\<lparr>h_username = u, h_timestamp = Timestamp_as_be_bytes t, h_hash = RsaSignature_as_bytes s\<rparr>]\<rparr>"
      by (simp_all add: add_user_record_ok_iff)
    with Pair assms show ?thesis
      using ts_codec.enc_width[of t]
      by (auto simp: db_inv_def list_ex_iff wf_signature_def)
  qed
qed

interpretation db_sys: invariant_system "\<lambda>db. db = empty_db" "db_step ar" db_inv for ar
proof unfold_locales
  fix db db'
  assume "db_step ar db db'" and "db_inv db"
  then show "db_inv db'"
    by (cases rule: db_step.cases)
      (auto intro: db_inv_try_register_user db_inv_add_user_tokens
        db_inv_subtract_user_tokens db_inv_add_user_record)
qed (simp add: db_inv_def empty_db_def)

section \<open>Effects and errors of single operations\<close>

lemma add_user_tokens_effect:
  assumes "db_inv db"
  shows "snd (add_user_tokens io db u n) = db \<or> (\<exists>t. snd (add_user_tokens io db u n) = set_tokens u t db)"
proof (cases "add_user_tokens io db u n")
  case (Pair r db')
  then show ?thesis
    using add_user_tokens_Inl[of io db u n _ db'] add_user_tokens_ok[OF assms, of io u n _ db']
    by (cases r) fastforce+
qed

lemma subtract_user_tokens_effect:
  assumes "db_inv db"
  shows "snd (subtract_user_tokens io db u n) = db \<or> (\<exists>t. snd (subtract_user_tokens io db u n) = set_tokens u t db)"
proof (cases "subtract_user_tokens io db u n")
  case (Pair r db')
  then show ?thesis
    using subtract_user_tokens_Inl[of io db u n _ db'] subtract_user_tokens_ok[OF assms, of io u n _ db']
    by (cases r) fastforce+
qed

lemma add_user_record_users: "db_users (snd (add_user_record io db u t s)) = db_users db"
  by (rule result_state_cases) (auto simp: add_user_record_ok_iff dest: add_user_record_Inl)

lemma try_register_user_effect:
  "snd (try_register_user ar io salt db u pw ip) = db \<or>
   (\<exists>h. find_user db u = None \<and> snd (try_register_user ar io salt db u pw ip) =
      db\<lparr>db_users := db_users db @ [\<lparr>u_username = u, u_password_hash = h, u_available_tokens = 0,
        u_registered_from_ip = ip\<rparr>]\<rparr>)"
  by (rule result_state_cases) (auto simp: try_register_user_ok_iff dest: try_register_user_Inl)

lemma find_user_cong: "db_users db = db_users db' \<Longrightarrow> find_user db u = find_user db' u"
  by (simp add: find_user_def)

lemma db_step_find_user:
  assumes "db_step ar db db'" and "db_inv db" and "find_user db u \<noteq> None"
  shows "find_user db' u \<noteq> None"
  using assms(1)
proof (cases rule: db_step.cases)
  case (register io salt username pw ip)
  with try_register_user_effect[of ar io salt db username pw ip] assms(3) show ?thesis
    by (auto simp: find_user_append)
next
  case (credit io username n)
  with add_user_tokens_effect[OF assms(2), of io username n] assms(3) show ?thesis
    by (auto simp: find_user_set_tokens)
next
  case (charge io username n)
  with subtract_user_tokens_effect[OF assms(2), of io username n] assms(3) show ?thesis
    by (auto simp: find_user_set_tokens)
next
  case (log sign io username ts)
  with find_user_cong[OF add_user_record_users] assms(3) show ?thesis by metis
qed

lemma subtract_user_tokens_missing:
  "subtract_user_tokens io db u n = (Inl SubtractTokensError.UserDoesNotExist, db') \<Longrightarrow> find_user db u = None"
  by (auto simp: subtract_user_tokens_def SubtractTokensError_from_def attempt_def
      split: option.splits sum.splits if_splits)

lemma add_user_tokens_missing:
  "add_user_tokens io db u n = (Inl AddTokensError.UserDoesNotExist, db') \<Longrightarrow> find_user db u = None"
  by (auto simp: add_user_tokens_def AddTokensError_from_def attempt_def
      split: option.splits sum.splits if_splits)

lemma add_user_record_missing:
  "add_user_record io db u t s = (Inl AddRecordError.UserDoesNotExist, db') \<Longrightarrow> find_user db u = None"
  by (auto simp: add_user_record_def AddRecordError_from_def attempt_def Let_def
      split: option.splits sum.splits if_splits)

lemma get_user_tokens_errors:
  assumes "db_inv db" and "find_user db u \<noteq> None" and "get_user_tokens io db u = Inl e"
  shows "\<exists>d. e = GetTokensError.InternalDataBase d"
  using assms db_inv_find_user[OF assms(1), of u]
  by (auto simp: get_user_tokens_def GetTokensError_from_def attempt_def split: option.splits if_splits)

lemma collect_records_errors:
  assumes "\<forall>h \<in> set rows. length (h_timestamp h) = 16 \<and> length (h_hash h) = RSA_KEY_SIZE_IN_BYTES"
    and "collect_records hx io i rows acc = Inl e"
  shows "\<exists>d. e = UserHistoryError.InternalDataBase d"
  using assms
  by (induction rows arbitrary: i acc)
    (auto simp: Let_def RsaSignature_try_from_def UserHistoryError_from_def attempt_def split: option.splits)

lemma sql_select_history_wf:
  "db_inv db \<Longrightarrow> \<forall>h \<in> set (sql_select_history u db).
     length (h_timestamp h) = 16 \<and> length (h_hash h) = RSA_KEY_SIZE_IN_BYTES"
  by (auto simp: sql_select_history_def db_inv_def dest: in_set_takeD)

lemma get_user_history_errors:
  assumes "db_inv db" and "find_user db u \<noteq> None" and "get_user_history hx io db u = Inl e"
  shows "\<exists>d. e = UserHistoryError.InternalDataBase d"
  using assms collect_records_errors[OF sql_select_history_wf[OF assms(1)], of hx io 2 u "[]" e]
  by (auto simp: get_user_history_def UserHistoryError_from_def attempt_def split: option.splits)

lemma verify_user_password_Inr: "verify_user_password ar io db u pw = Inr x \<Longrightarrow> find_user db u \<noteq> None"
  by (auto simp: verify_user_password_def attempt_def split: option.splits)

section \<open>Interface: token accounts\<close>

text \<open>
  What the connection handler relies on when it charges, credits and refunds: the two
  operations implement the account book and keep the invariant of the store.
\<close>

locale token_ledger =
  fixes inv :: "'d \<Rightarrow> bool"
    and bal :: "'d \<Rightarrow> ledger"
    and add_op :: "'d \<Rightarrow> string \<Rightarrow> u64 \<Rightarrow> (AddTokensError + u64) \<times> 'd"
    and sub_op :: "'d \<Rightarrow> string \<Rightarrow> u64 \<Rightarrow> (SubtractTokensError + u64) \<times> 'd"
  assumes add_refines: "inv d \<Longrightarrow>
      map_prod (map_sum id unat) bal (add_op d u n) = ledger_add (bal d) u (unat n)"
    and sub_refines: "inv d \<Longrightarrow>
      map_prod (map_sum id unat) bal (sub_op d u n) = ledger_subtract (bal d) u (unat n)"
    and add_inv: "inv d \<Longrightarrow> inv (snd (add_op d u n))"
    and sub_inv: "inv d \<Longrightarrow> inv (snd (sub_op d u n))"
    and bal_bound: "inv d \<Longrightarrow> bal d u = Some b \<Longrightarrow> b < 2 ^ 63"
begin

lemma sub_op_ok:
  assumes "inv d" and "sub_op d u n = (Inr r, d')"
  obtains b where "bal d u = Some b" "unat n \<le> b" "unat r = b - unat n" "bal d' = (bal d)(u \<mapsto> b - unat n)"
    "unat n < 2 ^ 63"
  using sub_refines[OF assms(1), of u n] assms(2) that
  by (auto simp: ledger_subtract_def split: if_splits option.splits)

lemma charge_then_refund:
  assumes "inv d" and "sub_op d u n = (Inr r, d')"
  shows "\<exists>r' d''. add_op d' u n = (Inr r', d'') \<and> bal d'' = bal d \<and> bal d u = Some (unat r')"
proof -
  from assms obtain b where b: "bal d u = Some b" "unat n \<le> b" "unat n < 2 ^ 63"
    "bal d' = (bal d)(u \<mapsto> b - unat n)"
    by (rule sub_op_ok)
  have i: "inv d'" using sub_inv[OF assms(1), of u n] assms(2) by simp
  have "b < 2 ^ 63" using bal_bound[OF assms(1) b(1)] .
  with b have "ledger_add (bal d') u (unat n) = (Inr b, bal d)"
    by (auto simp: ledger_add_def)
  with add_refines[OF i, of u n] b(1) show ?thesis
    by (cases "add_op d' u n"; cases "fst (add_op d' u n)") auto
qed

lemma charge_refused:
  assumes "inv d" and "sub_op d u n = (Inl e, d')"
  shows "bal d' = bal d \<and> (bal d u = None \<or> (\<exists>b. bal d u = Some b \<and> b < unat n))"
  using sub_refines[OF assms(1), of u n] assms(2) bal_bound[OF assms(1), of u]
  by (cases "bal d u") (auto simp: ledger_subtract_def split: if_splits)

end

interpretation tokens: token_ledger db_inv balance "add_user_tokens no_fault" "subtract_user_tokens no_fault"
proof unfold_locales
  show "balance d u = Some b \<Longrightarrow> b < 2 ^ 63" if "db_inv d" for d u b
    using that by (auto simp: balance_def dest: db_inv_unat)
qed (simp_all add: add_user_tokens_refines subtract_user_tokens_refines db_inv_add_user_tokens
    db_inv_subtract_user_tokens)

section \<open>History\<close>

lemma collect_records_no_fault:
  assumes "\<forall>h \<in> set rows. length (h_timestamp h) = 16 \<and> length (h_hash h) = RSA_KEY_SIZE_IN_BYTES"
  shows "collect_records hx no_fault i rows acc = Inr (acc @ map record_of_row rows)"
  using assms
  by (induction rows arbitrary: i acc)
    (auto simp: Let_def RsaSignature_try_from_def record_of_row_def)

lemma get_user_history_eq:
  assumes "db_inv db"
  shows "get_user_history hx no_fault db u =
    (if find_user db u = None then Inl UserHistoryError.UserDoesNotExist
     else Inr (map record_of_row (sql_select_history u db)))"
proof -
  have "\<forall>h \<in> set (sql_select_history u db). length (h_timestamp h) = 16 \<and> length (h_hash h) = RSA_KEY_SIZE_IN_BYTES"
    using assms by (auto simp: sql_select_history_def db_inv_def dest: in_set_takeD)
  then show ?thesis
    by (auto simp: get_user_history_def collect_records_no_fault split: option.splits)
qed

lemma newest_rows_sorted:
  assumes "db_inv db"
  shows "sorted_wrt (\<lambda>a b. h_timestamp b < h_timestamp a) (newest_rows u db)"
proof -
  let ?rows = "filter (\<lambda>h. h_username h = u) (db_history db)"
  have "inj_on h_timestamp (set ?rows)" "distinct ?rows"
    using assms by (auto simp: db_inv_def distinct_map inj_on_def)
  then have "distinct (map h_timestamp (sort_key h_timestamp ?rows))"
    by (simp add: distinct_map)
  moreover have "sorted (map h_timestamp (sort_key h_timestamp ?rows))"
    by (rule sorted_sort_key)
  ultimately have "sorted_wrt (<) (map h_timestamp (sort_key h_timestamp ?rows))"
    by (simp add: strict_sorted_iff)
  then show ?thesis
    by (simp add: newest_rows_def sorted_wrt_rev sorted_wrt_map)
qed

lemma record_timestamp_less_iff:
  assumes "length (h_timestamp a) = 16" and "length (h_timestamp b) = 16"
  shows "Timestamp_get (hr_timestamp (record_of_row a)) < Timestamp_get (hr_timestamp (record_of_row b))
    \<longleftrightarrow> h_timestamp a < h_timestamp b"
proof -
  have *: "h_timestamp h = be_bytes 16 (of_be_bytes (h_timestamp h) :: u128)"
    if "length (h_timestamp h) = 16" for h
    using that by (simp add: be_bytes_of_be_bytes)
  show ?thesis
    by (subst *[OF assms(1)], subst *[OF assms(2)])
      (simp add: be_bytes_less_iff record_of_row_def HistoryRecord_new_def Timestamp_from_be_def
        Timestamp_new_def)
qed

lemma sql_select_history_eq: "sql_select_history u db = take 100 (newest_rows u db)"
  by (simp add: sql_select_history_def newest_rows_def)

lemma set_newest_rows: "set (newest_rows u db) = {h \<in> set (db_history db). h_username h = u}"
  by (simp add: newest_rows_def)

lemma newest_first_rows:
  assumes "db_inv db"
  shows "newest_first (map record_of_row (newest_rows u db))"
proof -
  have len: "length (h_timestamp h) = 16" if "h \<in> set (newest_rows u db)" for h
    using that assms by (auto simp: set_newest_rows db_inv_def)
  show ?thesis
    unfolding newest_first_def sorted_wrt_map
    by (rule sorted_wrt_mono_rel[OF _ newest_rows_sorted[OF assms]])
      (simp add: record_timestamp_less_iff len)
qed

lemma newest_first_take:
  assumes "newest_first rs"
  shows "newest_first (take n rs)" and
    "r \<in> set rs - set (take n rs) \<Longrightarrow> length (take n rs) = n \<and>
       (\<forall>s \<in> set (take n rs). Timestamp_get (hr_timestamp r) < Timestamp_get (hr_timestamp s))"
proof -
  have s: "newest_first (take n rs @ drop n rs)" using assms by simp
  then show "newest_first (take n rs)"
    unfolding newest_first_def sorted_wrt_append by blast
  assume r: "r \<in> set rs - set (take n rs)"
  then have "r \<in> set (drop n rs)"
    by (metis Diff_iff Un_iff append_take_drop_id set_append)
  with s show "length (take n rs) = n \<and>
       (\<forall>s \<in> set (take n rs). Timestamp_get (hr_timestamp r) < Timestamp_get (hr_timestamp s))"
    unfolding newest_first_def sorted_wrt_append
    by (cases "length rs \<le> n") auto
qed

lemma insort_key_below: "f x < f y \<Longrightarrow> insort_key f x (zs @ [y]) = insort_key f x zs @ [y]"
  by (induction zs) auto

lemma sort_key_snoc_above:
  "\<forall>x \<in> set xs. f x < f y \<Longrightarrow> sort_key f (xs @ [y]) = sort_key f xs @ [y]"
  by (induction xs) (auto simp: insort_key_below)

lemma newest_rows_snoc:
  assumes "\<forall>h \<in> set (db_history db). h_username h = u \<longrightarrow> h_timestamp h < h_timestamp row"
    and "h_username row = u"
  shows "newest_rows u (db\<lparr>db_history := db_history db @ [row]\<rparr>) = row # newest_rows u db"
  using assms by (simp add: newest_rows_def sort_key_snoc_above)

lemma record_of_new_row:
  "wf_signature s \<Longrightarrow> record_of_row \<lparr>h_username = u, h_timestamp = Timestamp_as_be_bytes t,
     h_hash = RsaSignature_as_bytes s\<rparr> = \<lparr>hr_sign = s, hr_timestamp = t\<rparr>"
  using ts_codec.dec_enc[of t] ts_codec.enc_width[of t]
  by (cases s) (simp add: record_of_row_def HistoryRecord_new_def timestamp_of_blob_def)

lemma add_user_tokens_frame:
  assumes "db_inv db"
  shows "credentials (snd (add_user_tokens io db u n)) = credentials db \<and>
    db_history (snd (add_user_tokens io db u n)) = db_history db"
proof (cases "add_user_tokens io db u n")
  case (Pair res db')
  then show ?thesis
    using add_user_tokens_Inl[of io db u n _ db'] add_user_tokens_ok[OF assms, of io u n _ db']
    by (cases res) fastforce+
qed

lemma subtract_user_tokens_frame:
  assumes "db_inv db"
  shows "credentials (snd (subtract_user_tokens io db u n)) = credentials db \<and>
    db_history (snd (subtract_user_tokens io db u n)) = db_history db"
proof (cases "subtract_user_tokens io db u n")
  case (Pair res db')
  then show ?thesis
    using subtract_user_tokens_Inl[of io db u n _ db'] subtract_user_tokens_ok[OF assms, of io u n _ db']
    by (cases res) fastforce+
qed

lemma plain_argon2_correct: "argon2_correct plain_argon2"
  by (simp add: argon2_correct_def plain_argon2_def)

lemma alice_db_inv: "0 \<le> sint n \<Longrightarrow> db_inv (alice_db n)"
  by (simp add: db_inv_def alice_db_def)

lemma find_alice: "find_user (alice_db n) ''alice'' = Some (hd (db_users (alice_db n)))"
  by (simp add: alice_db_def find_user_def)

lemma set_tokens_alice: "set_tokens ''alice'' k (alice_db n) = alice_db k"
  by (simp add: set_tokens_def alice_db_def)

lemma alice_tokens: "u_available_tokens (hd (db_users (alice_db n))) = n"
  by (simp add: alice_db_def)

lemma alice_add:
  "0 \<le> sint n \<Longrightarrow> unat n + unat k < 2 ^ 63 \<Longrightarrow>
   add_user_tokens no_fault (alice_db n) ''alice'' k = (Inr (n + k), alice_db (n + k))"
  by (simp add: add_user_tokens_eq[OF alice_db_inv] find_alice alice_tokens set_tokens_alice)

lemma alice_charge:
  "0 \<le> sint n \<Longrightarrow> unat k < 2 ^ 63 \<Longrightarrow> subtract_user_tokens no_fault (alice_db n) ''alice'' k =
     (if unat k \<le> unat n then (Inr (n - k), alice_db (n - k)) else (Inl InsufficientTokens, alice_db n))"
  by (simp add: subtract_user_tokens_eq[OF alice_db_inv] find_alice alice_tokens set_tokens_alice)

lemma alice_register:
  "try_register_user plain_argon2 no_fault salt empty_db ''alice'' ''pw'' ''127.0.0.1'' = (Inr (), alice_db 0)"
  by (simp add: try_register_user_def plain_argon2_def sql_insert_user_def find_user_def empty_db_def
      alice_db_def)

lemma alice_signature_wf: "wf_signature alice_signature"
  by (simp add: alice_signature_def plain_signature_def wf_signature_def RSA_KEY_SIZE_IN_BYTES_def
      RSA_KEY_SIZE_IN_BITS_def Timestamp_as_be_bytes_def)

lemma alice_records:
  "add_user_record no_fault (alice_db 0) ''alice'' (Timestamp 9) alice_signature = (Inr (), alice_signed_db)"
  by (simp add: add_user_record_ok_iff no_fault_def find_alice) (simp add: alice_signed_db_def alice_db_def)

lemma alice_signed_inv: "db_inv alice_signed_db"
  using db_inv_add_user_record[OF alice_db_inv alice_signature_wf, of 0 no_fault "''alice''" "Timestamp 9"]
    alice_records by simp

section \<open>Charging one token\<close>

lemma add_user_record_recorded:
  assumes "add_user_record io db u t s = (Inr x, db')" and "wf_signature s"
  shows "\<lparr>hr_sign = s, hr_timestamp = t\<rparr> \<in> user_records db' u"
proof -
  let ?row = "\<lparr>h_username = u, h_timestamp = Timestamp_as_be_bytes t, h_hash = RsaSignature_as_bytes s\<rparr>"
  have "?row \<in> {h \<in> set (db_history db'). h_username h = u}"
    using assms(1) by (simp add: add_user_record_ok_iff)
  then have "record_of_row ?row \<in> user_records db' u"
    unfolding user_records_def by (rule imageI)
  then show ?thesis by (simp add: record_of_new_row[OF assms(2)])
qed

lemma charge_one:
  assumes "db_inv db" and "subtract_user_tokens io db u 1 = (Inr k, db')" and "balance db u = Some b"
  shows "0 < b \<and> balance db' = (balance db)(u \<mapsto> b - 1) \<and> db_inv db' \<and> db_history db' = db_history db"
proof -
  obtain r where r: "find_user db u = Some r" "k = u_available_tokens r - 1"
    "unat (1::u64) \<le> unat (u_available_tokens r)" "db' = set_tokens u k db"
    by (rule subtract_user_tokens_ok[OF assms(1,2)])
  have b: "b = unat (u_available_tokens r)" using assms(3) r(1) by (simp add: balance_def)
  have "unat k = b - 1" using r(2,3) b checked_sub_s_nonneg(3)[of "u_available_tokens r" 1]
      db_inv_unat[OF assms(1) r(1)] by simp
  moreover have "db_inv db'" using db_inv_subtract_user_tokens[OF assms(1), of io u 1] assms(2) by simp
  ultimately show ?thesis using r b by (simp add: balance_set_tokens)
qed

lemma charge_one_refused:
  assumes "db_inv db" and "subtract_user_tokens io db u 1 = (Inl InsufficientTokens, db')" and "balance db u = Some b"
  shows "b = 0 \<and> db' = db"
proof -
  have "subtract_user_tokens no_fault db u 1 = (Inl InsufficientTokens, db')"
    using subtract_user_tokens_fault[of io db u 1] assms(2) by (auto simp: SubtractTokensError_from_def)
  then show ?thesis
    using assms(1,3) by (auto simp: subtract_user_tokens_eq balance_def split: option.splits if_splits)
qed

lemma balance_history: "balance (db\<lparr>db_history := hs\<rparr>) = balance db"
  by (rule ext) (simp add: balance_def)

lemma add_user_record_balance: "balance (snd (add_user_record io db u t s)) = balance db"
  by (rule result_state_cases) (auto simp: add_user_record_ok_iff balance_history dest: add_user_record_Inl)

section \<open>Properties\<close>

text \<open>
  C24. The history a user gets is the newest part of what was recorded for them: at most 100
  records, strictly newest first, all recorded for that user, and a record that is left out
  is older than each of exactly 100 returned ones.
\<close>

theorem history_is_newest_100:
  assumes "db_inv db" and "find_user db u \<noteq> None"
  shows "\<exists>rs. get_user_history hx no_fault db u = Inr rs \<and> newest_first rs \<and> length rs \<le> 100 \<and>
    set rs \<subseteq> user_records db u \<and>
    (\<forall>r \<in> user_records db u - set rs. length rs = 100 \<and>
       (\<forall>s \<in> set rs. Timestamp_get (hr_timestamp r) < Timestamp_get (hr_timestamp s)))"
proof -
  let ?rs = "map record_of_row (newest_rows u db)"
  have h: "get_user_history hx no_fault db u = Inr (take 100 ?rs)"
    using assms by (simp add: get_user_history_eq sql_select_history_eq take_map)
  have "set ?rs = user_records db u"
    by (simp add: user_records_def set_newest_rows)
  then show ?thesis
    using h newest_first_take[OF newest_first_rows[OF assms(1)], where n=100 and u1=u]
    by (auto dest: in_set_takeD)
qed

theorem history_is_newest_100_witness:
  "\<exists>rs. get_user_history plain_hex no_fault alice_signed_db ''alice'' = Inr rs \<and> newest_first rs \<and>
     set rs \<subseteq> user_records alice_signed_db ''alice''"
  using history_is_newest_100[OF alice_signed_inv, of "''alice''" plain_hex]
  by (auto simp: alice_signed_db_def find_alice)

text \<open>
  A recorded signature can be read back: after \<^verbatim>\<open>add_user_record\<close> succeeds with a
  timestamp later than the user's earlier ones, \<^verbatim>\<open>get_user_history\<close> returns that signature
  and timestamp first, followed by the earlier history up to 100 records in all.
\<close>

lemma recorded_signature_heads_history:
  assumes "db_inv db" and "wf_signature s"
    and "\<forall>r \<in> user_records db u. Timestamp_get (hr_timestamp r) < Timestamp_get t"
    and "add_user_record io db u t s = (Inr (), db')"
    and "get_user_history hx no_fault db u = Inr rs"
  shows "get_user_history hx no_fault db' u = Inr (take 100 (\<lparr>hr_sign = s, hr_timestamp = t\<rparr> # rs))"
proof -
  let ?row = "\<lparr>h_username = u, h_timestamp = Timestamp_as_be_bytes t, h_hash = RsaSignature_as_bytes s\<rparr>"
  have db': "db' = db\<lparr>db_history := db_history db @ [?row]\<rparr>" and u: "find_user db u \<noteq> None"
    using assms(4) by (simp_all add: add_user_record_ok_iff)
  have inv: "db_inv db'"
    using db_inv_add_user_record[OF assms(1,2), of io u t] assms(4) by simp
  have "h_timestamp h < h_timestamp ?row" if "h \<in> set (db_history db)" "h_username h = u" for h
  proof -
    have "record_of_row h \<in> user_records db u"
      using that by (auto simp: user_records_def)
    with assms(3) have "Timestamp_get (hr_timestamp (record_of_row h)) <
        Timestamp_get (hr_timestamp (record_of_row ?row))"
      by (simp add: record_of_new_row[OF assms(2)])
    moreover have "length (h_timestamp h) = 16" "length (h_timestamp ?row) = 16"
      using that assms(1) ts_codec.enc_width[of t] by (auto simp: db_inv_def)
    ultimately show ?thesis by (simp add: record_timestamp_less_iff)
  qed
  then have "newest_rows u db' = ?row # newest_rows u db"
    unfolding db' by (intro newest_rows_snoc) auto
  moreover have "rs = map record_of_row (take 100 (newest_rows u db))"
    using assms(1,5) u by (simp add: get_user_history_eq sql_select_history_eq)
  moreover have "find_user db' u \<noteq> None" using u by (simp add: db')
  ultimately show ?thesis
    using inv by (simp add: get_user_history_eq sql_select_history_eq
        record_of_new_row[OF assms(2)] take_map)
qed

text \<open>
  C3. The token operations implement the account book: on a consistent database without engine
  faults, \<^verbatim>\<open>add_user_tokens\<close>, \<^verbatim>\<open>subtract_user_tokens\<close> and \<^verbatim>\<open>get_user_tokens\<close> return what
  the abstract ledger returns, errors included, and leave its balances.
\<close>

theorem token_operations_refine_ledger:
  assumes "db_inv db"
  shows "map_prod (map_sum id unat) balance (add_user_tokens no_fault db u n) =
           ledger_add (balance db) u (unat n) \<and>
         map_prod (map_sum id unat) balance (subtract_user_tokens no_fault db u n) =
           ledger_subtract (balance db) u (unat n) \<and>
         map_sum (\<lambda>_. ()) unat (get_user_tokens no_fault db u) = ok_or () (balance db u)"
proof -
  have "map_sum (\<lambda>_. ()) unat (get_user_tokens no_fault db u) = ok_or () (balance db u)"
    using db_inv_find_user[OF assms, of u]
    by (cases "find_user db u") (auto simp: get_user_tokens_def balance_def)
  with assms show ?thesis
    by (simp add: tokens.add_refines tokens.sub_refines)
qed

theorem token_operations_refine_ledger_witness:
  "add_user_tokens no_fault (alice_db 3) ''alice'' 2 = (Inr 5, alice_db 5) \<and>
   subtract_user_tokens no_fault (alice_db 3) ''alice'' 4 = (Inl InsufficientTokens, alice_db 3) \<and>
   map_prod (map_sum id unat) balance (add_user_tokens no_fault (alice_db 3) ''alice'' 2) =
     ledger_add (balance (alice_db 3)) ''alice'' (unat (2::u64))"
  using token_operations_refine_ledger[OF alice_db_inv, of 3 "''alice''" 2] alice_add[of 3 2]
    alice_charge[of 3 4]
  by simp

text \<open>
  A charge can always be undone: after a successful \<^verbatim>\<open>subtract_user_tokens\<close>, adding the
  same amount succeeds, returns the balance of before and restores every balance, with
  credentials and history untouched.
\<close>

lemma charge_then_refund_restores:
  assumes "db_inv db" and "subtract_user_tokens no_fault db u n = (Inr k, db')"
  shows "\<exists>k' db''. add_user_tokens no_fault db' u n = (Inr k', db'') \<and> balance db'' = balance db \<and>
    balance db u = Some (unat k') \<and> credentials db'' = credentials db \<and> db_history db'' = db_history db"
proof -
  have i: "db_inv db'" using db_inv_subtract_user_tokens[OF assms(1), of no_fault u n] assms(2) by simp
  obtain k' db'' where r: "add_user_tokens no_fault db' u n = (Inr k', db'')" "balance db'' = balance db"
      "balance db u = Some (unat k')"
    using tokens.charge_then_refund[OF assms] by blast
  with subtract_user_tokens_frame[OF assms(1), of no_fault u n] add_user_tokens_frame[OF i, of no_fault u n] assms(2)
  show ?thesis by auto
qed

text \<open>
  C15. Every database reached from the empty one by registrations, credits, charges and records,
  under any engine faults, is consistent: usernames are unique, balances are non-negative,
  history rows have unique keys, well-formed blobs and an existing user.
\<close>

theorem reachable_databases_are_consistent:
  assumes "(db_step ar)\<^sup>*\<^sup>* empty_db db"
  shows "db_inv db"
  using db_sys.reachable_inv[OF refl assms] .

theorem reachable_databases_are_consistent_witness:
  "(db_step plain_argon2)\<^sup>*\<^sup>* empty_db (alice_db 0) \<and> db_inv (alice_db 0)"
proof -
  have "(db_step plain_argon2)\<^sup>*\<^sup>* empty_db (alice_db 0)"
    using db_step.register[of plain_argon2 empty_db no_fault] alice_register by (metis r_into_rtranclp snd_conv)
  then show ?thesis using reachable_databases_are_consistent by blast
qed

text \<open>
  An operation that reports an error, whatever failed and at whichever statement, leaves the
  database as it was.
\<close>

lemma failed_operations_change_nothing:
  "(fst (try_register_user ar io salt db u pw ip) = Inl e1 \<longrightarrow> snd (try_register_user ar io salt db u pw ip) = db) \<and>
   (fst (add_user_tokens io db u n) = Inl e2 \<longrightarrow> snd (add_user_tokens io db u n) = db) \<and>
   (fst (subtract_user_tokens io db u n) = Inl e3 \<longrightarrow> snd (subtract_user_tokens io db u n) = db) \<and>
   (fst (add_user_record io db u t s) = Inl e4 \<longrightarrow> snd (add_user_record io db u t s) = db)"
  using try_register_user_Inl[of ar io salt db u pw ip e1] add_user_tokens_Inl[of io db u n e2]
    subtract_user_tokens_Inl[of io db u n e3] add_user_record_Inl[of io db u t s e4]
  by (metis prod.collapse)

text \<open>
  After a successful registration the user authenticates with the same password, owns no
  tokens, other users keep their credentials, and the name cannot be registered again.
\<close>

lemma registered_user_can_authenticate:
  assumes "argon2_correct ar" and "try_register_user ar io salt db u pw ip = (Inr (), db')"
  shows "verify_user_password ar no_fault db' u pw = Inr () \<and>
    balance db' = (balance db)(u \<mapsto> 0) \<and>
    (\<forall>v. v \<noteq> u \<longrightarrow> credentials db' v = credentials db v) \<and>
    fst (try_register_user ar no_fault salt db' u pw ip) = Inl (UserAlreadyExists u)"
proof -
  obtain h where h: "argon2_hash_password ar pw salt = Inr h" "find_user db u = None"
    and db': "db' = db\<lparr>db_users := db_users db @
          [\<lparr>u_username = u, u_password_hash = h, u_available_tokens = 0, u_registered_from_ip = ip\<rparr>]\<rparr>"
    using assms(2) by (auto simp: try_register_user_ok_iff)
  obtain p where p: "argon2_parse_hash ar h = Inr p" "argon2_verify_password ar pw p = Inr ()"
    using assms(1) h(1) unfolding argon2_correct_def by blast
  have find: "find_user db' v = (if v = u then Some \<lparr>u_username = u, u_password_hash = h, u_available_tokens = 0,
      u_registered_from_ip = ip\<rparr> else find_user db v)" for v
    using h(2) unfolding db' find_user_append by (auto split: option.splits)
  show ?thesis
    using p h by (auto simp: verify_user_password_def balance_def credentials_def find fun_eq_iff
        try_register_user_def sql_insert_user_def)
qed

end
