(* ===== verification/Time_Oracle.thy ===== *)
theory Time_Oracle
  imports Prelude
begin

text \<open>
  The clock of the server, \<^verbatim>\<open>server/src/time_oracle.rs\<close>, and the port type it takes from
  \<^verbatim>\<open>server/src/server.rs\<close>. A \<^verbatim>\<open>SystemTime\<close> is the number of nanoseconds since the epoch, an
  integer whose seconds fit in an \<^verbatim>\<open>i64\<close>; a \<^verbatim>\<open>Duration\<close> is a number of nanoseconds. The
  offset that the oracle and its worker share is a value passed through. Name resolution,
  sockets and the NTP exchange are inputs.
\<close>

section \<open>System time\<close>

type_synonym system_time = int

definition NANOS :: int where
  "NANOS = 1000000000"

definition system_time_ok :: "system_time \<Rightarrow> bool" where
  "system_time_ok t \<longleftrightarrow> - (2 ^ 63) * NANOS \<le> t \<and> t < 2 ^ 63 * NANOS"

text \<open>\<^verbatim>\<open>checked_add\<close>, \<^verbatim>\<open>checked_sub\<close> and \<^verbatim>\<open>duration_since(UNIX_EPOCH)\<close> of \<^verbatim>\<open>SystemTime\<close>.\<close>

definition time_checked_add :: "system_time \<Rightarrow> nat \<Rightarrow> system_time option" where
  "time_checked_add t d = (if system_time_ok (t + int d) then Some (t + int d) else None)"

definition time_checked_sub :: "system_time \<Rightarrow> nat \<Rightarrow> system_time option" where
  "time_checked_sub t d = (if system_time_ok (t - int d) then Some (t - int d) else None)"

definition duration_since_epoch :: "system_time \<Rightarrow> nat option" where
  "duration_since_epoch t = (if 0 \<le> t then Some (nat t) else None)"

section \<open>Ports\<close>

datatype NetworkPort = AnyFreePort | Port u16

definition NetworkPort_from :: "u16 \<Rightarrow> NetworkPort" where
  "NetworkPort_from port = (if port = 0 then AnyFreePort else Port port)"

fun NetworkPort_get :: "NetworkPort \<Rightarrow> u16" where
  "NetworkPort_get AnyFreePort = 0"
| "NetworkPort_get (Port p) = p"

section \<open>The oracle\<close>

datatype TimeOracleError =
    SocketSetNonBlocking string
  | ListenerError SocketAddr string
  | ListenerConversionError string
  | NoDnsAddress string string
  | NoAddressSpecified string
  | HostnameNotFound string
  | GenericNetworkError string
  | TimeWentBackwards
  | UnreliablePort

record TimeOracle =
  offset_nanos :: i64

record 'sock TimeSyncWorker =
  ntp_server_addr :: SocketAddr
  listener :: 'sock
  sync_interval :: nat
  worker_offset_nanos :: i64

record 'sock TimeOracleBundle =
  bundle_oracle :: TimeOracle
  bundle_worker :: "'sock TimeSyncWorker"

definition TimeOracleBundle_into_parts ::
    "'sock TimeOracleBundle \<Rightarrow> TimeOracle \<times> 'sock TimeSyncWorker" where
  "TimeOracleBundle_into_parts b = (bundle_oracle b, bundle_worker b)"

datatype 'sock TimeOracleType = Local TimeOracle | Synced "'sock TimeOracleBundle"

definition TimeOracle_new_local :: TimeOracle where
  "TimeOracle_new_local = \<lparr>offset_nanos = 0\<rparr>"

text \<open>The operating system: name resolution and UDP sockets.\<close>

record 'sock udp_net =
  to_socket_addrs :: "string \<Rightarrow> u16 \<Rightarrow> io_error + SocketAddr list"
  udp_bind :: "SocketAddr \<Rightarrow> io_error + 'sock"
  udp_set_nonblocking :: "'sock \<Rightarrow> io_error + unit"
  udp_into_tokio :: "'sock \<Rightarrow> io_error + unit"

definition host_port :: "string \<Rightarrow> u16 \<Rightarrow> string" where
  "host_port host port = host @ '':'' @ show_nat (unat port)"

definition create_bundle ::
    "'sock udp_net \<Rightarrow> string \<Rightarrow> NetworkPort \<Rightarrow> SocketAddr \<Rightarrow> nat
     \<Rightarrow> TimeOracleError + 'sock TimeOracleBundle" where
  "create_bundle net host ntp_server_port listener_address interval =
     (case ntp_server_port of
        AnyFreePort \<Rightarrow> Inl UnreliablePort
      | Port port \<Rightarrow>
     (case to_socket_addrs net host port of
        Inl e \<Rightarrow> Inl (NoDnsAddress (host_port host port) (io_text e))
      | Inr [] \<Rightarrow> Inl (NoAddressSpecified (host_port host port))
      | Inr (addr # _) \<Rightarrow>
     (case udp_bind net listener_address of
        Inl e \<Rightarrow> Inl (ListenerError listener_address (io_text e))
      | Inr sock \<Rightarrow>
     (case udp_set_nonblocking net sock of
        Inl e \<Rightarrow> Inl (SocketSetNonBlocking (io_text e))
      | Inr _ \<Rightarrow>
          Inr \<lparr>bundle_oracle = \<lparr>offset_nanos = 0\<rparr>,
               bundle_worker = \<lparr>ntp_server_addr = addr, listener = sock, sync_interval = interval,
                                worker_offset_nanos = 0\<rparr>\<rparr>))))"

definition unsigned_abs :: "i64 \<Rightarrow> u64" where
  "unsigned_abs w = (if sint w < 0 then - w else w)"

definition time_now :: "TimeOracle \<Rightarrow> system_time \<Rightarrow> system_time" where
  "time_now oracle local_now =
     (let offset = offset_nanos oracle
      in if 0 \<le> sint offset
         then (case time_checked_add local_now (unat offset) of Some t \<Rightarrow> t | None \<Rightarrow> local_now)
         else (case time_checked_sub local_now (unat (unsigned_abs offset)) of
                 Some t \<Rightarrow> t | None \<Rightarrow> local_now))"

section \<open>Synchronisation\<close>

definition clamp_signed :: "'a::len word \<Rightarrow> 'a word \<Rightarrow> 'a word \<Rightarrow> 'a word" where
  "clamp_signed lo hi v = (if sint v < sint lo then lo else if sint hi < sint v then hi else v)"

definition compute_offset :: "u64 \<Rightarrow> u64 \<Rightarrow> system_time \<Rightarrow> TimeOracleError + i64" where
  "compute_offset ntp_secs ntp_nanos local_now =
     (case Option.bind (checked_mul_u ntp_secs 1000000000) (\<lambda>ns. checked_add_u ns ntp_nanos) of
        None \<Rightarrow> Inl (GenericNetworkError ''NTP timestamp overflow'')
      | Some total_ntp_nanos \<Rightarrow>
     (case duration_since_epoch local_now of
        None \<Rightarrow> Inl TimeWentBackwards
      | Some duration \<Rightarrow>
          (let total_local_nanos = (of_nat duration :: u128);
               ntp_128 = (ucast total_ntp_nanos :: i128);
               local_128 = (case try_into_signed total_local_nanos of
                              Some n \<Rightarrow> n | None \<Rightarrow> word_of_int (2 ^ 127 - 1));
               offset_128 = (case checked_sub_s ntp_128 local_128 of Some n \<Rightarrow> n | None \<Rightarrow> 0);
               capped = clamp_signed (word_of_int (- (2 ^ 63))) (word_of_int (2 ^ 63 - 1)) offset_128
           in Inr (ucast capped))))"

text \<open>
  One tick of the worker: what the resolver answers, what the NTP exchange answers, and the
  local clock at that moment. \<open>frac\<close> is \<^verbatim>\<open>sntpc::fraction_to_nanoseconds\<close>.
\<close>

datatype sntpc_error = Network | AddressResolve | OtherSntpcError string

record sync_tick =
  tick_lookup :: "io_error + SocketAddr list"
  tick_ntp :: "sntpc_error + u32 \<times> u32"
  tick_now :: system_time

definition sync_once ::
    "(u32 \<Rightarrow> u32) \<Rightarrow> (SocketAddr \<Rightarrow> string) \<Rightarrow> SocketAddr \<Rightarrow> sync_tick \<Rightarrow> i64 \<Rightarrow> TimeOracleError + i64" where
  "sync_once frac show_addr ntp_addr tk offset =
     (case tick_lookup tk of
        Inl e \<Rightarrow> Inl (GenericNetworkError (io_text e))
      | Inr [] \<Rightarrow> Inl (HostnameNotFound (show_addr ntp_addr))
      | Inr (_ # _) \<Rightarrow>
     (case tick_ntp tk of
        Inr (sec, sec_fraction) \<Rightarrow>
          compute_offset (ucast sec) (ucast (frac sec_fraction)) (tick_now tk)
      | Inl Network \<Rightarrow> Inr offset
      | Inl AddressResolve \<Rightarrow> Inr offset
      | Inl (OtherSntpcError e) \<Rightarrow> Inl (GenericNetworkError e)))"

text \<open>The loop over the ticks seen so far; \<open>None\<close> is a worker waiting for its next tick.\<close>

fun sync_loop ::
    "(u32 \<Rightarrow> u32) \<Rightarrow> (SocketAddr \<Rightarrow> string) \<Rightarrow> SocketAddr \<Rightarrow> sync_tick list \<Rightarrow> i64
     \<Rightarrow> TimeOracleError option \<times> i64" where
  "sync_loop frac show_addr ntp_addr [] offset = (None, offset)"
| "sync_loop frac show_addr ntp_addr (tk # tks) offset =
     (case sync_once frac show_addr ntp_addr tk offset of
        Inl e \<Rightarrow> (Some e, offset)
      | Inr offset' \<Rightarrow> sync_loop frac show_addr ntp_addr tks offset')"

text \<open>\<^verbatim>\<open>tokio::time::interval\<close> panics on a zero period.\<close>

definition start_syncing ::
    "'sock udp_net \<Rightarrow> (u32 \<Rightarrow> u32) \<Rightarrow> (SocketAddr \<Rightarrow> string) \<Rightarrow> 'sock TimeSyncWorker \<Rightarrow> sync_tick list
     \<Rightarrow> (TimeOracleError option \<times> i64) outcome" where
  "start_syncing net frac show_addr worker ticks =
     (case udp_into_tokio net (listener worker) of
        Inl e \<Rightarrow> Returns (Some (ListenerConversionError (io_text e)), worker_offset_nanos worker)
      | Inr _ \<Rightarrow>
          (if sync_interval worker = 0 then Panic
           else Returns (sync_loop frac show_addr (ntp_server_addr worker) ticks
                          (worker_offset_nanos worker))))"

section \<open>Specification\<close>

text \<open>
  \<open>clamp_i64\<close> is saturation to the range of an \<^verbatim>\<open>i64\<close>; a tick is \<open>tick_ok\<close> when the
  resolver answered, the local clock is past the epoch and the exchange either succeeded or
  failed in a way that is retried; \<open>last_sync\<close> is the offset of the last exchange that
  succeeded.
\<close>

definition clamp_i64 :: "int \<Rightarrow> int" where
  "clamp_i64 n = max (- (2 ^ 63)) (min (2 ^ 63 - 1) n)"

definition tick_ok :: "sync_tick \<Rightarrow> bool" where
  "tick_ok tk \<longleftrightarrow>
     (\<exists>a as. tick_lookup tk = Inr (a # as)) \<and> 0 \<le> tick_now tk \<and> system_time_ok (tick_now tk) \<and>
     (case tick_ntp tk of Inr _ \<Rightarrow> True | Inl e \<Rightarrow> e = Network \<or> e = AddressResolve)"

fun ntp_time :: "(u32 \<Rightarrow> u32) \<Rightarrow> sync_tick \<Rightarrow> int option" where
  "ntp_time frac tk =
     (case tick_ntp tk of
        Inr (sec, fr) \<Rightarrow> Some (int (unat sec) * NANOS + int (unat (frac fr)))
      | Inl _ \<Rightarrow> None)"

fun last_sync :: "(u32 \<Rightarrow> u32) \<Rightarrow> sync_tick list \<Rightarrow> i64 \<Rightarrow> i64" where
  "last_sync frac [] offset = offset"
| "last_sync frac (tk # tks) offset =
     last_sync frac tks
       (case ntp_time frac tk of None \<Rightarrow> offset | Some t \<Rightarrow> word_of_int (clamp_i64 (t - tick_now tk)))"

section \<open>Arithmetic of the offset\<close>

lemma sint_sub_nonneg:
  fixes a b :: "'a::len word"
  assumes "unat a < 2 ^ (LENGTH('a) - 1)" and "unat b < 2 ^ (LENGTH('a) - 1)"
  shows "sint (a - b) = int (unat a) - int (unat b)"
  using checked_sub_s_nonneg(1)[OF assms] assms
  by (simp add: checked_sub_s_def checked_signed_Some_iff sint_eq_unat)

lemma ucast_word_of_int:
  assumes "LENGTH('b::len) \<le> LENGTH('a::len)"
  shows "(ucast (word_of_int n :: 'a word) :: 'b word) = word_of_int n"
  using assms by (simp add: unsigned_ucast_eq word_of_int_eq_iff unsigned_of_int take_bit_take_bit min_def ucast_eq)

lemma ucast_capped:
  fixes v :: i128
  shows "(ucast (clamp_signed (word_of_int (- (2 ^ 63))) (word_of_int (2 ^ 63 - 1)) v) :: i64) =
    word_of_int (clamp_i64 (sint v))"
proof -
  have lo: "sint (word_of_int (- (2 ^ 63)) :: i128) = - (2 ^ 63)"
    and hi: "sint (word_of_int (2 ^ 63 - 1) :: i128) = 2 ^ 63 - 1"
    by (rule sint_word_of_int_fits, simp add: fits_signed_def)+
  have "clamp_signed (word_of_int (- (2 ^ 63))) (word_of_int (2 ^ 63 - 1)) v =
      word_of_int (clamp_i64 (sint v))"
    unfolding clamp_signed_def lo hi clamp_i64_def by (auto simp: max_def min_def)
  then show ?thesis by (simp only:) (rule ucast_word_of_int, simp)
qed

lemma ntp_total:
  fixes s n :: u64
  shows "Option.bind (checked_mul_u s 1000000000) (\<lambda>ns. checked_add_u ns n) =
    (if unat s * 1000000000 + unat n < 2 ^ 64 then Some (s * 1000000000 + n) else None)"
  and "unat s * 1000000000 + unat n < 2 ^ 64 \<Longrightarrow>
    unat (s * 1000000000 + n) = unat s * 1000000000 + unat n"
proof -
  have m: "unat s * 1000000000 < 2 ^ 64 \<Longrightarrow> unat (s * 1000000000) = unat s * 1000000000"
    by (simp add: unat_word_ariths)
  then show "unat s * 1000000000 + unat n < 2 ^ 64 \<Longrightarrow>
      unat (s * 1000000000 + n) = unat s * 1000000000 + unat n"
    by (simp add: unat_word_ariths)
  show "Option.bind (checked_mul_u s 1000000000) (\<lambda>ns. checked_add_u ns n) =
    (if unat s * 1000000000 + unat n < 2 ^ 64 then Some (s * 1000000000 + n) else None)"
    using m by (auto simp: checked_mul_u_def checked_add_u_def checked_unsigned_def)
qed

lemma compute_offset_eq:
  assumes "system_time_ok now"
  shows "compute_offset s n now =
    (if 2 ^ 64 \<le> unat s * 1000000000 + unat n then Inl (GenericNetworkError ''NTP timestamp overflow'')
     else if now < 0 then Inl TimeWentBackwards
     else Inr (word_of_int (clamp_i64 (int (unat s * 1000000000 + unat n) - now))))"
proof -
  let ?ntp = "unat s * 1000000000 + unat n"
  consider "2 ^ 64 \<le> ?ntp" | "?ntp < 2 ^ 64" "now < 0" | "?ntp < 2 ^ 64" "0 \<le> now" by linarith
  then show ?thesis
  proof cases
    case 3
    let ?a = "ucast (s * 1000000000 + n) :: i128" and ?b = "of_nat (nat now) :: u128"
    have "nat now < 2 ^ 127" using assms 3(2) by (simp add: system_time_ok_def NANOS_def nat_less_iff)
    then have b: "unat ?b = nat now" by (simp add: unat_of_nat)
    have a: "unat ?a = ?ntp" using ntp_total(2)[OF 3(1)] 3(1)
      by (simp add: unsigned_ucast_eq take_bit_nat_eq_self)
    have lt: "unat ?a < 2 ^ 127" "unat ?b < 2 ^ 127"
      using a b 3(1) \<open>nat now < 2 ^ 127\<close> by simp_all
    have sub: "checked_sub_s ?a ?b = Some (?a - ?b)"
      by (rule checked_sub_s_nonneg(1)) (use lt in simp_all)
    have "sint (?a - ?b) = int (unat ?a) - int (unat ?b)"
      by (rule sint_sub_nonneg) (use lt in simp_all)
    then have "sint (?a - ?b) = int ?ntp - int (nat now)" unfolding a b .
    then have si: "sint (?a - ?b) = int ?ntp - now" using 3(2) by simp
    have "try_into_signed ?b = Some ?b" using lt(2) by (simp add: try_into_signed_def)
    with 3 sub have "compute_offset s n now = Inr (word_of_int (clamp_i64 (sint (?a - ?b))))"
      unfolding compute_offset_def ntp_total(1)
      by (simp add: duration_since_epoch_def ucast_capped[simplified] del: of_nat_nat)
    then show ?thesis using 3 unfolding si by simp
  qed (simp_all add: compute_offset_def ntp_total(1) duration_since_epoch_def)
qed

lemma sint_clamp_i64: "sint (word_of_int (clamp_i64 n) :: i64) = clamp_i64 n"
  by (rule sint_word_of_int_fits) (simp add: fits_signed_def clamp_i64_def)

lemma unat_unsigned_abs: "sint w < 0 \<Longrightarrow> int (unat (unsigned_abs w)) = - sint w"
proof -
  assume neg: "sint w < 0"
  have "- (2 ^ 63) \<le> sint w" using fits_signed_sint[of w] by (simp add: fits_signed_def)
  then have "uint (word_of_int (- sint w) :: 64 word) = - sint w"
    using neg by (subst unsigned_of_int) (simp add: take_bit_int_eq_self)
  moreover have "word_of_int (- sint w) = - w" by simp
  ultimately show ?thesis using neg by (simp add: unsigned_abs_def)
qed

lemma time_now_eq:
  "time_now oracle now =
     (if system_time_ok (now + sint (offset_nanos oracle)) then now + sint (offset_nanos oracle) else now)"
proof (cases "0 \<le> sint (offset_nanos oracle)")
  case True
  then show ?thesis by (simp add: time_now_def time_checked_add_def unat_eq_sint)
next
  case False
  then show ?thesis
    using unat_unsigned_abs[of "offset_nanos oracle"]
    by (simp add: time_now_def time_checked_sub_def Let_def)
qed

lemma ucast_32_64: "unat (ucast (w :: u32) :: u64) = unat w"
proof -
  have "unat w < 2 ^ 32" using unsigned_less[of w, where 'a=nat] by simp
  then show ?thesis by (simp add: unsigned_ucast_eq take_bit_nat_eq_self)
qed

lemma sync_once_ok:
  assumes "tick_ok tk"
  shows "sync_once frac sh a tk offset =
    Inr (case ntp_time frac tk of None \<Rightarrow> offset | Some t \<Rightarrow> word_of_int (clamp_i64 (t - tick_now tk)))"
proof (cases "tick_ntp tk")
  case (Inl e)
  with assms show ?thesis by (auto simp: tick_ok_def sync_once_def)
next
  case (Inr p)
  obtain sec fr where p: "p = (sec, fr)" by (cases p)
  have "unat sec < 2 ^ 32" "unat (frac fr) < 2 ^ 32"
    using unsigned_less[of sec, where 'a=nat] unsigned_less[of "frac fr", where 'a=nat] by simp_all
  then show ?thesis
    using assms Inr p
    by (auto simp: tick_ok_def sync_once_def compute_offset_eq ucast_32_64 NANOS_def)
qed

lemma sync_loop_ok:
  "list_all (tick_ok) tks \<Longrightarrow> sync_loop frac sh a tks offset = (None, last_sync frac tks offset)"
  by (induction tks arbitrary: offset) (simp_all add: sync_once_ok)

section \<open>Properties\<close>

text \<open>
  C22. The offset is the difference between NTP time and local time, saturated to an \<^verbatim>\<open>i64\<close>;
  an NTP time that does not fit in a \<^verbatim>\<open>u64\<close> of nanoseconds and a local clock before the
  epoch are errors. No step of the 64 and 128 bit computation wraps.
\<close>

theorem compute_offset_correct:
  assumes "system_time_ok local_now"
  shows "compute_offset ntp_secs ntp_nanos local_now =
    (let ntp = int (unat ntp_secs) * 1000000000 + int (unat ntp_nanos)
     in if 2 ^ 64 \<le> ntp then Inl (GenericNetworkError ''NTP timestamp overflow'')
        else if local_now < 0 then Inl TimeWentBackwards
        else Inr (word_of_int (max (- (2 ^ 63)) (min (2 ^ 63 - 1) (ntp - local_now)))))"
  using assms by (simp add: compute_offset_eq Let_def clamp_i64_def of_nat_le_iff[symmetric, where 'a=int] del: of_nat_le_iff)

theorem compute_offset_correct_witness:
  "compute_offset 100 5 (150 * NANOS) = Inr (word_of_int (- 49999999995))"
  using compute_offset_correct[of "150 * NANOS" 100 5]
  by (simp add: system_time_ok_def NANOS_def Let_def)

text \<open>
  A synchronised clock follows the NTP server: when the offset was computed from an NTP
  time at a local time, then \<open>elapsed\<close> local nanoseconds later the oracle tells the NTP
  time plus \<open>elapsed\<close>.
\<close>

lemma synced_clock_follows_ntp:
  assumes "compute_offset ntp_secs ntp_nanos at_sync = Inr offset"
    and "system_time_ok at_sync"
    and "ntp = int (unat ntp_secs) * 1000000000 + int (unat ntp_nanos)"
    and "- (2 ^ 63) \<le> ntp - at_sync" and "ntp - at_sync < 2 ^ 63"
    and "system_time_ok (ntp + elapsed)"
  shows "time_now \<lparr>offset_nanos = offset\<rparr> (at_sync + elapsed) = ntp + elapsed"
proof -
  have "offset = word_of_int (clamp_i64 (ntp - at_sync))"
    using assms(1-3) by (simp add: compute_offset_eq split: if_splits)
  then have "sint offset = ntp - at_sync"
    using assms(4,5) by (simp add: sint_clamp_i64) (simp add: clamp_i64_def)
  then have "at_sync + elapsed + sint offset = ntp + elapsed" by simp
  then show ?thesis using assms(6) unfolding time_now_eq TimeOracle.simps by (simp only: if_True)
qed

text \<open>
  C23. The worker survives outages: as long as names resolve and exchanges succeed or fail with
  a network or address error, it keeps running, and the shared offset is the one of the
  last exchange that succeeded (or the initial one).
\<close>

theorem sync_worker_survives_outages:
  assumes "list_all (tick_ok) ticks" and "udp_into_tokio net (listener worker) = Inr ()"
    and "0 < sync_interval worker"
  shows "start_syncing net frac show_addr worker ticks =
    Returns (None, last_sync frac ticks (worker_offset_nanos worker))"
  using assms by (simp add: start_syncing_def sync_loop_ok)

theorem sync_worker_survives_outages_witness:
  "start_syncing
     \<lparr>to_socket_addrs = \<lambda>_ _. Inr [], udp_bind = \<lambda>_. Inr (), udp_set_nonblocking = Inr,
      udp_into_tokio = Inr\<rparr> id (\<lambda>_. [])
     \<lparr>ntp_server_addr = \<lparr>addr_ip = V4 1, addr_port = 123\<rparr>, listener = (), sync_interval = 60,
      worker_offset_nanos = 0\<rparr>
     [\<lparr>tick_lookup = Inr [\<lparr>addr_ip = V4 1, addr_port = 123\<rparr>], tick_ntp = Inr (7, 0), tick_now = NANOS\<rparr>,
      \<lparr>tick_lookup = Inr [\<lparr>addr_ip = V4 1, addr_port = 123\<rparr>], tick_ntp = Inl Network, tick_now = 2 * NANOS\<rparr>] =
   Returns (None, word_of_int (6 * NANOS))"
  by (subst sync_worker_survives_outages)
    (simp_all add: tick_ok_def system_time_ok_def NANOS_def clamp_i64_def)

end
