(* ===== verification/Signer.thy ===== *)
theory Signer
  imports Protocol
begin

text \<open>
  The two signers of \<^verbatim>\<open>server/src/server.rs\<close>: the accelerated one calls the signing function in
  the task of the connection, the slow one runs it on a blocking thread. A panic of the
  signing function ends the task of the connection in the first case and becomes a join
  error in the second. \<open>spawn\<close> is the failure of the blocking task itself, if there is one.
\<close>

section \<open>Signers\<close>

datatype JoinError = TaskPanicked | TaskCancelled

datatype SignError = Crypto rsa_error | ThreadPanic JoinError

definition AcceleratedSigner_generate ::
    "('h, 'sk, 'pk) crypto \<Rightarrow> 'sk \<Rightarrow> Sha256Hash \<Rightarrow> Timestamp \<Rightarrow> (SignError + RsaSignature) outcome"
  where
  "AcceleratedSigner_generate cr signing_key hash_to_sign timestamp =
     (case sign_with_timestamp cr signing_key hash_to_sign timestamp of
        Panic \<Rightarrow> Panic
      | Returns r \<Rightarrow> Returns (map_err Crypto r))"

definition spawn_blocking :: "JoinError option \<Rightarrow> 'a outcome \<Rightarrow> JoinError + 'a" where
  "spawn_blocking spawn body =
     (case spawn of
        Some e \<Rightarrow> Inl e
      | None \<Rightarrow> (case body of Panic \<Rightarrow> Inl TaskPanicked | Returns a \<Rightarrow> Inr a))"

definition SlowSigner_generate ::
    "('h, 'sk, 'pk) crypto \<Rightarrow> JoinError option \<Rightarrow> 'sk \<Rightarrow> Sha256Hash \<Rightarrow> Timestamp
     \<Rightarrow> (SignError + RsaSignature) outcome"
  where
  "SlowSigner_generate cr spawn signing_key hash_to_sign timestamp =
     Returns (result_bind
       (map_err ThreadPanic
         (spawn_blocking spawn (sign_with_timestamp cr signing_key hash_to_sign timestamp)))
       (\<lambda>task_result. map_err Crypto task_result))"

datatype Signer = AcceleratedSigner | SlowSigner

text \<open>The trait method, dispatched on the signer of the server state.\<close>

fun generate_timestamp_signature ::
    "('h, 'sk, 'pk) crypto \<Rightarrow> JoinError option \<Rightarrow> Signer \<Rightarrow> 'sk \<Rightarrow> Sha256Hash \<Rightarrow> Timestamp
     \<Rightarrow> (SignError + RsaSignature) outcome"
  where
  "generate_timestamp_signature cr spawn AcceleratedSigner sk h t =
     AcceleratedSigner_generate cr sk h t"
| "generate_timestamp_signature cr spawn SlowSigner sk h t = SlowSigner_generate cr spawn sk h t"

section \<open>Interface: signers\<close>

text \<open>
  What the connection handler relies on, whichever signer the configuration chose: a
  signature it gets is one the signing function returned, and a failure of the signing
  function is reported as an error, never as a signature.
\<close>

locale timestamp_signer =
  fixes cr :: "('h, 'sk, 'pk) crypto"
    and gen :: "'sk \<Rightarrow> Sha256Hash \<Rightarrow> Timestamp \<Rightarrow> (SignError + RsaSignature) outcome"
  assumes gen_sound: "gen sk h t = Returns (Inr s) \<Longrightarrow> sign_with_timestamp cr sk h t = Returns (Inr s)"
    and gen_crypto: "gen sk h t = Returns (Inl (Crypto e)) \<Longrightarrow>
      sign_with_timestamp cr sk h t = Returns (Inl e)"
begin

lemma issued_wf: "gen sk h t = Returns (Inr s) \<Longrightarrow> wf_signature s"
  using gen_sound by (blast dest: sign_with_timestamp_wf)

lemma issued_verifies:
  "rsa_correct cr sk pk \<Longrightarrow> gen sk h t = Returns (Inr s) \<Longrightarrow>
   verify_timestamp_signature cr pk h t s = Inr ()"
  using gen_sound by (blast intro: sign_then_verify)

end

interpretation accelerated: timestamp_signer cr "AcceleratedSigner_generate cr" for cr
  by unfold_locales
    (auto simp: AcceleratedSigner_generate_def map_err_def split: outcome.splits sum.splits)

interpretation slow: timestamp_signer cr "SlowSigner_generate cr spawn" for cr spawn
  by unfold_locales
    (auto simp: SlowSigner_generate_def spawn_blocking_def map_err_def
      split: outcome.splits sum.splits option.splits)

interpretation any_signer: timestamp_signer cr "generate_timestamp_signature cr spawn signer"
  for cr spawn signer
  by (cases signer; unfold_locales)
    (auto intro: accelerated.gen_sound slow.gen_sound accelerated.gen_crypto slow.gen_crypto)

section \<open>Properties\<close>

text \<open>
  The signers differ only in how they fail: the slow signer never panics; where the
  signing function panics the accelerated signer panics too and the slow one reports a
  join error; where it returns and the blocking task is not cancelled, both give the same
  result.
\<close>

lemma signers_agree:
  "SlowSigner_generate cr spawn sk h t \<noteq> Panic \<and>
   (sign_with_timestamp cr sk h t = Panic \<longrightarrow>
      AcceleratedSigner_generate cr sk h t = Panic \<and>
      SlowSigner_generate cr None sk h t = Returns (Inl (ThreadPanic TaskPanicked))) \<and>
   (sign_with_timestamp cr sk h t \<noteq> Panic \<longrightarrow>
      SlowSigner_generate cr None sk h t = AcceleratedSigner_generate cr sk h t)"
  by (auto simp: SlowSigner_generate_def AcceleratedSigner_generate_def spawn_blocking_def
      split: outcome.splits)

end
