(* ===== verification/Connection_Handler.thy ===== *)
theory Connection_Handler
  imports Database Time_Oracle Signer
begin

text \<open>
  The task that serves one connection, \<^verbatim>\<open>server/src/connection_handler.rs\<close>. All tasks share
  the state: the tables, the set of logged users, the cancellation token and the clock
  offset. One round of a loop (a request and its reply) takes a \<open>round\<close>: what the stream
  and the operating system answer in that round, and \<open>rd_env\<close>, what the other tasks do to
  the shared state before each access of this one. Every access (a database call, an
  insertion into or a removal from the set of logged users) is one atomic action. Log
  messages are left out.
\<close>

section \<open>State\<close>

record 'sk STSServerState =
  st_database :: ServerDb
  st_cancel_token :: bool
  st_logged_users :: "string set"
  st_signing_key :: 'sk
  st_time_oracle :: TimeOracle
  st_signer :: Signer

record 'sk STSServerStateBuilder =
  sb_database :: ServerDb
  sb_cancel_token :: bool
  sb_logged_users :: "string set"
  sb_signing_key :: 'sk
  sb_time_oracle :: TimeOracle

definition from_bundle :: "ServerDb \<Rightarrow> bool \<Rightarrow> 'sk \<Rightarrow> TimeOracle \<Rightarrow> 'sk STSServerStateBuilder" where
  "from_bundle database cancel_token signing_key time_oracle =
     \<lparr>sb_database = database, sb_cancel_token = cancel_token, sb_logged_users = {},
      sb_signing_key = signing_key, sb_time_oracle = time_oracle\<rparr>"

definition get_accelerated_build :: "'sk STSServerStateBuilder \<Rightarrow> 'sk STSServerState" where
  "get_accelerated_build b =
     \<lparr>st_database = sb_database b, st_cancel_token = sb_cancel_token b,
      st_logged_users = sb_logged_users b, st_signing_key = sb_signing_key b,
      st_time_oracle = sb_time_oracle b, st_signer = AcceleratedSigner\<rparr>"

definition get_slow_build :: "'sk STSServerStateBuilder \<Rightarrow> 'sk STSServerState" where
  "get_slow_build b =
     \<lparr>st_database = sb_database b, st_cancel_token = sb_cancel_token b,
      st_logged_users = sb_logged_users b, st_signing_key = sb_signing_key b,
      st_time_oracle = sb_time_oracle b, st_signer = SlowSigner\<rparr>"

section \<open>Errors and reasons\<close>

datatype ClosedStreamReason = InterruptReceived | ClientAsked

datatype FramingError = SizeSmashing SocketAddr nat | Generic SocketAddr string

datatype NetworkError =
    ConnectionDropped
  | ServerNetworkDown
  | Generic io_error
  | Framing SocketAddr FramingError
  | Deserialize DeserializeError

datatype InternalError =
    Database InternalDataBaseError
  | UserShouldExistButWasNotFound
  | ClockStaggered
  | IntegrityViolation string
  | Serialize SerializeError

datatype HandlerError = Network NetworkError | Domain "string option" InternalError

datatype ClosedSessionReason = ClosedStream ClosedStreamReason | LoggedOut

record Session =
  se_address :: SocketAddr
  se_username :: string

definition Session_bundle :: "SocketAddr \<Rightarrow> string \<Rightarrow> Session" where
  "Session_bundle address username = \<lparr>se_address = address, se_username = username\<rparr>"

section \<open>Inputs of a round\<close>

text \<open>The crates and the printing of addresses the handler calls.\<close>

record ('h, 'sk, 'pk, 'ph) crates =
  c_crypto :: "('h, 'sk, 'pk) crypto"
  c_argon2 :: "'ph argon2"
  c_hex :: hex_crate
  c_wincode :: wincode
  c_show_ip :: "IpAddr \<Rightarrow> string"
  c_max_frame :: nat

text \<open>Which branch of \<^verbatim>\<open>tokio::select!\<close> completes, and with what.\<close>

datatype select_event = StreamNext "(io_error + byte list) option" | Cancelled

record 'sk round =
  rd_env :: "nat \<Rightarrow> 'sk STSServerState \<Rightarrow> 'sk STSServerState"
  rd_select :: select_event
  rd_sql :: "nat \<Rightarrow> sql_io"
  rd_salt :: string
  rd_now :: system_time
  rd_spawn :: "JoinError option"
  rd_send :: "io_error option"

section \<open>Stream helpers\<close>

definition send_error_logger :: "io_error \<Rightarrow> SocketAddr \<Rightarrow> NetworkError + unit" where
  "send_error_logger send_err address =
     (case io_kind send_err of
        BrokenPipe \<Rightarrow> Inl ConnectionDropped
      | ConnectionReset \<Rightarrow> Inl ConnectionDropped
      | ConnectionAborted \<Rightarrow> Inl ConnectionDropped
      | TimedOut \<Rightarrow> Inl ConnectionDropped
      | NetworkDown \<Rightarrow> Inl ServerNetworkDown
      | _ \<Rightarrow> Inl (NetworkError.Generic send_err))"

definition fetch_next_request ::
    "wincode \<Rightarrow> nat \<Rightarrow> select_event \<Rightarrow> SocketAddr \<Rightarrow> NetworkError + Request option" where
  "fetch_next_request w max_frame_length event address =
     (case event of
        Cancelled \<Rightarrow> Inr None
      | StreamNext None \<Rightarrow> Inr None
      | StreamNext (Some (Inl e)) \<Rightarrow>
          (case io_kind e of
             ConnectionReset \<Rightarrow> Inl ConnectionDropped
           | BrokenPipe \<Rightarrow> Inl ConnectionDropped
           | UnexpectedEof \<Rightarrow> Inl ConnectionDropped
           | InvalidData \<Rightarrow> Inl (Framing address (SizeSmashing address max_frame_length))
           | _ \<Rightarrow> Inl (Framing address (FramingError.Generic address (io_text e))))
      | StreamNext (Some (Inr raw_message)) \<Rightarrow>
          map_err Deserialize (result_bind (Request_deserialize w raw_message) (\<lambda>r. Inr (Some r))))"

definition credentials_length_error :: "string \<Rightarrow> string \<Rightarrow> string option" where
  "credentials_length_error username password =
     (if \<not> is_username_length_valid username
      then Some (''Username is too long. Maximum allowed length is '' @
                 show_nat MAX_USERNAME_LEN @ '' characters.'')
      else if \<not> is_password_length_valid password
      then Some (''Password is too long. Maximum allowed length is '' @
                 show_nat MAX_PASSWORD_LEN @ '' characters.'')
      else None)"

text \<open>\<^verbatim>\<open>None\<close> of \<^verbatim>\<open>fetch_next_request\<close>: the reason is read off the token.\<close>

definition closed_reason :: "'sk STSServerState \<Rightarrow> ClosedStreamReason" where
  "closed_reason st = (if st_cancel_token st then InterruptReceived else ClientAsked)"

text \<open>Serialising and sending a response, at the end of both loops.\<close>

definition send_response ::
    "wincode \<Rightarrow> SocketAddr \<Rightarrow> io_error option \<Rightarrow> Response \<Rightarrow> HandlerError + unit" where
  "send_response w address send response =
     (case Response_serialize w response of
        Inl e \<Rightarrow> Inl (Domain None (Serialize e))
      | Inr _ \<Rightarrow>
          (case send of
             None \<Rightarrow> Inr ()
           | Some send_err \<Rightarrow> map_err HandlerError.Network (send_error_logger send_err address)))"

section \<open>Requests of a logged user\<close>

text \<open>
  The \<^verbatim>\<open>match request\<close> of \<^verbatim>\<open>session_handler\<close>: the response and whether to log out, or an
  early return with an error, and the state. The branches with several statements are
  definitions of their own.
\<close>

definition session_sign_hash ::
    "('h, 'sk, 'pk, 'ph) crates \<Rightarrow> Session \<Rightarrow> 'sk round \<Rightarrow> 'sk STSServerState \<Rightarrow> Sha256Hash
     \<Rightarrow> (HandlerError + Response \<times> bool) outcome \<times> 'sk STSServerState" where
  "session_sign_hash c session rd st raw_hash =
     (let username = se_username session; st = rd_env rd 1 st
      in case subtract_user_tokens (rd_sql rd 0) (st_database st) username 1 of
           (Inl e, db) \<Rightarrow>
             (Returns (case e of
                InsufficientTokens \<Rightarrow> Inr (NotEnoughTokens, False)
              | SubtractTokensError.UserDoesNotExist \<Rightarrow>
                  Inl (Domain (Some username) UserShouldExistButWasNotFound)
              | SubtractTokensError.InternalDataBase e \<Rightarrow>
                  Inl (Domain (Some username) (InternalError.Database e))),
              st\<lparr>st_database := db\<rparr>)
         | (Inr _, db) \<Rightarrow>
             (let st = rd_env rd 2 (st\<lparr>st_database := db\<rparr>)
              in case duration_since_epoch (time_now (st_time_oracle st) (rd_now rd)) of
                   None \<Rightarrow> (Returns (Inl (Domain (Some username) ClockStaggered)), st)
                 | Some ts \<Rightarrow>
             (let timestamp = Timestamp_new (of_nat ts)
              in case generate_timestamp_signature (c_crypto c) (rd_spawn rd) (st_signer st)
                        (st_signing_key st) raw_hash timestamp of
                   Panic \<Rightarrow> (Panic, st)
                 | Returns (Inr sign) \<Rightarrow>
                     (let st = rd_env rd 3 st
                      in case add_user_record (rd_sql rd 1) (st_database st) username timestamp sign of
                           (Inl AddRecordError.UserDoesNotExist, db) \<Rightarrow>
                             (Returns (Inl (Domain (Some username) UserShouldExistButWasNotFound)),
                              st\<lparr>st_database := db\<rparr>)
                         | (Inl (AddRecordError.InternalDataBase e), db) \<Rightarrow>
                             (Returns (Inl (Domain (Some username) (InternalError.Database e))),
                              st\<lparr>st_database := db\<rparr>)
                         | (Inr _, db) \<Rightarrow>
                             (Returns (Inr (Token raw_hash sign timestamp, False)),
                              st\<lparr>st_database := db\<rparr>))
                 | Returns (Inl _) \<Rightarrow>
                     (let st = rd_env rd 3 st;
                          (_, db) = add_user_tokens (rd_sql rd 1) (st_database st) username 1
                      in (Returns (Inr (OperationError ''Error while performing the operation.'', False)),
                          st\<lparr>st_database := db\<rparr>)))))"

definition session_purchase ::
    "Session \<Rightarrow> 'sk round \<Rightarrow> 'sk STSServerState \<Rightarrow> u64
     \<Rightarrow> (HandlerError + Response \<times> bool) outcome \<times> 'sk STSServerState" where
  "session_purchase session rd st tokens =
     (let username = se_username session; st = rd_env rd 1 st;
          (result, db) = add_user_tokens (rd_sql rd 0) (st_database st) username tokens
      in (Returns (case result of
            Inr new_token_count \<Rightarrow> Inr (TokenCount new_token_count, False)
          | Inl TokenOverflow \<Rightarrow> Inr (TokenAmountTooHigh, False)
          | Inl AddTokensError.UserDoesNotExist \<Rightarrow>
              Inl (Domain (Some username) UserShouldExistButWasNotFound)
          | Inl (AddTokensError.InternalDataBase e) \<Rightarrow>
              Inl (Domain (Some username) (InternalError.Database e))),
          st\<lparr>st_database := db\<rparr>))"

definition session_token_count ::
    "Session \<Rightarrow> 'sk round \<Rightarrow> 'sk STSServerState
     \<Rightarrow> (HandlerError + Response \<times> bool) outcome \<times> 'sk STSServerState" where
  "session_token_count session rd st =
     (let username = se_username session; st = rd_env rd 1 st
      in (Returns (case get_user_tokens (rd_sql rd 0) (st_database st) username of
            Inr n_tokens \<Rightarrow> Inr (TokenCount n_tokens, False)
          | Inl GetTokensError.UserDoesNotExist \<Rightarrow>
              Inl (Domain (Some username) UserShouldExistButWasNotFound)
          | Inl (TokenIntegrityCheckViolated user amount) \<Rightarrow>
              Inl (Domain (Some username) (IntegrityViolation
                (''invalid token amount for user '' @ user @ '': '' @ show_int (sint amount))))
          | Inl (GetTokensError.InternalDataBase e) \<Rightarrow>
              Inl (Domain (Some username) (InternalError.Database e))), st))"

definition session_history ::
    "('h, 'sk, 'pk, 'ph) crates \<Rightarrow> Session \<Rightarrow> 'sk round \<Rightarrow> 'sk STSServerState
     \<Rightarrow> (HandlerError + Response \<times> bool) outcome \<times> 'sk STSServerState" where
  "session_history c session rd st =
     (let username = se_username session; st = rd_env rd 1 st
      in (Returns (case get_user_history (c_hex c) (rd_sql rd 0) (st_database st) username of
            Inr history \<Rightarrow> Inr (Response.History history, False)
          | Inl UserHistoryError.UserDoesNotExist \<Rightarrow>
              Inl (Domain (Some username) UserShouldExistButWasNotFound)
          | Inl (TimestampIntegrityViolated token) \<Rightarrow>
              Inl (Domain (Some username) (IntegrityViolation (''invalid timestamp of '' @ token)))
          | Inl (HashIntegrityViolated hash) \<Rightarrow>
              Inl (Domain (Some username) (IntegrityViolation (''invalid hash: '' @ hash)))
          | Inl (UserHistoryError.InternalDataBase e) \<Rightarrow>
              Inl (Domain (Some username) (InternalError.Database e))), st))"

fun session_request ::
    "('h, 'sk, 'pk, 'ph) crates \<Rightarrow> Session \<Rightarrow> 'sk round \<Rightarrow> 'sk STSServerState \<Rightarrow> Request
     \<Rightarrow> (HandlerError + Response \<times> bool) outcome \<times> 'sk STSServerState" where
  "session_request c session rd st (Login _ _) =
     (Returns (Inr (LoginFailed LoginError.AlreadyLoggedIn, False)), st)"
| "session_request c session rd st (SignUp _ _) =
     (Returns (Inr (SignInFailed SignInError.AlreadyLoggedIn, False)), st)"
| "session_request c session rd st LogOut = (Returns (Inr (Ok, True)), st)"
| "session_request c session rd st (SignHash raw_hash) = session_sign_hash c session rd st raw_hash"
| "session_request c session rd st (PurchaseTokens tokens) = session_purchase session rd st tokens"
| "session_request c session rd st HowManyTokensDoIHave = session_token_count session rd st"
| "session_request c session rd st Request.History = session_history c session rd st"

text \<open>
  A loop over the rounds given so far: it has returned (with the rounds it did not use), it
  waits for more, or the task panicked. The responses sent are collected. When a session has
  ended, the other tasks may still act before the caller removes the name of its user: this is
  the last interference of its last round.
\<close>

datatype ('r, 'd) run = Finished 'r "'d list" | Waiting | Panicked

fun session_handler ::
    "('h, 'sk, 'pk, 'ph) crates \<Rightarrow> Session \<Rightarrow> 'sk round list \<Rightarrow> 'sk STSServerState
     \<Rightarrow> (HandlerError + ClosedSessionReason, 'sk round) run \<times> 'sk STSServerState \<times> Response list" where
  "session_handler c session [] st = (Waiting, st, [])"
| "session_handler c session (rd # rds) st =
     (let st = rd_env rd 0 st
      in case fetch_next_request (c_wincode c) (c_max_frame c) (rd_select rd) (se_address session) of
           Inl e \<Rightarrow> (Finished (Inl (HandlerError.Network e)) rds, rd_env rd 5 st, [])
         | Inr None \<Rightarrow> (Finished (Inr (ClosedStream (closed_reason st))) rds, rd_env rd 5 st, [])
         | Inr (Some request) \<Rightarrow>
      (case session_request c session rd st request of
         (Panic, st) \<Rightarrow> (Panicked, st, [])
       | (Returns (Inl e), st) \<Rightarrow> (Finished (Inl e) rds, rd_env rd 5 st, [])
       | (Returns (Inr (response, has_to_logout)), st) \<Rightarrow>
      (let st = rd_env rd 4 st
       in case send_response (c_wincode c) (se_address session) (rd_send rd) response of
            Inl e \<Rightarrow> (Finished (Inl e) rds, rd_env rd 5 st, [])
          | Inr _ \<Rightarrow>
              (if has_to_logout then (Finished (Inr LoggedOut) rds, rd_env rd 5 st, [response])
               else let (result, st, sent) = session_handler c session rds st
                    in (result, st, response # sent)))))"

section \<open>Requests of a user that is not logged in\<close>

definition untrusted_login ::
    "('h, 'sk, 'pk, 'ph) crates \<Rightarrow> SocketAddr \<Rightarrow> 'sk round \<Rightarrow> 'sk STSServerState \<Rightarrow> string \<Rightarrow> string
     \<Rightarrow> (HandlerError + Response \<times> Session option) \<times> 'sk STSServerState" where
  "untrusted_login c address rd st username password =
     (case credentials_length_error username password of
        Some reason \<Rightarrow> (Inr (LoginFailed InvalidCredentials, None), st)
      | None \<Rightarrow>
          (let st = rd_env rd 1 st
           in case verify_user_password (c_argon2 c) (rd_sql rd 0) (st_database st) username password of
                Inr _ \<Rightarrow>
                  (let st = rd_env rd 2 st
                   in if username \<notin> st_logged_users st
                      then (Inr (Ok, Some (Session_bundle address username)),
                            st\<lparr>st_logged_users := insert username (st_logged_users st)\<rparr>)
                      else (Inr (LoginFailed LoginError.AlreadyLoggedIn, None), st))
              | Inl (UserNotFound _) \<Rightarrow> (Inr (LoginFailed InvalidCredentials, None), st)
              | Inl InvalidPassword \<Rightarrow> (Inr (LoginFailed InvalidCredentials, None), st)
              | Inl (AuthenticationError.InternalDataBase e) \<Rightarrow>
                  (Inl (Domain None (InternalError.Database e)), st)))"

definition untrusted_sign_up ::
    "('h, 'sk, 'pk, 'ph) crates \<Rightarrow> SocketAddr \<Rightarrow> 'sk round \<Rightarrow> 'sk STSServerState \<Rightarrow> string \<Rightarrow> string
     \<Rightarrow> (HandlerError + Response \<times> Session option) \<times> 'sk STSServerState" where
  "untrusted_sign_up c address rd st username password =
     (case credentials_length_error username password of
        Some reason \<Rightarrow> (Inr (OperationError reason, None), st)
      | None \<Rightarrow>
          (let st = rd_env rd 1 st;
               (result, db) = try_register_user (c_argon2 c) (rd_sql rd 0) (rd_salt rd) (st_database st)
                                username password (c_show_ip c (addr_ip address))
           in (case result of
                 Inr _ \<Rightarrow> Inr (Ok, None)
               | Inl (RegistrationError.InternalDataBase e) \<Rightarrow>
                   Inl (Domain None (InternalError.Database e))
               | Inl (UserAlreadyExists _) \<Rightarrow> Inr (SignInFailed UsernameAlreadyTaken, None),
               st\<lparr>st_database := db\<rparr>)))"

fun untrusted_request ::
    "('h, 'sk, 'pk, 'ph) crates \<Rightarrow> SocketAddr \<Rightarrow> 'sk round \<Rightarrow> 'sk STSServerState \<Rightarrow> Request
     \<Rightarrow> (HandlerError + Response \<times> Session option) \<times> 'sk STSServerState" where
  "untrusted_request c address rd st (Login username password) =
     untrusted_login c address rd st username password"
| "untrusted_request c address rd st (SignUp username password) =
     untrusted_sign_up c address rd st username password"
| "untrusted_request c address rd st _ = (Inr (NotLoggedIn, None), st)"

definition logged_users_remove :: "string \<Rightarrow> 'sk STSServerState \<Rightarrow> 'sk STSServerState" where
  "logged_users_remove username st = st\<lparr>st_logged_users := st_logged_users st - {username}\<rparr>"

lemma session_handler_rest:
  "session_handler c session rds st = (Finished r rest, st', sent) \<Longrightarrow> length rest \<le> length rds"
proof (induction rds arbitrary: st sent)
  case (Cons rd rds)
  from Cons.prems show ?case
    by (auto simp: Let_def split: sum.splits option.splits prod.splits outcome.splits if_splits
        dest!: Cons.IH)
qed simp

function conn_handler_core ::
    "('h, 'sk, 'pk, 'ph) crates \<Rightarrow> SocketAddr \<Rightarrow> 'sk round list \<Rightarrow> 'sk STSServerState
     \<Rightarrow> (HandlerError + ClosedStreamReason, 'sk round) run \<times> 'sk STSServerState \<times> Response list" where
  "conn_handler_core c address [] st = (Waiting, st, [])"
| "conn_handler_core c address (rd # rds) st =
     (let st = rd_env rd 0 st
      in case fetch_next_request (c_wincode c) (c_max_frame c) (rd_select rd) address of
           Inl e \<Rightarrow> (Finished (Inl (HandlerError.Network e)) rds, st, [])
         | Inr None \<Rightarrow> (Finished (Inr (closed_reason st)) rds, st, [])
         | Inr (Some request) \<Rightarrow>
      (case untrusted_request c address rd st request of
         (Inl e, st) \<Rightarrow> (Finished (Inl e) rds, st, [])
       | (Inr (response, started_session), st) \<Rightarrow>
      (let st = rd_env rd 4 st
       in case send_response (c_wincode c) address (rd_send rd) response of
            Inl e \<Rightarrow> (Finished (Inl e) rds, st, [])
          | Inr _ \<Rightarrow>
      (case started_session of
         None \<Rightarrow>
           (let (result, st, sent) = conn_handler_core c address rds st
            in (result, st, response # sent))
       | Some session \<Rightarrow>
      (case session_handler c session rds st of
         (Waiting, st, sent) \<Rightarrow> (Waiting, st, response # sent)
       | (Panicked, st, sent) \<Rightarrow> (Panicked, st, response # sent)
       | (Finished (Inl e) rest, st, sent) \<Rightarrow>
           (Finished (Inl e) rest, logged_users_remove (se_username session) st, response # sent)
       | (Finished (Inr LoggedOut) rest, st, sent) \<Rightarrow>
           (let (result, st, sent') =
                  conn_handler_core c address rest (logged_users_remove (se_username session) st)
            in (result, st, response # sent @ sent'))
       | (Finished (Inr (ClosedStream reason)) rest, st, sent) \<Rightarrow>
           (Finished (Inr reason) rest, logged_users_remove (se_username session) st,
            response # sent))))))"
  by pat_completeness auto
termination
  by (relation "measure (\<lambda>(c, a, rds, st). length rds)")
    (auto dest!: session_handler_rest[OF sym])

definition conn_handler ::
    "('h, 'sk, 'pk, 'ph) crates \<Rightarrow> SocketAddr \<Rightarrow> 'sk round list \<Rightarrow> 'sk STSServerState
     \<Rightarrow> (HandlerError + ClosedStreamReason, 'sk round) run \<times> 'sk STSServerState \<times> Response list" where
  "conn_handler c address rds st = conn_handler_core c address rds st"

end
