(* ===== verification/Handler_Invariants.thy ===== *)
theory Handler_Invariants
  imports Connection_Handler
begin

text \<open>
  What one connection may do to the shared state, whatever the others do meanwhile. The
  actions of the server are one relation, \<open>server_act\<close>: a database operation, a login of an
  existing user that is not logged in, a logout, a cancellation, a clock update. When the
  other tasks only perform such actions, so does a connection handler, from its first
  round to its end; the invariants of the relation are invariants of the server.
\<close>

section \<open>Actions and invariant\<close>

inductive server_act ::
    "('h, 'sk, 'pk, 'ph) crates \<Rightarrow> 'sk STSServerState \<Rightarrow> 'sk STSServerState \<Rightarrow> bool" for c where
  act_database: "db_step (c_argon2 c) (st_database st) db \<Longrightarrow> server_act c st (st\<lparr>st_database := db\<rparr>)"
| act_login: "find_user (st_database st) u \<noteq> None \<Longrightarrow> u \<notin> st_logged_users st \<Longrightarrow>
    server_act c st (st\<lparr>st_logged_users := insert u (st_logged_users st)\<rparr>)"
| act_logout: "server_act c st (logged_users_remove u st)"
| act_cancel: "server_act c st (st\<lparr>st_cancel_token := True\<rparr>)"
| act_sync: "server_act c st (st\<lparr>st_time_oracle := \<lparr>offset_nanos = n\<rparr>\<rparr>)"

definition env_ok :: "('h, 'sk, 'pk, 'ph) crates \<Rightarrow> 'sk round \<Rightarrow> bool" where
  "env_ok c rd \<longleftrightarrow> (\<forall>i st. (server_act c)\<^sup>*\<^sup>* st (rd_env rd i st))"

definition server_inv :: "'sk STSServerState \<Rightarrow> bool" where
  "server_inv st \<longleftrightarrow> db_inv (st_database st) \<and>
     (\<forall>u \<in> st_logged_users st. find_user (st_database st) u \<noteq> None)"

definition initial_state :: "'sk STSServerState \<Rightarrow> bool" where
  "initial_state st \<longleftrightarrow> db_inv (st_database st) \<and> st_logged_users st = {}"

section \<open>Actions keep the invariant\<close>

lemma server_act_inv:
  assumes "server_act c s t" and "server_inv s"
  shows "server_inv t"
  using assms(1)
proof (cases rule: server_act.cases)
  case (act_database db)
  have "db_inv db" using act_database(2) assms(2) by (auto simp: server_inv_def intro: db_sys.step_inv)
  moreover have "find_user db u \<noteq> None" if "u \<in> st_logged_users s" for u
    using db_step_find_user[OF act_database(2)] assms(2) that unfolding server_inv_def by blast
  ultimately show ?thesis using act_database(1) by (simp add: server_inv_def)
qed (use assms(2) in \<open>auto simp: server_inv_def logged_users_remove_def\<close>)

interpretation server_sys: invariant_system initial_state "server_act c" server_inv for c
  by unfold_locales (auto simp: initial_state_def server_inv_def dest: server_act_inv)

lemma server_act_find_user:
  "server_act c s t \<Longrightarrow> server_inv s \<Longrightarrow> find_user (st_database s) u \<noteq> None \<Longrightarrow>
   find_user (st_database t) u \<noteq> None"
  by (cases rule: server_act.cases, assumption)
    (auto simp: server_inv_def logged_users_remove_def dest: db_step_find_user)

lemma acts_env: "env_ok c rd \<Longrightarrow> (server_act c)\<^sup>*\<^sup>* s t \<Longrightarrow> (server_act c)\<^sup>*\<^sup>* s (rd_env rd i t)"
  unfolding env_ok_def by (meson rtranclp_trans)

lemma acts_db:
  "(server_act c)\<^sup>*\<^sup>* s t \<Longrightarrow> db_step (c_argon2 c) (st_database t) db \<Longrightarrow>
   (server_act c)\<^sup>*\<^sup>* s (t\<lparr>st_database := db\<rparr>)"
  by (blast intro: rtranclp.rtrancl_into_rtrancl act_database)

lemma acts_charge:
  "(server_act c)\<^sup>*\<^sup>* s t \<Longrightarrow> subtract_user_tokens io (st_database t) u n = (r, db) \<Longrightarrow>
   (server_act c)\<^sup>*\<^sup>* s (t\<lparr>st_database := db\<rparr>)"
  using db_step.charge[of "c_argon2 c" "st_database t" io u n] by (simp add: acts_db)

lemma acts_credit:
  "(server_act c)\<^sup>*\<^sup>* s t \<Longrightarrow> add_user_tokens io (st_database t) u n = (r, db) \<Longrightarrow>
   (server_act c)\<^sup>*\<^sup>* s (t\<lparr>st_database := db\<rparr>)"
  using db_step.credit[of "c_argon2 c" "st_database t" io u n] by (simp add: acts_db)

lemma acts_log:
  "(server_act c)\<^sup>*\<^sup>* s t \<Longrightarrow> add_user_record io (st_database t) u ts sign = (r, db) \<Longrightarrow> wf_signature sign \<Longrightarrow>
   (server_act c)\<^sup>*\<^sup>* s (t\<lparr>st_database := db\<rparr>)"
  using db_step.log[of sign "c_argon2 c" "st_database t" io u ts] by (simp add: acts_db)

lemma acts_register:
  "(server_act c)\<^sup>*\<^sup>* s t \<Longrightarrow> try_register_user (c_argon2 c) io salt (st_database t) u pw ip = (r, db) \<Longrightarrow>
   (server_act c)\<^sup>*\<^sup>* s (t\<lparr>st_database := db\<rparr>)"
  using db_step.register[of "c_argon2 c" "st_database t" io salt u pw ip] by (simp add: acts_db)

lemma acts_logout: "(server_act c)\<^sup>*\<^sup>* s t \<Longrightarrow> (server_act c)\<^sup>*\<^sup>* s (logged_users_remove u t)"
  by (blast intro: rtranclp.rtrancl_into_rtrancl act_logout)

lemma acts_inv: "(server_act c)\<^sup>*\<^sup>* s t \<Longrightarrow> server_inv s \<Longrightarrow> server_inv t"
  by (rule server_sys.steps_inv)

lemma acts_find_user:
  "(server_act c)\<^sup>*\<^sup>* s t \<Longrightarrow> server_inv s \<Longrightarrow> find_user (st_database s) u \<noteq> None \<Longrightarrow>
   find_user (st_database t) u \<noteq> None"
proof (induction rule: rtranclp_induct)
  case (step y z)
  then show ?case using acts_inv[OF step(1)] server_act_find_user[OF step(2)] by blast
qed simp

lemma acts_key: "(server_act c)\<^sup>*\<^sup>* s t \<Longrightarrow> st_signing_key t = st_signing_key s \<and> st_signer t = st_signer s"
proof (induction rule: rtranclp_induct)
  case (step y z)
  from step(2,3) show ?case by (cases rule: server_act.cases) (auto simp: logged_users_remove_def)
qed simp

lemma env_key: "env_ok c rd \<Longrightarrow> st_signing_key (rd_env rd i s) = st_signing_key s"
  using acts_key[OF acts_env[OF _ rtranclp.rtrancl_refl]] by blast

lemma acts_user:
  assumes "env_ok c rd" and "server_inv s" and "find_user (st_database s) u \<noteq> None"
  shows "server_inv (rd_env rd i s) \<and> find_user (st_database (rd_env rd i s)) u \<noteq> None"
  using acts_find_user[OF acts_env[OF assms(1) rtranclp.rtrancl_refl] assms(2,3)]
    acts_inv[OF acts_env[OF assms(1) rtranclp.rtrancl_refl] assms(2)] by blast

section \<open>The handlers perform only actions\<close>

lemma session_sign_hash_acts:
  assumes "env_ok c rd"
  shows "(server_act c)\<^sup>*\<^sup>* st (snd (session_sign_hash c se rd st h))"
  using assms unfolding session_sign_hash_def
  by (auto simp: Let_def split: prod.splits sum.splits option.splits outcome.splits AddRecordError.splits
      intro!: acts_env intro: acts_charge acts_credit acts_log any_signer.issued_wf)

lemma session_purchase_acts:
  assumes "env_ok c rd"
  shows "(server_act c)\<^sup>*\<^sup>* st (snd (session_purchase se rd st n))"
  using assms unfolding session_purchase_def
  by (auto simp: Let_def split: prod.splits intro!: acts_env intro: acts_credit)

lemma session_request_acts:
  assumes "env_ok c rd"
  shows "(server_act c)\<^sup>*\<^sup>* st (snd (session_request c se rd st req))"
  using assms
  by (cases req) (simp_all add: session_sign_hash_acts session_purchase_acts session_token_count_def
      session_history_def acts_env Let_def)

lemma session_handler_acts:
  assumes "\<forall>rd \<in> set rds. env_ok c rd" and "session_handler c se rds st = (r, st', sent)"
  shows "(server_act c)\<^sup>*\<^sup>* st st'"
  using assms
proof (induction rds arbitrary: st sent)
  case (Cons rd rds)
  have env: "env_ok c rd" using Cons.prems(1) by simp
  let ?st0 = "rd_env rd 0 st"
  have e0: "(server_act c)\<^sup>*\<^sup>* st ?st0" using env by (rule acts_env) simp
  show ?case
  proof (cases "\<exists>req. fetch_next_request (c_wincode c) (c_max_frame c) (rd_select rd) (se_address se) = Inr (Some req)")
    case True
    then obtain req where req: "fetch_next_request (c_wincode c) (c_max_frame c) (rd_select rd) (se_address se) = Inr (Some req)"
      by blast
    obtain out st1 where q: "session_request c se rd ?st0 req = (out, st1)" by fastforce
    have e1: "(server_act c)\<^sup>*\<^sup>* st st1"
      using session_request_acts[OF env, of ?st0 se req] q e0 by (simp add: rtranclp_trans)
    then have e2: "(server_act c)\<^sup>*\<^sup>* st (rd_env rd 4 st1)" by (rule acts_env[OF env])
    show ?thesis
      using Cons.prems req q e1 e2 acts_env[OF env e1, of 5] acts_env[OF env e2, of 5] Cons.IH[of "rd_env rd 4 st1"]
      by (auto simp: Let_def split: outcome.splits sum.splits prod.splits if_splits intro: rtranclp_trans)
  next
    case False
    then show ?thesis
      using Cons.prems acts_env[OF env e0, of 5] by (auto simp: Let_def split: sum.splits option.splits)
  qed
qed simp

lemma untrusted_login_acts:
  assumes "env_ok c rd" and "server_inv st"
  shows "(server_act c)\<^sup>*\<^sup>* st (snd (untrusted_login c a rd st u pw))"
proof -
  let ?st1 = "rd_env rd 1 st" and ?st2 = "rd_env rd 2 (rd_env rd 1 st)"
  have e1: "(server_act c)\<^sup>*\<^sup>* st ?st1" using assms(1) by (rule acts_env) simp
  then have e2: "(server_act c)\<^sup>*\<^sup>* st ?st2" by (rule acts_env[OF assms(1)])
  have e12: "(server_act c)\<^sup>*\<^sup>* ?st1 ?st2" using assms(1) by (rule acts_env) simp
  have login: "(server_act c)\<^sup>*\<^sup>* st (?st2\<lparr>st_logged_users := insert u (st_logged_users ?st2)\<rparr>)"
    if "verify_user_password (c_argon2 c) (rd_sql rd 0) (st_database ?st1) u pw = Inr x"
      and "u \<notin> st_logged_users ?st2" for x
  proof -
    have "find_user (st_database ?st2) u \<noteq> None"
      using acts_find_user[OF e12 acts_inv[OF e1 assms(2)]] verify_user_password_Inr[OF that(1)] by blast
    with that(2) e2 show ?thesis by (blast intro: rtranclp.rtrancl_into_rtrancl act_login)
  qed
  show ?thesis
    using e1 e2 login unfolding untrusted_login_def
    by (auto simp: Let_def split: option.splits sum.splits AuthenticationError.splits)
qed

lemma untrusted_request_acts:
  assumes "env_ok c rd" and "server_inv st"
  shows "(server_act c)\<^sup>*\<^sup>* st (snd (untrusted_request c a rd st req))"
proof (cases req)
  case (SignUp u pw)
  with assms show ?thesis
    by (auto simp: untrusted_sign_up_def Let_def split: option.splits prod.splits
        intro!: acts_env intro: acts_register)
qed (use assms in \<open>simp_all add: untrusted_login_acts\<close>)

lemma session_handler_rest_set:
  "session_handler c session rds st = (Finished r rest, st', sent) \<Longrightarrow> set rest \<subseteq> set rds"
proof (induction rds arbitrary: st sent)
  case (Cons rd rds)
  from Cons.prems show ?case
    by (auto simp: Let_def split: sum.splits option.splits prod.splits outcome.splits if_splits
        dest!: Cons.IH)
qed simp

lemma conn_handler_core_acts_round:
  assumes run: "conn_handler_core c a (rd # rds) st = (r, st', sent)"
    and req: "fetch_next_request (c_wincode c) (c_max_frame c) (rd_select rd) a = Inr (Some req)"
    and q: "untrusted_request c a rd (rd_env rd 0 st) req = (out, st1)"
    and e1: "(server_act c)\<^sup>*\<^sup>* st st1" and e4: "(server_act c)\<^sup>*\<^sup>* st (rd_env rd 4 st1)"
    and env: "\<forall>rd \<in> set rds. env_ok c rd" and inv: "server_inv (rd_env rd 4 st1)"
    and IH: "\<And>rds' st2 r2 sent2. length rds' \<le> length rds \<Longrightarrow> \<forall>rd \<in> set rds'. env_ok c rd \<Longrightarrow>
      server_inv st2 \<Longrightarrow> conn_handler_core c a rds' st2 = (r2, st', sent2) \<Longrightarrow> (server_act c)\<^sup>*\<^sup>* st2 st'"
  shows "(server_act c)\<^sup>*\<^sup>* st st'"
proof -
  let ?st4 = "rd_env rd 4 st1"
  have sess: "(server_act c)\<^sup>*\<^sup>* st st2" "(server_act c)\<^sup>*\<^sup>* st (logged_users_remove u st2)"
    if "session_handler c se rds ?st4 = (x, st2, y)" for se x st2 y u
    using session_handler_acts[OF env that] e4 by (meson acts_logout rtranclp_trans)+
  have cont: "(server_act c)\<^sup>*\<^sup>* st st'"
    if "session_handler c se rds ?st4 = (Finished x rest, st2, y)"
      and "conn_handler_core c a rest (logged_users_remove u st2) = (r2, st', s2)" for se x rest st2 y u r2 s2
  proof -
    have l: "(server_act c)\<^sup>*\<^sup>* ?st4 (logged_users_remove u st2)"
      using session_handler_acts[OF env that(1)] by (rule acts_logout)
    have "(server_act c)\<^sup>*\<^sup>* (logged_users_remove u st2) st'"
      using session_handler_rest[OF that(1)] session_handler_rest_set[OF that(1)] env
      by (intro IH[OF _ _ acts_inv[OF l inv] that(2)]) auto
    with l e4 show ?thesis by (meson rtranclp_trans)
  qed
  have "(server_act c)\<^sup>*\<^sup>* st st'" if "conn_handler_core c a rds ?st4 = (r2, st', s2)" for r2 s2
    using IH[OF _ env inv that] e4 by (meson order_refl rtranclp_trans)
  then show ?thesis
    using run req q e1 e4 sess cont
    by (auto simp: Let_def split: sum.splits prod.splits option.splits run.splits
        ClosedSessionReason.splits)
qed

lemma conn_handler_core_acts:
  assumes "\<forall>rd \<in> set rds. env_ok c rd" and "server_inv st"
    and "conn_handler_core c a rds st = (r, st', sent)"
  shows "(server_act c)\<^sup>*\<^sup>* st st'"
  using assms
proof (induction "length rds" arbitrary: rds st r sent rule: less_induct)
  case less
  show ?case
  proof (cases rds)
    case Nil
    with less.prems show ?thesis by simp
  next
    case (Cons rd rds')
    have env: "env_ok c rd" and envs: "\<forall>rd \<in> set rds'. env_ok c rd" using less.prems(1) Cons by simp_all
    let ?st0 = "rd_env rd 0 st"
    have e0: "(server_act c)\<^sup>*\<^sup>* st ?st0" using env by (rule acts_env) simp
    show ?thesis
    proof (cases "\<exists>req. fetch_next_request (c_wincode c) (c_max_frame c) (rd_select rd) a = Inr (Some req)")
      case True
      then obtain req where
        req: "fetch_next_request (c_wincode c) (c_max_frame c) (rd_select rd) a = Inr (Some req)"
        by blast
      obtain out st1 where q: "untrusted_request c a rd ?st0 req = (out, st1)" by fastforce
      have "(server_act c)\<^sup>*\<^sup>* ?st0 st1"
        using untrusted_request_acts[OF env acts_inv[OF e0 less.prems(2)], of a req] q by simp
      with e0 have e1: "(server_act c)\<^sup>*\<^sup>* st st1" by simp
      then have e4: "(server_act c)\<^sup>*\<^sup>* st (rd_env rd 4 st1)" by (rule acts_env[OF env])
      show ?thesis
        by (rule conn_handler_core_acts_round[OF less.prems(3)[unfolded Cons] req q e1 e4 envs
              acts_inv[OF e4 less.prems(2)]])
          (rule less.hyps; simp add: Cons)
    next
      case False
      then show ?thesis
        using less.prems(3) e0 unfolding Cons by (auto simp: Let_def split: sum.splits option.splits)
    qed
  qed
qed

end
