(* ===== verification/Handler_Properties.thy ===== *)
theory Handler_Properties
  imports Handler_Invariants Example_Codec
begin

text \<open>
  What the connection handler guarantees: who may start a session, what a signing request
  costs and returns, which errors are unreachable, and what is left behind when a
  connection ends.
\<close>

section \<open>Notions\<close>

text \<open>
  \<open>broken_promise\<close>: the two errors that report inconsistent data. \<open>quiet\<close>: no other task acts
  during the round. \<open>login_reply_sent\<close>: if the round asks for a login, its reply can be sent.
  \<open>same_account\<close>: a user's row and history are the same in two databases; \<open>holds_account\<close>: the
  user is still logged in and their account is untouched.
\<close>

definition broken_promise :: "HandlerError \<Rightarrow> bool" where
  "broken_promise e \<longleftrightarrow> (\<exists>u. e = HandlerError.Domain u UserShouldExistButWasNotFound) \<or>
     (\<exists>u m. e = HandlerError.Domain u (IntegrityViolation m))"

definition quiet :: "'sk round \<Rightarrow> bool" where
  "quiet rd \<longleftrightarrow> rd_env rd = (\<lambda>_ st. st)"

definition login_reply_sent :: "('h, 'sk, 'pk, 'ph) crates \<Rightarrow> SocketAddr \<Rightarrow> 'sk round \<Rightarrow> bool" where
  "login_reply_sent c a rd \<longleftrightarrow>
     (\<forall>u pw. fetch_next_request (c_wincode c) (c_max_frame c) (rd_select rd) a = Inr (Some (Login u pw)) \<longrightarrow>
        send_response (c_wincode c) a (rd_send rd) Ok = Inr ())"

definition same_account :: "string \<Rightarrow> ServerDb \<Rightarrow> ServerDb \<Rightarrow> bool" where
  "same_account v db db' \<longleftrightarrow> find_user db' v = find_user db v \<and> user_records db' v = user_records db v"

definition holds_account :: "string \<Rightarrow> 'sk STSServerState \<Rightarrow> 'sk STSServerState \<Rightarrow> bool" where
  "holds_account v st st' \<longleftrightarrow> server_inv st' \<and> v \<in> st_logged_users st' \<and>
     same_account v (st_database st) (st_database st')"

section \<open>Example server\<close>

text \<open>A concrete server with one user, on which the witnesses run.\<close>

definition peer :: SocketAddr where
  "peer = \<lparr>addr_ip = V4 2130706433, addr_port = 40000\<rparr>"

definition plain_crates :: "(byte list, unit, unit, string) crates" where
  "plain_crates = \<lparr>c_crypto = plain_crypto, c_argon2 = plain_argon2, c_hex = plain_hex,
     c_wincode = plain_wincode, c_show_ip = (\<lambda>_. ''127.0.0.1''), c_max_frame = 8388608\<rparr>"

definition plain_round :: "Request \<Rightarrow> io_error option \<Rightarrow> 'sk round" where
  "plain_round req send = \<lparr>rd_env = (\<lambda>_ st. st),
     rd_select = StreamNext (Some (case plain_enc_request req of Inr bs \<Rightarrow> Inr bs
                                   | Inl _ \<Rightarrow> Inl (IoError InvalidData []))),
     rd_sql = (\<lambda>_. no_fault), rd_salt = [], rd_now = 9, rd_spawn = None, rd_send = send\<rparr>"

definition alice_hash :: Sha256Hash where
  "alice_hash = Sha256Hash (replicate 32 5)"

definition alice_session :: Session where
  "alice_session = \<lparr>se_address = peer, se_username = ''alice''\<rparr>"

definition alice_state :: "i64 \<Rightarrow> unit STSServerState" where
  "alice_state n = \<lparr>st_database = alice_db n, st_cancel_token = False, st_logged_users = {},
     st_signing_key = (), st_time_oracle = \<lparr>offset_nanos = 0\<rparr>, st_signer = SlowSigner\<rparr>"

definition alice_signed_state :: "unit STSServerState" where
  "alice_signed_state = (alice_state 0)\<lparr>st_database := alice_signed_db\<rparr>"

section \<open>Lemmas on single requests\<close>

lemma session_sign_hash_keeps_promise:
  assumes env: "env_ok c rd" and inv: "server_inv st"
    and user: "find_user (st_database st) (se_username se) \<noteq> None"
    and res: "session_sign_hash c se rd st h = (Returns (Inl e), st')"
  shows "\<not> broken_promise e"
proof -
  let ?u = "se_username se" and ?st1 = "rd_env rd 1 st"
  have 1: "server_inv ?st1" "find_user (st_database ?st1) ?u \<noteq> None"
    using acts_user[OF env inv user] by auto
  obtain r db where sub: "subtract_user_tokens (rd_sql rd 0) (st_database ?st1) ?u 1 = (r, db)"
    by fastforce
  let ?st1' = "?st1\<lparr>st_database := db\<rparr>"
  have "server_act c ?st1 ?st1'"
    using db_step.charge[of "c_argon2 c" "st_database ?st1" "rd_sql rd 0" ?u 1] sub
    by (auto intro: act_database)
  then have one: "server_inv ?st1'" "find_user (st_database ?st1') ?u \<noteq> None"
    using server_act_inv server_act_find_user 1 by blast+
  have 2: "server_inv (rd_env rd 2 ?st1')" "find_user (st_database (rd_env rd 2 ?st1')) ?u \<noteq> None"
    using acts_user[OF env one] by auto
  have 3: "find_user (st_database (rd_env rd 3 (rd_env rd 2 ?st1'))) ?u \<noteq> None"
    using acts_user[OF env 2] by auto
  show ?thesis
    using res sub 1(2) 3 unfolding session_sign_hash_def
    by (auto simp: Let_def broken_promise_def split: prod.splits sum.splits option.splits outcome.splits
        SubtractTokensError.splits AddRecordError.splits
        dest!: subtract_user_tokens_missing add_user_record_missing)
qed

lemma session_request_keeps_promise:
  assumes env: "env_ok c rd" and inv: "server_inv st"
    and user: "find_user (st_database st) (se_username se) \<noteq> None"
    and res: "session_request c se rd st req = (Returns (Inl e), st')"
  shows "\<not> broken_promise e"
proof (cases req)
  case (SignHash h)
  with res session_sign_hash_keeps_promise[OF env inv user] show ?thesis by simp
next
  case (PurchaseTokens n)
  with res acts_user[OF env inv user, of 1] show ?thesis
    by (auto simp: session_purchase_def Let_def broken_promise_def split: prod.splits sum.splits
        AddTokensError.splits dest!: add_user_tokens_missing)
next
  case HowManyTokensDoIHave
  have "db_inv (st_database (rd_env rd 1 st))" using acts_user[OF env inv user, of 1] by (simp add: server_inv_def)
  with HowManyTokensDoIHave res acts_user[OF env inv user, of 1] show ?thesis
    by (auto simp: session_token_count_def Let_def broken_promise_def split: sum.splits
        GetTokensError.splits dest!: get_user_tokens_errors)
next
  case History
  have "db_inv (st_database (rd_env rd 1 st))" using acts_user[OF env inv user, of 1] by (simp add: server_inv_def)
  with History res acts_user[OF env inv user, of 1] show ?thesis
    by (auto simp: session_history_def Let_def broken_promise_def split: sum.splits
        UserHistoryError.splits dest!: get_user_history_errors)
qed (use res in simp_all)

lemma send_response_not_promise: "send_response w a s r = Inl e \<Longrightarrow> \<not> broken_promise e"
  by (auto simp: send_response_def broken_promise_def send_error_logger_def
      split: sum.splits option.splits ErrorKind.splits)

lemma session_sign_hash_token:
  assumes "session_sign_hash c se rd st h = (Returns (Inr (Token h' s t, out)), st')"
  shows "\<exists>k db spawn sg.
     subtract_user_tokens (rd_sql rd 0) (st_database (rd_env rd 1 st)) (se_username se) 1 = (Inr k, db) \<and>
     (let st2 = rd_env rd 2 ((rd_env rd 1 st)\<lparr>st_database := db\<rparr>); st3 = rd_env rd 3 st2 in
      h' = h \<and> \<not> out \<and> 0 \<le> time_now (st_time_oracle st2) (rd_now rd) \<and>
      t = Timestamp (of_nat (nat (time_now (st_time_oracle st2) (rd_now rd)))) \<and>
      generate_timestamp_signature (c_crypto c) (rd_spawn rd) (st_signer st2) (st_signing_key st2) h t = Returns (Inr s) \<and>
      add_user_record (rd_sql rd 1) (st_database st3) (se_username se) t s = (Inr (), st_database st') \<and>
      st' = st3\<lparr>st_database := st_database st'\<rparr>)"
  using assms unfolding session_sign_hash_def
  by (auto simp: Let_def Timestamp_new_def duration_since_epoch_def
      split: prod.splits sum.splits option.splits outcome.splits
        SubtractTokensError.splits AddRecordError.splits if_splits)

lemma session_request_logged:
  assumes "quiet rd" shows "st_logged_users (snd (session_request c se rd st req)) = st_logged_users st"
  using assms
  by (cases req)
    (auto simp: quiet_def session_sign_hash_def session_purchase_def session_token_count_def
      session_history_def Let_def
      split: prod.splits sum.splits option.splits outcome.splits AddRecordError.splits)

lemma session_handler_logged:
  assumes "\<forall>rd \<in> set rds. quiet rd" and "session_handler c se rds st = (r, st', sent)"
  shows "st_logged_users st' = st_logged_users st"
  using assms
proof (induction rds arbitrary: st sent)
  case (Cons rd rds)
  have q: "rd_env rd i s = s" for i s using Cons.prems(1) by (simp add: quiet_def)
  have "st_logged_users st1 = st_logged_users st"
    if "session_request c se rd st req = (x, st1)" for req x st1
    using session_request_logged[of rd c se st req] Cons.prems(1) that by simp
  then show ?case
    using Cons.prems Cons.IH
    by (auto simp: Let_def q split: outcome.splits sum.splits option.splits prod.splits if_splits)
qed simp

lemma untrusted_request_logged:
  assumes "quiet rd" and "untrusted_request c a rd st req = (out, st')"
  shows "(\<exists>session u pw. out = Inr (Ok, Some session) \<and> req = Login u pw \<and> se_username session = u \<and>
       u \<notin> st_logged_users st \<and> st_logged_users st' = insert u (st_logged_users st)) \<or>
    ((\<exists>e. out = Inl e) \<or> (\<exists>r. out = Inr (r, None))) \<and> st_logged_users st' = st_logged_users st"
  using assms
  by (cases req)
    (auto simp: quiet_def untrusted_login_def untrusted_sign_up_def Let_def Session_bundle_def
      split: option.splits sum.splits AuthenticationError.splits RegistrationError.splits prod.splits if_splits)

lemma logged_round_released:
  assumes run: "conn_handler_core c a (rd # rds) st = (Finished r rest, st', sent)"
    and "quiet rd" and qs: "\<forall>rd \<in> set rds. quiet rd"
    and req: "fetch_next_request (c_wincode c) (c_max_frame c) (rd_select rd) a = Inr (Some req)"
    and out: "untrusted_request c a rd st req = (Inr (Ok, Some session), st1)"
    and "send_response (c_wincode c) a (rd_send rd) Ok = Inr ()"
    and "se_username session = u" and "u \<notin> st_logged_users st"
    and "st_logged_users st1 = insert u (st_logged_users st)"
    and IH: "\<And>rds2 st2 s. set rds2 \<subseteq> set rds \<Longrightarrow> length rds2 \<le> length rds \<Longrightarrow>
      conn_handler_core c a rds2 st2 = (Finished r rest, st', s) \<Longrightarrow> st_logged_users st' = st_logged_users st2"
  shows "st_logged_users st' = st_logged_users st"
proof -
  have q: "rd_env rd i s = s" for i s using assms(2) by (simp add: quiet_def)
  have "st_logged_users (logged_users_remove u st2) = st_logged_users st"
    if "session_handler c session rds st1 = (x, st2, s)" for x st2 s
    using session_handler_logged[OF qs that] assms(8,9) by (simp add: logged_users_remove_def)
  moreover have "st_logged_users st' = st_logged_users (logged_users_remove u st2)"
    if "session_handler c session rds st1 = (Finished x rest2, st2, s)"
      and "conn_handler_core c a rest2 (logged_users_remove u st2) = (Finished r rest, st', s')"
    for x rest2 st2 s s'
    using IH[OF session_handler_rest_set[OF that(1)] session_handler_rest[OF that(1)] that(2)] .
  ultimately show ?thesis
    using run assms(6)
    by (auto simp: Let_def q req out assms(7) split: prod.splits run.splits sum.splits ClosedSessionReason.splits)
qed

section \<open>Accounts of other users\<close>

lemma same_account_refl [simp]: "same_account v db db"
  by (simp add: same_account_def)

lemma same_account_trans: "same_account v a b \<Longrightarrow> same_account v b c \<Longrightarrow> same_account v a c"
  by (simp add: same_account_def)

lemma same_account_set_tokens: "u \<noteq> v \<Longrightarrow> same_account v db (set_tokens u t db)"
  by (cases "find_user db v") (auto simp: same_account_def find_user_set_tokens user_records_def)

lemma same_account_add: "db_inv db \<Longrightarrow> u \<noteq> v \<Longrightarrow> same_account v db (snd (add_user_tokens io db u n))"
  using add_user_tokens_effect[of db io u n] same_account_set_tokens by auto

lemma same_account_subtract: "db_inv db \<Longrightarrow> u \<noteq> v \<Longrightarrow> same_account v db (snd (subtract_user_tokens io db u n))"
  using subtract_user_tokens_effect[of db io u n] same_account_set_tokens by auto

lemma same_account_record: "u \<noteq> v \<Longrightarrow> same_account v db (snd (add_user_record io db u t s))"
  by (rule result_state_cases)
    (auto simp: add_user_record_ok_iff same_account_def user_records_def dest: add_user_record_Inl)

lemma same_account_register:
  "find_user db v \<noteq> None \<Longrightarrow> same_account v db (snd (try_register_user ar io salt db u pw ip))"
  using try_register_user_effect[of ar io salt db u pw ip]
  by (auto simp: same_account_def find_user_append user_records_def)

lemma session_request_same_account:
  assumes "quiet rd" and "db_inv (st_database st)" and "se_username se \<noteq> v"
  shows "same_account v (st_database st) (st_database (snd (session_request c se rd st req)))"
proof -
  have q: "rd_env rd i s = s" for i s using assms(1) by (simp add: quiet_def)
  let ?db = "st_database st" and ?u = "se_username se"
  have ch: "same_account v ?db db \<and> db_inv db" if "subtract_user_tokens io ?db ?u 1 = (r, db)" for io r db
    using same_account_subtract[OF assms(2,3), of io 1] db_inv_subtract_user_tokens[OF assms(2), of io ?u 1] that
    by simp
  have cr: "same_account v ?db db'" if "same_account v ?db db" "db_inv db" "add_user_tokens io db ?u n = (r, db')" for io r db db' n
    using same_account_add[OF that(2) assms(3), of io n] that same_account_trans[of v ?db db db'] by simp
  have lg: "same_account v ?db db'" if "same_account v ?db db" "add_user_record io db ?u t s = (r, db')" for io r db db' t s
    using same_account_record[OF assms(3), of db io t s] that same_account_trans[of v ?db db db'] by simp
  show ?thesis
  proof (cases req)
    case (SignHash h)
    then show ?thesis
      using ch by (auto simp: session_sign_hash_def q Let_def split: prod.splits sum.splits option.splits
          outcome.splits AddRecordError.splits intro: cr lg)
  next
    case (PurchaseTokens n)
    then show ?thesis
      using cr[OF same_account_refl assms(2)] by (auto simp: session_purchase_def q Let_def split: prod.splits)
  qed (simp_all add: session_token_count_def session_history_def q Let_def)
qed

lemma quiet_env_ok: "quiet rd \<Longrightarrow> env_ok c rd"
  by (simp add: quiet_def env_ok_def)

lemma session_handler_same_account:
  assumes "\<forall>rd \<in> set rds. quiet rd" and "db_inv (st_database st)" and "server_inv st" and "se_username se \<noteq> v"
    and "session_handler c se rds st = (r, st', sent)"
  shows "same_account v (st_database st) (st_database st')"
  using assms
proof (induction rds arbitrary: st sent)
  case (Cons rd rds)
  have qt: "quiet rd" using Cons.prems(1) by simp
  have q: "rd_env rd i s = s" for i s using qt by (simp add: quiet_def)
  have s: "same_account v (st_database st) (st_database st1) \<and> server_inv st1 \<and> db_inv (st_database st1)"
    if "session_request c se rd st req = (x, st1)" for req x st1
    using session_request_same_account[OF qt Cons.prems(2,4), of c req]
      acts_inv[OF session_request_acts[OF quiet_env_ok[OF qt]] Cons.prems(3), of c se req] that
    by (simp add: server_inv_def)
  have IH: "same_account v (st_database st) (st_database st')"
    if "session_request c se rd st req = (x, st1)" and "session_handler c se rds st1 = (r, st', s2)" for req x st1 s2
    using Cons.IH[of st1 s2] s[OF that(1)] that(2) Cons.prems(1,4) same_account_trans[of v "st_database st" "st_database st1"] by simp
  show ?case
    using Cons.prems(5) s IH
    by (auto simp: Let_def q split: outcome.splits sum.splits option.splits prod.splits if_splits)
qed simp

lemma untrusted_request_same_account:
  assumes "quiet rd" and "find_user (st_database st) v \<noteq> None"
  shows "same_account v (st_database st) (st_database (snd (untrusted_request c a rd st req)))"
proof (cases req)
  case (SignUp u pw)
  then show ?thesis
    using assms same_account_register[OF assms(2), of "c_argon2 c" "rd_sql rd 0" "rd_salt rd" u pw
        "c_show_ip c (addr_ip a)"]
    by (auto simp: quiet_def untrusted_sign_up_def Let_def split: option.splits prod.splits)
next
  case (Login u pw)
  then show ?thesis
    using assms(1)
    by (auto simp: quiet_def untrusted_login_def Let_def split: option.splits sum.splits AuthenticationError.splits)
qed simp_all

lemma holds_account_session:
  assumes "\<forall>rd \<in> set rds. quiet rd" and "holds_account v st st1" and "se_username se \<noteq> v"
    and "session_handler c se rds st1 = (x, st2, y)"
  shows "holds_account v st st2 \<and> holds_account v st (logged_users_remove (se_username se) st2)"
proof -
  have "server_inv st2"
    using session_handler_acts[OF _ assms(4)] assms(1,2) quiet_env_ok acts_inv unfolding holds_account_def by blast
  moreover have "same_account v (st_database st1) (st_database st2)"
    using session_handler_same_account[OF assms(1) _ _ assms(3,4)] assms(2)
    by (simp add: holds_account_def server_inv_def)
  moreover have "st_logged_users st2 = st_logged_users st1" by (rule session_handler_logged[OF assms(1,4)])
  ultimately show ?thesis
    using assms(2,3) same_account_trans[of v "st_database st" "st_database st1" "st_database st2"]
    by (auto simp: holds_account_def logged_users_remove_def server_inv_def)
qed

lemma holds_account_request:
  assumes "quiet rd" and "holds_account v st0 st" and "untrusted_request c a rd st req = (out, st1)"
  shows "holds_account v st0 st1 \<and> (\<forall>r session. out = Inr (r, Some session) \<longrightarrow> se_username session \<noteq> v)"
proof -
  have inv: "server_inv st" and v: "v \<in> st_logged_users st" using assms(2) by (auto simp: holds_account_def)
  have "find_user (st_database st) v \<noteq> None" using inv v unfolding server_inv_def by blast
  then have "same_account v (st_database st) (st_database st1)"
    using untrusted_request_same_account[OF assms(1), of st v c a req] assms(3) by simp
  moreover have "server_inv st1"
    using acts_inv[OF untrusted_request_acts[OF quiet_env_ok[OF assms(1)] inv] inv, of c a req] assms(3) by simp
  moreover note untrusted_request_logged[OF assms(1,3)]
  ultimately show ?thesis
    using assms(2) v same_account_trans[of v "st_database st0" "st_database st" "st_database st1"]
    by (auto simp: holds_account_def)
qed

lemma conn_handler_core_holds_account:
  assumes "\<forall>rd \<in> set rds. quiet rd" and "holds_account v st0 st"
    and "conn_handler_core c a rds st = (r, st', sent)"
  shows "holds_account v st0 st'"
  using assms
proof (induction "length rds" arbitrary: rds st r sent rule: less_induct)
  case less
  show ?case
  proof (cases rds)
    case (Cons rd rds')
    have qt: "quiet rd" and qs: "\<forall>rd \<in> set rds'. quiet rd" using less.prems(1) Cons by auto
    have q: "rd_env rd i s = s" for i s using qt by (simp add: quiet_def)
    have IH: "holds_account v st0 st'"
      if "set rds2 \<subseteq> set rds'" "length rds2 \<le> length rds'" "holds_account v st0 st2"
        "conn_handler_core c a rds2 st2 = (r2, st', s)" for rds2 st2 r2 s
      using less.hyps[of rds2 st2 r2 s] that less.prems(1) Cons by auto
    have req: "holds_account v st0 st1 \<and> (\<forall>r session. out = Inr (r, Some session) \<longrightarrow> se_username session \<noteq> v)"
      if "untrusted_request c a rd st req = (out, st1)" for req out st1
      using holds_account_request[OF qt less.prems(2) that] .
    have done': "holds_account v st0 st2" "holds_account v st0 (logged_users_remove (se_username session) st2)"
      if "untrusted_request c a rd st req = (Inr (resp, Some session), st1)"
        and "session_handler c session rds' st1 = (x, st2, s)" for req resp session st1 x st2 s
      using holds_account_session[OF qs _ _ that(2)] req[OF that(1)] by blast+
    have cont: "holds_account v st0 st'"
      if "untrusted_request c a rd st req = (Inr (resp, Some session), st1)"
        and "session_handler c session rds' st1 = (Finished x rest2, st2, s)"
        and "conn_handler_core c a rest2 (logged_users_remove (se_username session) st2) = (r2, st', s')"
      for req resp session st1 x rest2 st2 s r2 s'
      using IH[OF session_handler_rest_set[OF that(2)] session_handler_rest[OF that(2)] done'(2)[OF that(1,2)] that(3)] .
    have next': "holds_account v st0 st'"
      if "untrusted_request c a rd st req = (out, st1)" and "conn_handler_core c a rds' st1 = (r2, st', s)"
      for req out st1 r2 s
      using IH[OF subset_refl le_refl _ that(2)] req[OF that(1)] by blast
    show ?thesis
      using less.prems(2,3) req done' cont next' unfolding Cons
      by (auto simp: Let_def q split: sum.splits option.splits prod.splits run.splits ClosedSessionReason.splits)
  qed (use less.prems in simp)
qed

section \<open>Lemmas on the example\<close>

lemma plain_round_quiet: "quiet (plain_round req send)"
  by (simp add: quiet_def plain_round_def)

lemma plain_round_env: "env_ok c (plain_round req send)"
  by (simp add: env_ok_def plain_round_def)

lemma alice_state_inv: "0 \<le> sint n \<Longrightarrow> server_inv (alice_state n)"
  by (simp add: server_inv_def alice_state_def alice_db_inv)

lemma alice_no_history: "db_history (alice_db n) = []"
  by (simp add: alice_db_def)

lemma slow_plain_signs:
  "generate_timestamp_signature plain_crypto None SlowSigner () alice_hash (Timestamp 9) =
     Returns (Inr alice_signature)"
  by (simp add: SlowSigner_generate_def spawn_blocking_def alice_hash_def alice_signature_def plain_signs
      wf_hash_def)

lemma alice_signs:
  "session_request plain_crates alice_session (plain_round LogOut None) (alice_state 1) (SignHash alice_hash) =
     (Returns (Inr (Token alice_hash alice_signature (Timestamp 9), False)), alice_signed_state)"
  by (simp add: session_sign_hash_def plain_round_def plain_crates_def alice_session_def alice_state_def
      alice_signed_state_def Let_def alice_charge time_now_eq system_time_ok_def NANOS_def
      duration_since_epoch_def Timestamp_new_def slow_plain_signs alice_records
      del: generate_timestamp_signature.simps)

lemma alice_verifies: "verify_user_password plain_argon2 no_fault (alice_db n) ''alice'' ''pw'' = Inr ()"
  by (simp add: verify_user_password_def find_alice plain_argon2_def) (simp add: alice_db_def)

lemma alice_logs_in:
  "untrusted_request plain_crates peer (plain_round req send) (alice_state 1) (Login ''alice'' ''pw'') =
     (Inr (Ok, Some alice_session), (alice_state 1)\<lparr>st_logged_users := {''alice''}\<rparr>)"
  by (simp add: untrusted_login_def credentials_length_error_def is_username_length_valid_def
      is_password_length_valid_def MAX_USERNAME_LEN_def MAX_PASSWORD_LEN_def plain_round_def
      plain_crates_def alice_state_def Let_def alice_verifies Session_bundle_def alice_session_def)

lemma plain_fetch_login:
  "fetch_next_request (c_wincode plain_crates) (c_max_frame plain_crates)
     (rd_select (plain_round (Login ''alice'' ''pw'') send)) a = Inr (Some (Login ''alice'' ''pw''))"
  using plain_request_roundtrip[of "Login ''alice'' ''pw''"]
  by (simp add: fetch_next_request_def plain_crates_def plain_wincode_def plain_round_def
      Request_deserialize_def MAX_ALLOCATION_def)

lemma plain_send: "send_response (c_wincode plain_crates) a None Ok = Inr ()"
  by (simp add: send_response_def plain_crates_def plain_wincode_def Response_serialize_def)

lemma plain_send_failure:
  "send_response (c_wincode plain_crates) a (Some (IoError BrokenPipe m)) Ok =
     Inl (HandlerError.Network ConnectionDropped)"
  by (simp add: send_response_def plain_crates_def plain_wincode_def Response_serialize_def
      send_error_logger_def)

lemma alice_session_run:
  "\<exists>st' sent. conn_handler_core plain_crates peer
     [plain_round (Login ''alice'' ''pw'') None, (plain_round LogOut None)\<lparr>rd_select := StreamNext None\<rparr>]
     (alice_state 1) = (Finished (Inr ClientAsked) [], st', sent)"
proof -
  have q: "rd_env (plain_round r s) i = (\<lambda>st. st)" "rd_send (plain_round r s) = s" for r s i
    by (simp_all add: plain_round_def)
  have "closed_reason ((alice_state 1)\<lparr>st_logged_users := us\<rparr>) = ClientAsked" for us
    by (simp add: closed_reason_def alice_state_def)
  then show ?thesis
    by (simp add: q plain_fetch_login alice_logs_in plain_send Let_def
        fetch_next_request_def[of _ _ "StreamNext None"] del: untrusted_request.simps)
qed

section \<open>Signing requests\<close>

lemma issued_token:
  assumes "env_ok c rd" and "rsa_correct (c_crypto c) (st_signing_key st) pk"
    and "session_request c se rd st (SignHash h) = (Returns (Inr (Token h' s t, out)), st')"
  shows "h' = h \<and> \<not> out \<and> verify_timestamp_signature (c_crypto c) pk h t s = Inr () \<and>
    \<lparr>hr_sign = s, hr_timestamp = t\<rparr> \<in> user_records (st_database st') (se_username se)"
proof -
  obtain k db where *: "h' = h" "\<not> out"
    "let st2 = rd_env rd 2 ((rd_env rd 1 st)\<lparr>st_database := db\<rparr>); st3 = rd_env rd 3 st2 in
      generate_timestamp_signature (c_crypto c) (rd_spawn rd) (st_signer st2) (st_signing_key st2) h t = Returns (Inr s) \<and>
      add_user_record (rd_sql rd 1) (st_database st3) (se_username se) t s = (Inr (), st_database st')"
    using session_sign_hash_token[of c se rd st h h' s t out st'] assms(3) by (auto simp: Let_def)
  define st2 where "st2 = rd_env rd 2 ((rd_env rd 1 st)\<lparr>st_database := db\<rparr>)"
  have key: "st_signing_key st2 = st_signing_key st" by (simp add: st2_def env_key[OF assms(1)])
  have gen: "generate_timestamp_signature (c_crypto c) (rd_spawn rd) (st_signer st2) (st_signing_key st) h t = Returns (Inr s)"
    and rec: "add_user_record (rd_sql rd 1) (st_database (rd_env rd 3 st2)) (se_username se) t s = (Inr (), st_database st')"
    using *(3) key by (simp_all add: Let_def st2_def)
  show ?thesis
    using *(1,2) any_signer.issued_verifies[OF assms(2) gen]
      add_user_record_recorded[OF rec any_signer.issued_wf[OF gen]] by blast
qed

lemma signing_charge:
  assumes "quiet rd" and "db_inv (st_database st)" and "balance (st_database st) (se_username se) = Some b"
    and "session_request c se rd st (SignHash h) = (Returns (Inr (response, out)), st')"
  shows "case response of
      Token _ _ _ \<Rightarrow> 0 < b \<and> balance (st_database st') = (balance (st_database st))(se_username se \<mapsto> b - 1)
    | NotEnoughTokens \<Rightarrow> b = 0 \<and> st_database st' = st_database st
    | OperationError _ \<Rightarrow> 0 < b \<and> (rd_sql rd 1 = no_fault \<longrightarrow> balance (st_database st') = balance (st_database st))
    | _ \<Rightarrow> False"
proof -
  let ?u = "se_username se" and ?db = "st_database st"
  have q: "rd_env rd i s = s" for i s using assms(1) by (simp add: quiet_def)
  obtain r db where sub: "subtract_user_tokens (rd_sql rd 0) ?db ?u 1 = (r, db)" by fastforce
  show ?thesis
  proof (cases r)
    case (Inl e)
    then show ?thesis
      using assms(4) sub charge_one_refused[OF assms(2) _ assms(3), of "rd_sql rd 0" db]
      by (auto simp: session_sign_hash_def q Let_def split: SubtractTokensError.splits)
  next
    case (Inr k)
    have ch: "0 < b \<and> balance db = (balance ?db)(?u \<mapsto> b - 1) \<and> db_inv db"
      using charge_one[OF assms(2) _ assms(3), of "rd_sql rd 0" k db] sub Inr by blast
    have refund: "balance (snd (add_user_tokens no_fault db ?u 1)) = balance ?db"
    proof -
      have "subtract_user_tokens no_fault ?db ?u 1 = (Inr k, db)"
        using subtract_user_tokens_fault[of "rd_sql rd 0" ?db ?u 1] sub Inr by auto
      from tokens.charge_then_refund[OF assms(2) this] show ?thesis by auto
    qed
    show ?thesis
      using assms(4) sub Inr ch refund add_user_record_balance[of "rd_sql rd 1" db ?u]
      by (auto simp: session_sign_hash_def q Let_def
          split: option.splits outcome.splits sum.splits prod.splits AddRecordError.splits)
         (metis snd_conv)+
  qed
qed

lemma funded_request:
  assumes "quiet rd" and "rd_sql rd = (\<lambda>_. no_fault)" and "db_inv (st_database st)"
    and "balance (st_database st) (se_username se) = Some (Suc b)"
    and "time_now (st_time_oracle st) (rd_now rd) = int n"
    and "generate_timestamp_signature (c_crypto c) (rd_spawn rd) (st_signer st) (st_signing_key st) h
           (Timestamp (of_nat n)) = Returns (Inr s)"
    and "\<forall>r \<in> user_records (st_database st) (se_username se). hr_timestamp r \<noteq> Timestamp (of_nat n)"
  shows "\<exists>st'. session_request c se rd st (SignHash h) =
    (Returns (Inr (Token h s (Timestamp (of_nat n)), False)), st')"
proof -
  let ?u = "se_username se" and ?db = "st_database st"
  have q: "rd_env rd i s = s" for i s using assms(1) by (simp add: quiet_def)
  obtain r where r: "find_user ?db ?u = Some r" "unat (u_available_tokens r) = Suc b"
    using assms(4) by (auto simp: balance_def)
  obtain k db where sub: "subtract_user_tokens no_fault ?db ?u 1 = (Inr k, db)"
    using r by (simp add: subtract_user_tokens_eq[OF assms(3)])
  have inv: "db_inv db" and hist: "db_history db = db_history ?db"
    using charge_one[OF assms(3) sub assms(4)] by auto
  have "db = set_tokens ?u k ?db" using subtract_user_tokens_ok[OF assms(3) sub] by metis
  then have u: "find_user db ?u \<noteq> None" using r(1) by (simp add: find_user_set_tokens)
  have fresh: "\<not> list_ex (\<lambda>h. h_username h = ?u \<and> h_timestamp h = Timestamp_as_be_bytes (Timestamp (of_nat n))) (db_history db)"
  proof
    assume "list_ex (\<lambda>h. h_username h = ?u \<and> h_timestamp h = Timestamp_as_be_bytes (Timestamp (of_nat n))) (db_history db)"
    then obtain row where row: "row \<in> set (db_history ?db)" "h_username row = ?u"
      "h_timestamp row = Timestamp_as_be_bytes (Timestamp (of_nat n))"
      by (auto simp: list_ex_iff hist)
    then have "record_of_row row \<in> user_records ?db ?u" by (auto simp: user_records_def)
    moreover have "hr_timestamp (record_of_row row) = Timestamp (of_nat n)"
      using row(3) ts_codec.dec_enc[of "Timestamp (of_nat n)"] ts_codec.enc_width[of "Timestamp (of_nat n)"]
      by (simp add: record_of_row_def HistoryRecord_new_def timestamp_of_blob_def)
    ultimately show False using assms(7) by blast
  qed
  obtain db' where rec: "add_user_record no_fault db ?u (Timestamp (of_nat n)) s = (Inr (), db')"
    using u fresh by (simp add: add_user_record_ok_iff no_fault_def)
  show ?thesis
    using sub rec assms(5,6)
    by (simp add: session_sign_hash_def q Let_def assms(2) duration_since_epoch_def Timestamp_new_def)
qed

section \<open>Properties\<close>

text \<open>
  C1. A token the server hands out is genuine, whatever the other tasks do meanwhile: it is for
  the requested hash, its signature verifies under the server's public key for the
  timestamp in the token, and the pair of signature and timestamp is in the user's history.
\<close>

theorem issued_token_is_sound:
  assumes "env_ok c rd" and "rsa_correct (c_crypto c) (st_signing_key st) pk"
    and "session_request c se rd st (SignHash h) = (Returns (Inr (Token h' s t, out)), st')"
  shows "h' = h \<and> \<not> out \<and> verify_timestamp_signature (c_crypto c) pk h t s = Inr () \<and>
    \<lparr>hr_sign = s, hr_timestamp = t\<rparr> \<in> user_records (st_database st') (se_username se)"
  using assms by (rule issued_token)

theorem issued_token_is_sound_witness:
  "session_request plain_crates alice_session (plain_round LogOut None) (alice_state 1) (SignHash alice_hash) =
     (Returns (Inr (Token alice_hash alice_signature (Timestamp 9), False)), alice_signed_state) \<and>
   verify_timestamp_signature plain_crypto () alice_hash (Timestamp 9) alice_signature = Inr ()"
  using issued_token_is_sound[OF plain_round_env _ alice_signs, of "()"] alice_signs plain_crypto_correct
  by (simp add: plain_crates_def alice_state_def)



text \<open>
  C16. A user who has tokens gets one signed: with a positive balance, a clock after the epoch, a
  working signer and no record of the same nanosecond, the answer to \<^verbatim>\<open>SignHash\<close> is the
  token.
\<close>

theorem funded_request_gets_token:
  assumes "quiet rd" and "rd_sql rd = (\<lambda>_. no_fault)" and "db_inv (st_database st)"
    and "balance (st_database st) (se_username se) = Some (Suc b)"
    and "time_now (st_time_oracle st) (rd_now rd) = int n"
    and "generate_timestamp_signature (c_crypto c) (rd_spawn rd) (st_signer st) (st_signing_key st) h
           (Timestamp (of_nat n)) = Returns (Inr s)"
    and "\<forall>r \<in> user_records (st_database st) (se_username se). hr_timestamp r \<noteq> Timestamp (of_nat n)"
  shows "\<exists>st'. session_request c se rd st (SignHash h) =
    (Returns (Inr (Token h s (Timestamp (of_nat n)), False)), st')"
  using assms by (rule funded_request)

theorem funded_request_gets_token_witness:
  "\<exists>st'. session_request plain_crates alice_session (plain_round LogOut None) (alice_state 1) (SignHash alice_hash) =
     (Returns (Inr (Token alice_hash alice_signature (Timestamp 9), False)), st')"
proof -
  have "\<exists>st'. session_request plain_crates alice_session (plain_round LogOut None) (alice_state 1) (SignHash alice_hash) =
     (Returns (Inr (Token alice_hash alice_signature (Timestamp (of_nat 9)), False)), st')"
    by (rule funded_request_gets_token[where b=0 and n=9, OF plain_round_quiet])
      (simp_all add: plain_round_def alice_state_def alice_session_def alice_db_inv time_now_eq
        system_time_ok_def NANOS_def plain_crates_def slow_plain_signs balance_def find_alice alice_tokens
        user_records_def alice_no_history del: generate_timestamp_signature.simps)
  then show ?thesis by simp
qed

text \<open>
  C12. Before login only \<^verbatim>\<open>Login\<close> and \<^verbatim>\<open>SignUp\<close> do anything: every other request is answered
  \<^verbatim>\<open>NotLoggedIn\<close> and changes nothing. A session starts only for a \<^verbatim>\<open>Login\<close> whose password
  was verified, for a name that was not logged in and is now marked as logged in.
\<close>

theorem sessions_start_only_with_credentials:
  assumes "untrusted_request c a rd st req = (Inr (response, started), st')"
  shows "((\<nexists>u pw. req = Login u pw \<or> req = SignUp u pw) \<longrightarrow>
      response = NotLoggedIn \<and> started = None \<and> st' = st) \<and>
    (\<forall>session. started = Some session \<longrightarrow>
      (let st1 = rd_env rd 1 st; st2 = rd_env rd 2 st1 in
       \<exists>pw. req = Login (se_username session) pw \<and> se_address session = a \<and> response = Ok \<and>
         length (se_username session) \<le> 32 \<and> length pw \<le> 32 \<and>
         verify_user_password (c_argon2 c) (rd_sql rd 0) (st_database st1) (se_username session) pw = Inr () \<and>
         se_username session \<notin> st_logged_users st2 \<and>
         st' = st2\<lparr>st_logged_users := insert (se_username session) (st_logged_users st2)\<rparr>))"
  using assms
  by (cases req)
    (auto simp: untrusted_login_def untrusted_sign_up_def Let_def Session_bundle_def credentials_length_error_def
      is_username_length_valid_def is_password_length_valid_def MAX_USERNAME_LEN_def MAX_PASSWORD_LEN_def
      split: option.splits sum.splits AuthenticationError.splits RegistrationError.splits prod.splits if_splits)

theorem sessions_start_only_with_credentials_witness:
  "untrusted_request plain_crates peer (plain_round LogOut None) (alice_state 1) (Login ''alice'' ''pw'') =
     (Inr (Ok, Some alice_session), (alice_state 1)\<lparr>st_logged_users := {''alice''}\<rparr>) \<and>
   verify_user_password plain_argon2 no_fault (alice_db 1) ''alice'' ''pw'' = Inr ()"
  using sessions_start_only_with_credentials[OF alice_logs_in[of LogOut None]] alice_logs_in[of LogOut None]
  by (simp add: plain_crates_def plain_round_def alice_state_def Let_def alice_session_def)

text \<open>
  Whatever the other tasks do, as long as they too only perform actions of the server, a
  connection keeps the server consistent: the tables satisfy the database invariant, every
  logged user exists, and no registered user disappears.
\<close>

lemma handler_preserves_server_inv:
  assumes "\<forall>rd \<in> set rds. env_ok c rd" and "server_inv st"
    and "conn_handler c a rds st = (r, st', sent)"
  shows "server_inv st' \<and>
    (\<forall>u. find_user (st_database st) u \<noteq> None \<longrightarrow> find_user (st_database st') u \<noteq> None)"
proof -
  have "(server_act c)\<^sup>*\<^sup>* st st'"
    using assms(3) unfolding conn_handler_def by (rule conn_handler_core_acts[OF assms(1,2)])
  then show ?thesis using acts_inv[of c st st'] acts_find_user[of c st st'] assms(2) by blast
qed

text \<open>
  C14. Sessions are exclusive and isolated: while a user is logged in on one connection,
  whatever another connection sends, it neither logs that user out nor changes anything of
  their account (password, balance, history); in particular it cannot open a second
  session for them.
\<close>

theorem sessions_are_exclusive:
  assumes "\<forall>rd \<in> set rds. quiet rd" and "server_inv st" and "v \<in> st_logged_users st"
    and "conn_handler_core c a rds st = (r, st', sent)"
  shows "v \<in> st_logged_users st' \<and> same_account v (st_database st) (st_database st')"
  using conn_handler_core_holds_account[OF assms(1) _ assms(4), of v st] assms(2,3)
  by (simp add: holds_account_def)

theorem sessions_are_exclusive_witness:
  "\<exists>r st' sent. conn_handler_core plain_crates peer [plain_round (Login ''alice'' ''pw'') None]
      ((alice_state 1)\<lparr>st_logged_users := {''alice''}\<rparr>) = (r, st', sent) \<and>
    ''alice'' \<in> st_logged_users st' \<and> find_user (st_database st') ''alice'' = find_user (alice_db 1) ''alice''"
proof -
  let ?st = "(alice_state 1)\<lparr>st_logged_users := {''alice''}\<rparr>"
  obtain r st' sent where run:
    "conn_handler_core plain_crates peer [plain_round (Login ''alice'' ''pw'') None] ?st = (r, st', sent)"
    by (rule prod_cases3)
  have "server_inv ?st" by (simp add: server_inv_def alice_state_def alice_db_inv find_alice)
  then show ?thesis
    using sessions_are_exclusive[OF _ _ _ run, of "''alice''"] run plain_round_quiet
    by (auto simp: same_account_def alice_state_def)
qed

text \<open>
  A session never ends because its user is missing or their data is corrupt: under any
  engine faults, stream errors and actions of other tasks, the errors
  \<^verbatim>\<open>UserShouldExistButWasNotFound\<close> and \<^verbatim>\<open>IntegrityViolation\<close> are unreachable for an existing
  user of a consistent server.
\<close>

lemma session_handler_keeps_promises:
  assumes "\<forall>rd \<in> set rds. env_ok c rd" and "server_inv st"
    and "find_user (st_database st) (se_username se) \<noteq> None"
    and "session_handler c se rds st = (Finished (Inl e) rest, st', sent)"
  shows "\<not> broken_promise e"
  using assms
proof (induction rds arbitrary: st sent)
  case (Cons rd rds)
  have env: "env_ok c rd" using Cons.prems(1) by simp
  let ?st0 = "rd_env rd 0 st"
  have 0: "server_inv ?st0" "find_user (st_database ?st0) (se_username se) \<noteq> None"
    using acts_user[OF env Cons.prems(2,3)] by auto
  have req: "\<not> broken_promise e'" if "session_request c se rd ?st0 q = (Returns (Inl e'), st1)" for q e' st1
    using session_request_keeps_promise[OF env 0 that] .
  have next': "server_inv (rd_env rd 4 st1) \<and> find_user (st_database (rd_env rd 4 st1)) (se_username se) \<noteq> None"
    if "session_request c se rd ?st0 q = (x, st1)" for q x st1
  proof -
    have "(server_act c)\<^sup>*\<^sup>* ?st0 st1" using session_request_acts[OF env, of ?st0 se q] that by simp
    then show ?thesis
      using acts_user[OF env, of st1] acts_inv[of c ?st0 st1] acts_find_user[of c ?st0 st1] 0 by blast
  qed
  have IH: "\<not> broken_promise e"
    if "session_request c se rd ?st0 q = (x, st1)"
      and "session_handler c se rds (rd_env rd 4 st1) = (Finished (Inl e) rest, st', s)" for q x st1 s
    using Cons.IH[of "rd_env rd 4 st1" s] next'[OF that(1)] that(2) Cons.prems(1) by simp
  show ?case
    using Cons.prems(4) req IH
    by (auto simp: Let_def broken_promise_def[of "HandlerError.Network _"] dest: send_response_not_promise
        split: sum.splits option.splits prod.splits outcome.splits if_splits)
qed simp

lemma untrusted_request_session:
  assumes "untrusted_request c a rd st req = (Inr (resp, Some se), st')"
  shows "se_username se \<in> st_logged_users st'"
  using assms
  by (cases req)
    (auto simp: untrusted_login_def untrusted_sign_up_def Let_def Session_bundle_def
      split: option.splits sum.splits AuthenticationError.splits RegistrationError.splits prod.splits if_splits)

lemma untrusted_request_not_promise:
  "untrusted_request c a rd st req = (Inl e, st') \<Longrightarrow> \<not> broken_promise e"
  by (cases req)
    (auto simp: untrusted_login_def untrusted_sign_up_def Let_def broken_promise_def
      split: option.splits sum.splits AuthenticationError.splits RegistrationError.splits prod.splits if_splits)

lemma untrusted_round_inv:
  assumes "env_ok c rd" and "server_inv st" and "untrusted_request c a rd (rd_env rd 0 st) req = (x, st1)"
  shows "server_inv st1" and "server_inv (rd_env rd 4 st1)"
proof -
  have i0: "server_inv (rd_env rd 0 st)" using acts_inv[OF acts_env[OF assms(1) rtranclp.rtrancl_refl] assms(2)] .
  have acts: "(server_act c)\<^sup>*\<^sup>* (rd_env rd 0 st) st1" using untrusted_request_acts[OF assms(1) i0, of a req] assms(3) by simp
  show "server_inv st1" "server_inv (rd_env rd 4 st1)"
    using acts_inv[OF acts i0] acts_inv[OF acts_env[OF assms(1) acts, of 4] i0] by simp_all
qed

lemma started_session_keeps_promises:
  assumes "env_ok c rd" and "server_inv st" and "\<forall>rd \<in> set rds. env_ok c rd"
    and "untrusted_request c a rd (rd_env rd 0 st) req = (Inr (resp, Some se), st1)"
    and "session_handler c se rds (rd_env rd 4 st1) = (Finished (Inl e) rest, st2, sent)"
  shows "\<not> broken_promise e"
proof -
  note inv = untrusted_round_inv[OF assms(1,2,4)]
  have "find_user (st_database st1) (se_username se) \<noteq> None"
    using untrusted_request_session[OF assms(4)] inv(1) by (simp add: server_inv_def)
  then have "find_user (st_database (rd_env rd 4 st1)) (se_username se) \<noteq> None"
    using acts_user[OF assms(1) inv(1)] by blast
  from session_handler_keeps_promises[OF assms(3) inv(2) this assms(5)] show ?thesis .
qed

lemma conn_handler_core_keeps_promises:
  assumes "\<forall>rd \<in> set rds. env_ok c rd" and "server_inv st"
    and "conn_handler_core c a rds st = (Finished (Inl e) rest, st', sent)"
  shows "\<not> broken_promise e"
  using assms
proof (induction "length rds" arbitrary: rds st sent rule: less_induct)
  case less
  show ?case
  proof (cases rds)
    case (Cons rd rds')
    let ?q = "untrusted_request c a rd (rd_env rd 0 st)"
    have env: "env_ok c rd" and envs: "\<forall>rd \<in> set rds'. env_ok c rd" using less.prems(1) Cons by auto
    note i4 = untrusted_round_inv(2)[OF env less.prems(2)]
    note sess = started_session_keeps_promises[OF env less.prems(2) envs]
    have IH: "\<not> broken_promise e"
      if "?q req = (x, st1)" and "conn_handler_core c a rds' (rd_env rd 4 st1) = (Finished (Inl e) rest, st', s)"
      for req x st1 s
      using less.hyps[OF _ envs i4[OF that(1)] that(2)] Cons by simp
    have after: "\<not> broken_promise e"
      if "?q req = (x, st1)" and "session_handler c se rds' (rd_env rd 4 st1) = (Finished y rest', st2, s)"
        and "conn_handler_core c a rest' (logged_users_remove u st2) = (Finished (Inl e) rest, st', s')"
      for req x st1 se y rest' st2 s u s'
    proof -
      have "(server_act c)\<^sup>*\<^sup>* (rd_env rd 4 st1) (logged_users_remove u st2)"
        using session_handler_acts[OF envs that(2)] by (rule acts_logout)
      from acts_inv[OF this i4[OF that(1)]] show ?thesis
        using less.hyps[OF _ _ _ that(3)] session_handler_rest[OF that(2)] session_handler_rest_set[OF that(2)] envs Cons
        by auto
    qed
    show ?thesis
      using less.prems(3) Cons sess IH after
      by (auto simp: Let_def broken_promise_def[of "HandlerError.Network _"]
          dest: send_response_not_promise untrusted_request_not_promise
          split: sum.splits option.splits prod.splits run.splits ClosedSessionReason.splits)
  qed (use less.prems(3) in simp)
qed

text \<open>
  When a connection ends, it leaves the set of logged users as it found it: every name it
  logged in was logged out again, provided the reply to each successful login was sent.
\<close>

lemma finished_connections_release_user:
  assumes "\<forall>rd \<in> set rds. quiet rd \<and> login_reply_sent c a rd"
    and "conn_handler_core c a rds st = (Finished r rest, st', sent)"
  shows "st_logged_users st' = st_logged_users st"
  using assms
proof (induction "length rds" arbitrary: rds st sent rule: less_induct)
  case less
  show ?case
  proof (cases rds)
    case (Cons rd rds')
    have qt: "quiet rd" and sent: "login_reply_sent c a rd" and qs: "\<forall>rd \<in> set rds'. quiet rd"
      using less.prems(1) Cons by auto
    have q: "rd_env rd i s = s" for i s using qt by (simp add: quiet_def)
    have IH: "st_logged_users st' = st_logged_users st2"
      if "set rds2 \<subseteq> set rds'" "length rds2 \<le> length rds'"
        "conn_handler_core c a rds2 st2 = (Finished r rest, st', s)" for rds2 st2 s
      using less.hyps[of rds2 st2 s] that less.prems(1) Cons by auto
    show ?thesis
    proof (cases "\<exists>req. fetch_next_request (c_wincode c) (c_max_frame c) (rd_select rd) a = Inr (Some req)")
      case True
      then obtain req where
        req: "fetch_next_request (c_wincode c) (c_max_frame c) (rd_select rd) a = Inr (Some req)" by blast
      obtain out st1 where out: "untrusted_request c a rd st req = (out, st1)" by fastforce
      from untrusted_request_logged[OF qt out] show ?thesis
      proof (elim disjE exE conjE)
        fix session u pw
        assume login: "out = Inr (Ok, Some session)" "req = Login u pw" "se_username session = u"
          "u \<notin> st_logged_users st" "st_logged_users st1 = insert u (st_logged_users st)"
        have "send_response (c_wincode c) a (rd_send rd) Ok = Inr ()"
          using sent req login(2) by (simp add: login_reply_sent_def)
        from logged_round_released[OF less.prems(2)[unfolded Cons] qt qs req out[unfolded login(1)] this
            login(3-5)] show ?thesis using IH by blast
      qed (use less.prems(2) IH[OF subset_refl le_refl] in
          \<open>auto simp: Cons Let_def q req out split: sum.splits prod.splits\<close>)
    next
      case False
      then show ?thesis
        using less.prems(2) unfolding Cons by (auto simp: Let_def q split: sum.splits option.splits)
    qed
  qed (use less.prems in simp)
qed

text \<open>
  C33. The proviso is needed: when the reply to a successful login cannot be serialised or sent,
  the connection ends with the user still marked as logged in, and every later login of
  that user is refused as already logged in.
\<close>

theorem failed_login_reply_locks_user:
  assumes "quiet rd" and "quiet rd'"
    and "fetch_next_request (c_wincode c) (c_max_frame c) (rd_select rd) a = Inr (Some (Login u pw))"
    and "length u \<le> 32" and "length pw \<le> 32" and "u \<notin> st_logged_users st"
    and "verify_user_password (c_argon2 c) (rd_sql rd 0) (st_database st) u pw = Inr ()"
    and "verify_user_password (c_argon2 c) (rd_sql rd' 0) (st_database st) u pw = Inr ()"
    and "send_response (c_wincode c) a (rd_send rd) Ok = Inl e"
  shows "\<exists>st'. conn_handler_core c a (rd # rds) st = (Finished (Inl e) rds, st', []) \<and>
    u \<in> st_logged_users st' \<and>
    untrusted_request c b rd' st' (Login u pw) = (Inr (LoginFailed LoginError.AlreadyLoggedIn, None), st')"
proof -
  have cl: "credentials_length_error u pw = None"
    using assms(4,5) by (simp add: credentials_length_error_def is_username_length_valid_def
        is_password_length_valid_def MAX_USERNAME_LEN_def MAX_PASSWORD_LEN_def)
  have q: "rd_env rd i s = s" "rd_env rd' i s = s" for i s using assms(1,2) by (simp_all add: quiet_def)
  let ?st = "st\<lparr>st_logged_users := insert u (st_logged_users st)\<rparr>"
  have "untrusted_request c a rd st (Login u pw) = (Inr (Ok, Some (Session_bundle a u)), ?st)"
    using assms(6,7) by (simp add: untrusted_login_def cl q Let_def)
  then have "conn_handler_core c a (rd # rds) st = (Finished (Inl e) rds, ?st, [])"
    using assms(3,9) by (simp add: q Let_def)
  moreover have "untrusted_request c b rd' ?st (Login u pw) = (Inr (LoginFailed LoginError.AlreadyLoggedIn, None), ?st)"
    using assms(8) by (simp add: untrusted_login_def cl q Let_def)
  ultimately show ?thesis by auto
qed

theorem failed_login_reply_locks_user_witness:
  "\<exists>st'. conn_handler_core plain_crates peer
       [plain_round (Login ''alice'' ''pw'') (Some (IoError BrokenPipe ''broken pipe''))] (alice_state 1) =
     (Finished (Inl (HandlerError.Network ConnectionDropped)) [], st', []) \<and>
   untrusted_request plain_crates peer (plain_round LogOut None) st' (Login ''alice'' ''pw'') =
     (Inr (LoginFailed LoginError.AlreadyLoggedIn, None), st')"
proof -
  have "\<exists>st'. conn_handler_core plain_crates peer
       [plain_round (Login ''alice'' ''pw'') (Some (IoError BrokenPipe ''broken pipe''))] (alice_state 1) =
     (Finished (Inl (HandlerError.Network ConnectionDropped)) [], st', []) \<and> ''alice'' \<in> st_logged_users st' \<and>
   untrusted_request plain_crates peer (plain_round LogOut None) st' (Login ''alice'' ''pw'') =
     (Inr (LoginFailed LoginError.AlreadyLoggedIn, None), st')"
    by (rule failed_login_reply_locks_user[OF plain_round_quiet plain_round_quiet plain_fetch_login])
      (simp_all add: plain_round_def alice_state_def alice_verifies plain_send_failure, simp_all add: plain_crates_def alice_verifies)
  then show ?thesis by blast
qed

text \<open>
  C34. A signing request that ends the session (clock before the epoch, a failure to record the
  signature, a panic of the signing function) keeps the token it charged: there is no
  refund on these paths.
\<close>

theorem aborted_signing_keeps_charge:
  assumes "quiet rd" and "rd_sql rd 0 = no_fault" and "db_inv (st_database st)"
    and "balance (st_database st) (se_username se) = Some (Suc b)"
    and "session_request c se rd st (SignHash h) = (out, st')"
    and "\<forall>r logout. out \<noteq> Returns (Inr (r, logout))"
  shows "balance (st_database st') = (balance (st_database st))(se_username se \<mapsto> b)"
proof -
  let ?u = "se_username se" and ?db = "st_database st"
  have q: "rd_env rd i s = s" for i s using assms(1) by (simp add: quiet_def)
  obtain r where r: "find_user ?db ?u = Some r" "unat (u_available_tokens r) = Suc b"
    using assms(4) by (auto simp: balance_def)
  obtain k db where sub: "subtract_user_tokens no_fault ?db ?u 1 = (Inr k, db)"
    using r by (simp add: subtract_user_tokens_eq[OF assms(3)])
  have ch: "balance db = (balance ?db)(?u \<mapsto> b)"
    using charge_one[OF assms(3) sub assms(4)] by simp
  show ?thesis
    using assms(5,6) sub ch add_user_record_balance[of "rd_sql rd 1" db ?u]
    by (auto simp: session_sign_hash_def q Let_def assms(2)
        split: option.splits outcome.splits sum.splits prod.splits AddRecordError.splits)
      (metis snd_conv)+
qed

theorem aborted_signing_keeps_charge_witness:
  "session_request plain_crates alice_session ((plain_round LogOut None)\<lparr>rd_now := - 1\<rparr>) (alice_state 1)
       (SignHash alice_hash) =
     (Returns (Inl (HandlerError.Domain (Some ''alice'') ClockStaggered)), alice_state 0) \<and>
   balance (alice_db 0) = (balance (alice_db 1))(''alice'' \<mapsto> 0)"
proof -
  have run: "session_request plain_crates alice_session ((plain_round LogOut None)\<lparr>rd_now := - 1\<rparr>) (alice_state 1)
       (SignHash alice_hash) =
     (Returns (Inl (HandlerError.Domain (Some ''alice'') ClockStaggered)), alice_state 0)"
    by (simp add: session_sign_hash_def plain_round_def alice_state_def alice_session_def Let_def
        alice_charge time_now_eq duration_since_epoch_def system_time_ok_def NANOS_def)
  have "balance (st_database (alice_state 0)) = (balance (st_database (alice_state 1)))(''alice'' \<mapsto> 0)"
    using aborted_signing_keeps_charge[OF _ _ _ _ run, of 0] alice_db_inv[of 1]
    by (simp add: quiet_def plain_round_def alice_state_def alice_session_def
        balance_def[of "alice_db 1" "''alice''"] find_alice alice_tokens)
  with run show ?thesis by (simp add: alice_state_def)
qed

text \<open>
  A username or a password of more than 32 bytes is refused without touching the shared
  state: a login fails as with wrong credentials, a registration is answered with an error.
\<close>

lemma overlong_credentials_never_reach_database:
  assumes "32 < length u \<or> 32 < length pw"
  shows "untrusted_request c a rd st (Login u pw) = (Inr (LoginFailed InvalidCredentials, None), st) \<and>
    (\<exists>reason. untrusted_request c a rd st (SignUp u pw) = (Inr (OperationError reason, None), st))"
  using assms
  by (auto simp: untrusted_login_def untrusted_sign_up_def credentials_length_error_def
      is_username_length_valid_def is_password_length_valid_def MAX_USERNAME_LEN_def MAX_PASSWORD_LEN_def)

end
