(* ===== verification/Client_Server.thy ===== *)
theory Client_Server
  imports Client_Cli Handler_Properties
begin

text \<open>
  The client and the server together: the stream of the client is answered by the request
  handlers of the server.
\<close>

section \<open>Exchanges\<close>

text \<open>
  \<open>server_exchange\<close>: the answer of the server to one request, in a session or before login,
  and whether the connection is in a session afterwards. \<open>session_answers\<close>: what comes
  back on the stream of a logged user for the bytes of one request.
\<close>

definition server_exchange ::
    "('h, 'sk, 'pk, 'ph) crates \<Rightarrow> Session \<Rightarrow> 'sk round \<Rightarrow> 'sk STSServerState \<Rightarrow> bool \<Rightarrow> Request
     \<Rightarrow> (Response \<times> bool) option" where
  "server_exchange c session rd st in_session req =
     (if in_session
      then (case session_request c session rd st req of
              (Returns (Inr (resp, out)), _) \<Rightarrow> Some (resp, \<not> out)
            | _ \<Rightarrow> None)
      else (case untrusted_request c (se_address session) rd st req of
              (Inr (resp, started), _) \<Rightarrow> Some (resp, started \<noteq> None)
            | _ \<Rightarrow> None))"

definition received :: "'sk round \<Rightarrow> byte list \<Rightarrow> 'sk round" where
  "received rd message = rd\<lparr>rd_select := StreamNext (Some (Inr message))\<rparr>"

definition session_answers ::
    "('h, 'sk, 'pk, 'ph) crates \<Rightarrow> Session \<Rightarrow> 'sk round \<Rightarrow> 'sk STSServerState \<Rightarrow> byte list
     \<Rightarrow> (io_error + byte list) option" where
  "session_answers c session rd st message =
     (case session_handler c session [received rd message] st of
        (_, _, resp # _) \<Rightarrow>
          (case Response_serialize (c_wincode c) resp of Inl _ \<Rightarrow> None | Inr frame \<Rightarrow> Some (Inr frame))
      | _ \<Rightarrow> None)"

text \<open>
  The request a round of the menu sends, if it sends one, and the relation between a round
  and the server that answers it.
\<close>

definition cli_request :: "('h, 'sk, 'pk, 'dt) cli_env \<Rightarrow> cli_round \<Rightarrow> cli_state \<Rightarrow> Request option" where
  "cli_request env rd st =
     (case in_choice rd of
        None \<Rightarrow> None
      | Some choice \<Rightarrow>
          (if choice = ''Login'' \<or> choice = ''Signup''
           then (case (in_user rd, in_pass rd) of
                   (Some u, Some p) \<Rightarrow>
                     (if snd (validate_credentials_length u p)
                      then Some (if choice = ''Login'' then Login u p else SignUp u p) else None)
                 | _ \<Rightarrow> None)
           else if choice = ''Logout'' then Some LogOut
           else if choice = ''Check Tokens'' then Some HowManyTokensDoIHave
           else if choice = ''Buy Tokens'' then map_option PurchaseTokens (in_amount rd)
           else if choice = ''History'' then Some Request.History
           else if choice = ''Hash a File''
           then (case (in_file rd, in_out rd) of
                   (Some f_raw, Some o_raw) \<Rightarrow>
                     (case create_new (in_create rd) (path_key (clean_path o_raw)) (cli_files st) of
                        Inl _ \<Rightarrow> None
                      | Inr files \<Rightarrow>
                          (case hash_file (env_crypto env) (\<lambda>p. env_os env (files (path_key p)))
                                  (clean_path f_raw) None of
                             Inl _ \<Rightarrow> None
                           | Inr h \<Rightarrow> Some (SignHash h)))
                 | _ \<Rightarrow> None)
           else None))"

definition exchanged :: "wincode \<Rightarrow> stream_link \<Rightarrow> Request \<Rightarrow> Response \<Rightarrow> bool" where
  "exchanged w link req resp \<longleftrightarrow>
     (\<exists>message frame. Request_serialize w req = Inr message \<and> sl_send link = None \<and>
        Response_serialize w resp = Inr frame \<and> sl_next link message = Some (Inr frame))"

section \<open>Lemmas\<close>

lemma exchanged_send: "wincode_correct w \<Longrightarrow> exchanged w link req resp \<Longrightarrow> send_request w link req = Inr resp"
  by (auto simp: exchanged_def send_request_Inr_iff wincode_correct_def Response_serialize_def
      Response_deserialize_def)

lemma session_request_leaves:
  assumes "session_request c se rd st req = (Returns (Inr (resp, out)), st')"
  shows "out \<longleftrightarrow> req = LogOut" and "req = LogOut \<Longrightarrow> resp = Ok"
  using assms
  by (cases req; auto simp: session_sign_hash_def session_purchase_def session_token_count_def session_history_def Let_def
      split: sum.splits prod.splits option.splits outcome.splits SubtractTokensError.splits AddTokensError.splits
        GetTokensError.splits UserHistoryError.splits AddRecordError.splits)+

lemma untrusted_request_starts:
  assumes "untrusted_request c a rd st req = (Inr (resp, started), st')"
  shows "started \<noteq> None \<longleftrightarrow> (\<exists>u p. req = Login u p) \<and> resp = Ok"
  using assms
  by (cases req)
    (auto simp: untrusted_login_def untrusted_sign_up_def Let_def
      split: sum.splits prod.splits option.splits if_splits AuthenticationError.splits RegistrationError.splits)

lemma server_exchange_mode:
  assumes "server_exchange c se rd st in_session req = Some (resp, m)"
  shows "m = (if in_session then req \<noteq> LogOut else (\<exists>u p. req = Login u p) \<and> resp = Ok)"
    and "in_session \<Longrightarrow> req = LogOut \<Longrightarrow> resp = Ok"
proof -
  show "m = (if in_session then req \<noteq> LogOut else (\<exists>u p. req = Login u p) \<and> resp = Ok)"
  proof (cases in_session)
    case True
    then obtain out st' where "session_request c se rd st req = (Returns (Inr (resp, out)), st')" "m = (\<not> out)"
      using assms by (auto simp: server_exchange_def split: prod.splits outcome.splits sum.splits)
    note r = this
    show ?thesis using session_request_leaves(1)[OF r(1)] r(2) True by simp
  next
    case False
    then obtain started st' where "untrusted_request c (se_address se) rd st req = (Inr (resp, started), st')"
        "m = (started \<noteq> None)"
      using assms by (auto simp: server_exchange_def split: prod.splits sum.splits)
    note r = this
    show ?thesis using untrusted_request_starts[OF r(1)] r(2) False by simp
  qed
  assume s: "in_session" "req = LogOut"
  with assms obtain out st' where "session_request c se rd st req = (Returns (Inr (resp, out)), st')"
    by (auto simp: server_exchange_def split: prod.splits outcome.splits sum.splits)
  then show "resp = Ok" using s(2) by (rule session_request_leaves(2))
qed

text \<open>The flag after a round, from the request that was sent and its answer.\<close>

lemma cli_step_flag:
  assumes "cli_step env rd st = Returns (msgs, st', go_on)"
  shows "cli_request env rd st = None \<Longrightarrow> is_logged_in st' = is_logged_in st"
    and "cli_request env rd st = Some req \<Longrightarrow> send_request (env_wincode env) (in_link rd) req = Inr resp \<Longrightarrow>
      is_logged_in st' = (if resp = Ok \<and> (\<exists>u p. req = Login u p) then True
                          else if resp = Ok \<and> req = LogOut then False else is_logged_in st)"
  using assms
  by (auto simp: cli_step_def cli_request_def cli_login_def cli_signup_def cli_logout_def cli_check_tokens_def
      cli_buy_tokens_def cli_verify_hash_def cli_hash_file_def cli_history_def client_calls Let_def
      split: option.splits if_splits sum.splits Response.splits prod.splits outcome.splits bool.splits)

text \<open>One request of a logged user, received as its bytes and answered.\<close>

lemma session_handler_answers:
  assumes "wincode_correct (c_wincode c)" and "Request_serialize (c_wincode c) req = Inr message"
    and "session_request c se (received rd message) (rd_env rd 0 st) req = (Returns (Inr (resp, False)), st')"
    and "Response_serialize (c_wincode c) resp = Inr frame" and "rd_send rd = None"
  shows "session_handler c se [received rd message] st = (Waiting, rd_env rd 4 st', [resp])"
    and "session_answers c se rd st message = Some (Inr frame)"
proof -
  have "Request_deserialize (c_wincode c) message = Inr req"
    using assms(1,2) by (auto simp: wincode_correct_def Request_serialize_def Request_deserialize_def)
  then show h: "session_handler c se [received rd message] st = (Waiting, rd_env rd 4 st', [resp])"
    using assms(3-5) by (simp add: received_def fetch_next_request_def send_response_def Let_def)
  show "session_answers c se rd st message = Some (Inr frame)"
    unfolding session_answers_def h using assms(4) by simp
qed

section \<open>Properties\<close>

text \<open>
  C29. The menu of the client follows the server: when a round of the menu sends a request and the
  server answers it, in a session exactly if the menu is the one of a logged user, then
  after the round the menu is the one of a logged user exactly if the connection is in a
  session; and a round that sends nothing leaves the menu as it was.
\<close>

theorem client_menu_follows_server:
  assumes "wincode_correct (env_wincode env)" and "in_choice rd = Some choice"
    and "choice \<in> set (menu (is_logged_in cst))"
    and "cli_step env rd cst = Returns (msgs, cst', go_on)"
    and "\<forall>req. cli_request env rd cst = Some req \<longrightarrow>
      (\<exists>resp. server_exchange c se srd st (is_logged_in cst) req = Some (resp, mode) \<and>
         exchanged (env_wincode env) (in_link rd) req resp)"
  shows "is_logged_in cst' = (if cli_request env rd cst = None then is_logged_in cst else mode)"
proof (cases "cli_request env rd cst")
  case None
  then show ?thesis using cli_step_flag(1)[OF assms(4)] by simp
next
  case (Some req)
  then obtain resp where ex: "server_exchange c se srd st (is_logged_in cst) req = Some (resp, mode)"
    and wire: "exchanged (env_wincode env) (in_link rd) req resp" using assms(5) by blast
  note flag = cli_step_flag(2)[OF assms(4) Some exchanged_send[OF assms(1) wire]]
  have menu: "is_logged_in cst \<Longrightarrow> \<nexists>u p. req = Login u p" "\<not> is_logged_in cst \<Longrightarrow> req \<noteq> LogOut"
    using assms(2,3) Some by (auto simp: cli_request_def menu_def split: option.splits if_splits sum.splits)
  show ?thesis
    using server_exchange_mode[OF ex] flag menu Some by (cases "is_logged_in cst") auto
qed

theorem client_menu_follows_server_witness:
  "\<exists>msgs cst' go_on. cli_step plain_cli
     (idle_round\<lparr>in_choice := Some ''Login'', in_user := Some ''alice'', in_pass := Some ''pw'',
        in_link := answer_with Ok\<rparr>) (cli_start\<lparr>is_logged_in := False\<rparr>) = Returns (msgs, cst', go_on) \<and>
   is_logged_in cst'"
proof -
  let ?rd = "idle_round\<lparr>in_choice := Some ''Login'', in_user := Some ''alice'', in_pass := Some ''pw'',
        in_link := answer_with Ok\<rparr>" and ?st = "cli_start\<lparr>is_logged_in := False\<rparr>"
  have w: "env_wincode plain_cli = plain_wincode" by (simp add: plain_cli_def)
  have req: "cli_request plain_cli ?rd ?st = Some (Login ''alice'' ''pw'')"
    by (simp add: cli_request_def validate_credentials_length_def is_username_length_valid_def
        is_password_length_valid_def MAX_USERNAME_LEN_def MAX_PASSWORD_LEN_def)
  have ex: "server_exchange plain_crates alice_session (plain_round LogOut None) (alice_state 1)
      (is_logged_in ?st) (Login ''alice'' ''pw'') = Some (Ok, True)"
    using alice_logs_in[of LogOut None] by (simp add: server_exchange_def alice_session_def)
  have wire: "exchanged plain_wincode (answer_with Ok) (Login ''alice'' ''pw'') Ok"
    by (simp add: exchanged_def answer_with_def Request_serialize_def Response_serialize_def plain_wincode_def
        MAX_ALLOCATION_def)
  obtain msgs cst' where "cli_login plain_cli ?rd ?st = (msgs, cst')" by fastforce
  then have step: "cli_step plain_cli ?rd ?st = Returns (msgs, cst', True)" by (simp add: cli_step_def)
  have "is_logged_in cst' = True"
    using client_menu_follows_server[OF _ _ _ step, of "''Login''" plain_crates alice_session
        "plain_round LogOut None" "alice_state 1" True] req ex wire plain_wincode_correct w
    by (simp add: menu_def)
  with step show ?thesis by blast
qed

text \<open>
  C17. From the document to the verified token: a logged user with a positive balance who hashes a
  file against a working server is told that the hash was signed and that the local
  verification passed; the signature is in the output file; and on the server the user has paid
  one token and the signature is in their history.
\<close>

theorem client_obtains_verified_timestamp:
  assumes "env_wincode env = c_wincode c" and "env_crypto env = c_crypto c" and "wincode_correct (c_wincode c)"
    and "rsa_correct (c_crypto c) (st_signing_key st) (cl_server_rsa_public_key (env_client env))"
    and "in_file crd = Some f_raw" and "in_out crd = Some o_raw" and "in_write crd = Inr 256"
    and "create_new (in_create crd) (path_key (clean_path o_raw)) (cli_files cst) = Inr files"
    and "hash_file (c_crypto c) (\<lambda>p. env_os env (files (path_key p))) (clean_path f_raw) None = Inr h"
    and "in_link crd = \<lparr>sl_send = None, sl_next = session_answers c se rd st\<rparr>"
    and "Request_serialize (c_wincode c) (SignHash h) = Inr message"
    and "Response_serialize (c_wincode c) (Token h s (Timestamp (of_nat n))) = Inr frame"
    and "quiet rd" and "rd_sql rd = (\<lambda>_. no_fault)" and "rd_send rd = None" and "db_inv (st_database st)"
    and "balance (st_database st) (se_username se) = Some (Suc b)"
    and "time_now (st_time_oracle st) (rd_now rd) = int n"
    and "generate_timestamp_signature (c_crypto c) (rd_spawn rd) (st_signer st) (st_signing_key st) h
           (Timestamp (of_nat n)) = Returns (Inr s)"
    and "\<forall>r \<in> user_records (st_database st) (se_username se). hr_timestamp r \<noteq> Timestamp (of_nat n)"
  shows "(\<exists>d. cli_hash_file env crd cst =
      ([SignedSuccessfully h d (Timestamp (of_nat n)), SignatureSaved, LocalVerificationPassed],
       cst\<lparr>cli_files := files(path_key (clean_path o_raw) \<mapsto> RsaSignature_as_bytes s)\<rparr>)) \<and>
    (\<exists>st'. session_handler c se [received rd message] st = (Waiting, st', [Token h s (Timestamp (of_nat n))]) \<and>
       balance (st_database st') = (balance (st_database st))(se_username se \<mapsto> b) \<and>
       \<lparr>hr_sign = s, hr_timestamp = Timestamp (of_nat n)\<rparr> \<in> user_records (st_database st') (se_username se))"
proof -
  let ?t = "Timestamp (of_nat n)" and ?rd = "received rd message" and ?pk = "cl_server_rsa_public_key (env_client env)"
  have q: "quiet ?rd" "rd_env rd i x = x" for i x using assms(13) by (simp_all add: quiet_def received_def)
  obtain st' where req: "session_request c se ?rd st (SignHash h) = (Returns (Inr (Token h s ?t, False)), st')"
    using funded_request[OF q(1) _ assms(16,17) _ _ assms(20), of c h s] assms(14,18,19) by (auto simp: received_def)
  note answer = session_handler_answers[OF assms(3,11) _ assms(12,15), of se st st', unfolded q(2), OF req]
  have token: "verify_timestamp_signature (c_crypto c) ?pk h ?t s = Inr ()"
    "\<lparr>hr_sign = s, hr_timestamp = ?t\<rparr> \<in> user_records (st_database st') (se_username se)"
    using issued_token[OF quiet_env_ok[OF q(1)] assms(4) req] by auto
  have paid: "balance (st_database st') = (balance (st_database st))(se_username se \<mapsto> b)"
    using signing_charge[OF q(1) assms(16,17) req] by simp
  have len: "take 256 (RsaSignature_as_bytes s) = RsaSignature_as_bytes s"
    using any_signer.issued_wf[OF assms(19)]
    by (simp add: wf_signature_def RSA_KEY_SIZE_IN_BYTES_def RSA_KEY_SIZE_IN_BITS_def)
  have "timestamp_hash (c_wincode c) (in_link crd) h = Inr (Token h s ?t)"
    unfolding timestamp_hash_def
    by (rule exchanged_send[OF assms(3)]) (use assms(10,11,12) answer(2) in \<open>auto simp: exchanged_def\<close>)
  then have "\<exists>d. cli_hash_file env crd cst = ([SignedSuccessfully h d ?t, SignatureSaved, LocalVerificationPassed],
       cst\<lparr>cli_files := files(path_key (clean_path o_raw) \<mapsto> RsaSignature_as_bytes s)\<rparr>)"
    using assms(1,2,5-9) token(1) len by (simp add: cli_hash_file_def Let_def)
  with answer(1) token(2) paid show ?thesis by blast
qed

theorem client_obtains_verified_timestamp_witness:
  "\<exists>d cst'. cli_hash_file plain_cli
     ((sign_round Ok)\<lparr>in_link := \<lparr>sl_send = None, sl_next = session_answers (plain_crates\<lparr>c_crypto := wide_crypto\<rparr>)
        alice_session (plain_round LogOut None) (alice_state 1)\<rparr>\<rparr>) cli_start =
   ([SignedSuccessfully doc_hash d (Timestamp 9), SignatureSaved, LocalVerificationPassed], cst')"
proof -
  let ?c = "plain_crates\<lparr>c_crypto := wide_crypto\<rparr>" and ?rd = "plain_round LogOut None"
  let ?crd = "(sign_round Ok)\<lparr>in_link := \<lparr>sl_send = None, sl_next = session_answers ?c alice_session ?rd (alice_state 1)\<rparr>\<rparr>"
  have w: "c_wincode ?c = plain_wincode" and cr: "c_crypto ?c = wide_crypto"
    by (simp_all add: plain_crates_def)
  have rsa: "rsa_correct wide_crypto () ()"
    using plain_crypto_correct by (simp add: rsa_correct_def wide_crypto_def)
  have sign: "generate_timestamp_signature wide_crypto None SlowSigner () doc_hash (Timestamp 9) =
      Returns (Inr (wide_signature doc_hash))"
    by (simp add: SlowSigner_generate_def spawn_blocking_def sign_with_timestamp_def wide_crypto_def
        plain_crypto_def doc_hash_def wide_signature_def RSA_KEY_SIZE_IN_BYTES_def RSA_KEY_SIZE_IN_BITS_def)
  have b: "balance (st_database (alice_state 1)) (se_username alice_session) = Some (Suc 0)"
    by (simp add: alice_state_def alice_session_def balance_def find_alice alice_tokens)
  have m: "Request_serialize (c_wincode ?c) (SignHash doc_hash) = Inr (3 # Sha256Hash_as_bytes doc_hash)"
    and f: "\<exists>frame. Response_serialize (c_wincode ?c) (Token doc_hash (wide_signature doc_hash) (Timestamp (of_nat 9))) = Inr frame"
    by (simp_all add: w plain_wincode_def Request_serialize_def Response_serialize_def doc_wf)
  then obtain frame where f: "Response_serialize (c_wincode ?c)
      (Token doc_hash (wide_signature doc_hash) (Timestamp (of_nat 9))) = Inr frame" by blast
  have "\<exists>d. cli_hash_file plain_cli ?crd cli_start =
      ([SignedSuccessfully doc_hash d (Timestamp (of_nat 9)), SignatureSaved, LocalVerificationPassed],
       cli_start\<lparr>cli_files := (cli_files cli_start)(path_key ''doc.sig'' \<mapsto> [], path_key (clean_path ''doc.sig'') \<mapsto>
         RsaSignature_as_bytes (wide_signature doc_hash))\<rparr>)"
    by (rule conjunct1[OF client_obtains_verified_timestamp[where c = ?c and crd = ?crd and rd = ?rd and
          st = "alice_state 1" and n = 9 and b = 0 and f_raw = "''doc.txt''" and h = doc_hash, OF _ _ _ _ _ _ _ _ _ _ m f]])
      (use doc_hashed rsa sign b in \<open>simp_all add: w cr plain_wincode_correct plain_cli_def quiet_def
        sign_round_def idle_round_def create_new_def cli_start_def alice_state_def plain_round_def alice_db_inv
        user_records_def alice_no_history time_now_def time_checked_add_def system_time_ok_def NANOS_def\<close>)
  then show ?thesis by auto
qed

end
