(* ===== verification/Database_Builder.thy ===== *)
theory Database_Builder
  imports Database Safe_Read
begin

text \<open>
  Opening the database, \<^verbatim>\<open>ServerDataBaseBuilder\<close> of \<^verbatim>\<open>server/src/database.rs\<close>. A database file is
  its schema (the rows of \<^verbatim>\<open>sqlite_master\<close>) and its tables; the disk maps paths to such files
  and has a set of directories. As for the operations, \<open>io i\<close> is the failure of the \<open>i\<close>-th
  awaited statement. The decoding of an SQL integer as an \<^verbatim>\<open>i32\<close> is the parameter
  \<open>decode_i32\<close> (it belongs to \<^verbatim>\<open>sqlx\<close>).
\<close>

section \<open>Files and schema\<close>

datatype DataBaseLocation = Disk string | Memory

record schema_entry =
  sch_type :: string
  sch_name :: string
  sch_columns :: "string list"

record SqliteFile =
  sf_schema :: "schema_entry list"
  sf_db :: ServerDb

record disk =
  dk_files :: "string \<rightharpoonup> SqliteFile"
  dk_dirs :: "string set"

definition path_exists :: "disk \<Rightarrow> string \<Rightarrow> bool" where
  "path_exists d p \<longleftrightarrow> dk_files d p \<noteq> None \<or> p \<in> dk_dirs d"

text \<open>\<^verbatim>\<open>create_dir_all\<close>: the directory and its ancestors.\<close>

definition path_ancestors :: "string \<Rightarrow> string list" where
  "path_ancestors p =
     map (\<lambda>n. (if path_is_absolute p then ''/'' else []) @ join_slash (take (Suc n) (path_components p)))
       [0..<length (path_components p)]"

definition create_dir_all :: "(string \<Rightarrow> io_error option) \<Rightarrow> string \<Rightarrow> disk \<Rightarrow> io_error + disk" where
  "create_dir_all mkdir p d =
     (case mkdir p of
        Some e \<Rightarrow> Inl e
      | None \<Rightarrow> Inr (d\<lparr>dk_dirs := dk_dirs d \<union> set (path_ancestors p)\<rparr>))"

definition empty_file :: SqliteFile where
  "empty_file = \<lparr>sf_schema = [], sf_db = empty_db\<rparr>"

text \<open>SQLite compares identifiers without regard to ASCII case.\<close>

definition lower :: "string \<Rightarrow> string" where
  "lower s = map (\<lambda>ch. if 65 \<le> (of_char ch :: nat) \<and> of_char ch \<le> (90 :: nat)
                       then char_of (of_char ch + 32 :: nat) else ch) s"

text \<open>\<^verbatim>\<open>name LIKE 'sqlite_%'\<close>: the underscore matches any one character.\<close>

definition like_sqlite :: "string \<Rightarrow> bool" where
  "like_sqlite name \<longleftrightarrow> lower (take 6 name) = ''sqlite'' \<and> 7 \<le> length name"

definition users_table :: schema_entry where
  "users_table = \<lparr>sch_type = ''table'', sch_name = ''users'',
     sch_columns = [''username'', ''password_hash'', ''available_tokens'', ''registered_from_ip'']\<rparr>"

definition history_table :: schema_entry where
  "history_table = \<lparr>sch_type = ''table'', sch_name = ''history'',
     sch_columns = [''username'', ''timestamp'', ''hash'']\<rparr>"

definition create_table_if_not_exists :: "schema_entry \<Rightarrow> SqliteFile \<Rightarrow> SqliteFile" where
  "create_table_if_not_exists t f =
     (if list_ex (\<lambda>e. lower (sch_name e) = lower (sch_name t)) (sf_schema f) then f
      else f\<lparr>sf_schema := sf_schema f @ [t]\<rparr>)"

text \<open>A \<^verbatim>\<open>SELECT\<close> of named columns from a table or view compiles when they exist.\<close>

definition select_ok :: "SqliteFile \<Rightarrow> string \<Rightarrow> string list \<Rightarrow> bool" where
  "select_ok f table columns \<longleftrightarrow>
     list_ex (\<lambda>e. (sch_type e = ''table'' \<or> sch_type e = ''view'') \<and> lower (sch_name e) = table \<and>
                  list_all (\<lambda>c. c \<in> set (map lower (sch_columns e))) columns) (sf_schema f)"

section \<open>The builder\<close>

datatype DataBaseBuildError =
    Validation string
  | ConstraintViolation string
  | UnexpectedTable string
  | Sqlite sqlx_error
  | Io io_error

text \<open>The connection pool is the file it is connected to; \<open>None\<close> is the database in memory.\<close>

record ServerDataBaseBuilder =
  bd_path :: "string option"
  bd_file :: SqliteFile
  bd_initialization_is_required :: bool

definition connect_with ::
    "sql_io \<Rightarrow> string option \<Rightarrow> disk \<Rightarrow> (sqlx_error + SqliteFile) \<times> disk" where
  "connect_with io location d =
     (case io 0 of
        Some e \<Rightarrow> (Inl e, d)
      | None \<Rightarrow>
          (case location of
             None \<Rightarrow> (Inr empty_file, d)
           | Some path \<Rightarrow>
               (if path \<in> dk_dirs d
                then (Inl (Database (OtherDbError ''unable to open database file'')), d)
                else (case dk_files d path of
                        Some f \<Rightarrow> (Inr f, d)
                      | None \<Rightarrow> (Inr empty_file, d\<lparr>dk_files := (dk_files d)(path \<mapsto> empty_file)\<rparr>)))))"

definition unchecked_build ::
    "(string \<Rightarrow> io_error option) \<Rightarrow> sql_io \<Rightarrow> DataBaseLocation \<Rightarrow> disk
     \<Rightarrow> (DataBaseBuildError + ServerDataBaseBuilder) \<times> disk" where
  "unchecked_build mkdir io location d =
     (case location of
        Disk path \<Rightarrow>
          (let initialization_is_required = \<not> path_exists d path;
               made = (if path_exists d path then Inr d
                       else case path_parent path of
                              None \<Rightarrow> Inr d
                            | Some parent \<Rightarrow>
                                (if parent \<noteq> [] \<and> \<not> path_exists d parent
                                 then create_dir_all mkdir parent d else Inr d))
           in case made of
                Inl e \<Rightarrow> (Inl (Io e), d)
              | Inr d \<Rightarrow>
                  (case connect_with io (Some path) d of
                     (Inl e, d) \<Rightarrow> (Inl (Sqlite e), d)
                   | (Inr f, d) \<Rightarrow>
                       (Inr \<lparr>bd_path = Some path, bd_file = f,
                             bd_initialization_is_required = initialization_is_required\<rparr>, d)))
      | DataBaseLocation.Memory \<Rightarrow>
          (case connect_with io None d of
             (Inl e, d) \<Rightarrow> (Inl (Sqlite e), d)
           | (Inr f, d) \<Rightarrow>
               (Inr \<lparr>bd_path = None, bd_file = f, bd_initialization_is_required = True\<rparr>, d)))"

text \<open>
  The two statements of \<^verbatim>\<open>initialize_db\<close> run one after the other without a transaction: the
  file is returned as they leave it, with the error if one of them fails.
\<close>

definition initialize_db :: "sql_io \<Rightarrow> ServerDataBaseBuilder
    \<Rightarrow> (DataBaseBuildError + unit) \<times> ServerDataBaseBuilder" where
  "initialize_db io b =
     (case io 1 of
        Some e \<Rightarrow> (Inl (Sqlite e), b)
      | None \<Rightarrow>
          (let b = b\<lparr>bd_file := create_table_if_not_exists users_table (bd_file b)\<rparr>
           in case io 2 of
                Some e \<Rightarrow> (Inl (Sqlite e), b)
              | None \<Rightarrow>
                  (Inr (), b\<lparr>bd_file := create_table_if_not_exists history_table (bd_file b),
                             bd_initialization_is_required := False\<rparr>)))"

fun unexpected_table :: "string list \<Rightarrow> string option" where
  "unexpected_table [] = None"
| "unexpected_table (table # tables) =
     (if table \<notin> set [''users'', ''history''] then Some table else unexpected_table tables)"

definition validation_queries :: "(string \<times> string \<times> string list) list" where
  "validation_queries =
     [(''SELECT username, password_hash, available_tokens FROM users LIMIT 1'',
       ''users'', [''username'', ''password_hash'', ''available_tokens'']),
      (''SELECT username, timestamp, hash FROM history LIMIT 1;'',
       ''history'', [''username'', ''timestamp'', ''hash''])]"

fun run_validation_queries ::
    "sql_io \<Rightarrow> nat \<Rightarrow> SqliteFile \<Rightarrow> (string \<times> string \<times> string list) list \<Rightarrow> DataBaseBuildError + unit" where
  "run_validation_queries io i f [] = Inr ()"
| "run_validation_queries io i f ((query, table, columns) # queries) =
     (if io i \<noteq> None \<or> \<not> select_ok f table columns then Inl (Validation query)
      else run_validation_queries io (Suc i) f queries)"

text \<open>The audit of the rows: each is decoded as a \<^verbatim>\<open>UserAudit\<close>, then its balance is checked.\<close>

fun audit_users ::
    "(i64 \<Rightarrow> sqlx_error + i32) \<Rightarrow> sql_io \<Rightarrow> nat \<Rightarrow> UserRow list \<Rightarrow> DataBaseBuildError + unit" where
  "audit_users decode_i32 io i [] = (case io i of Some e \<Rightarrow> Inl (Sqlite e) | None \<Rightarrow> Inr ())"
| "audit_users decode_i32 io i (row # rows) =
     (case io i of
        Some e \<Rightarrow> Inl (Sqlite e)
      | None \<Rightarrow>
          (case decode_i32 (u_available_tokens row) of
             Inl e \<Rightarrow> Inl (Sqlite e)
           | Inr _ \<Rightarrow>
               (if sint (u_available_tokens row) < 0 then Inl (ConstraintViolation (u_username row))
                else audit_users decode_i32 io (Suc i) rows)))"

definition validate ::
    "(i64 \<Rightarrow> sqlx_error + i32) \<Rightarrow> sql_io \<Rightarrow> SqliteFile \<Rightarrow> DataBaseBuildError + unit" where
  "validate decode_i32 io f =
     (case io 1 of
        Some e \<Rightarrow> Inl (Sqlite e)
      | None \<Rightarrow>
          (let table_names = map sch_name (filter (\<lambda>e. sch_type e = ''table'' \<and> \<not> like_sqlite (sch_name e))
                               (sf_schema f))
           in case unexpected_table table_names of
                Some table \<Rightarrow> Inl (UnexpectedTable table)
              | None \<Rightarrow>
                  result_bind (run_validation_queries io 2 f validation_queries)
                    (\<lambda>_. audit_users decode_i32 io 4 (db_users (sf_db f)))))"

text \<open>Changes of the schema reach the disk when the pool is connected to a file.\<close>

definition write_back :: "ServerDataBaseBuilder \<Rightarrow> disk \<Rightarrow> disk" where
  "write_back b d =
     (case bd_path b of
        None \<Rightarrow> d
      | Some path \<Rightarrow> d\<lparr>dk_files := (dk_files d)(path \<mapsto> bd_file b)\<rparr>)"

definition build ::
    "(i64 \<Rightarrow> sqlx_error + i32) \<Rightarrow> (string \<Rightarrow> io_error option) \<Rightarrow> sql_io \<Rightarrow> DataBaseLocation \<Rightarrow> disk
     \<Rightarrow> (DataBaseBuildError + ServerDb) \<times> disk" where
  "build decode_i32 mkdir io location d =
     (case unchecked_build mkdir io location d of
        (Inl e, d) \<Rightarrow> (Inl e, d)
      | (Inr build_ctx, d) \<Rightarrow>
          (if bd_initialization_is_required build_ctx
           then (case initialize_db io build_ctx of
                   (Inl e, build_ctx) \<Rightarrow> (Inl e, write_back build_ctx d)
                 | (Inr _, build_ctx) \<Rightarrow> (Inr (sf_db (bd_file build_ctx)), write_back build_ctx d))
           else (case validate decode_i32 io (bd_file build_ctx) of
                   Inl e \<Rightarrow> (Inl e, d)
                 | Inr _ \<Rightarrow> (Inr (sf_db (bd_file build_ctx)), d))))"

section \<open>Notions\<close>

text \<open>
  A file as \<^verbatim>\<open>initialize_db\<close> leaves it, with the given tables; \<open>strict_i32\<close>: the decoder refuses
  what does not fit, as \<^verbatim>\<open>sqlx\<close> documents for narrow integers; \<open>checked_i32\<close> is such a decoder.
\<close>

definition initialized_file :: "ServerDb \<Rightarrow> SqliteFile" where
  "initialized_file db = \<lparr>sf_schema = [users_table, history_table], sf_db = db\<rparr>"

definition strict_i32 :: "(i64 \<Rightarrow> sqlx_error + i32) \<Rightarrow> bool" where
  "strict_i32 decode_i32 \<longleftrightarrow>
     (\<forall>v. if fits_signed 32 (sint v) then decode_i32 v = Inr (word_of_int (sint v)) else \<exists>e. decode_i32 v = Inl e)"

definition checked_i32 :: "i64 \<Rightarrow> sqlx_error + i32" where
  "checked_i32 v = (if fits_signed 32 (sint v) then Inr (word_of_int (sint v)) else Inl (ColumnDecode ''available_tokens''))"

definition empty_disk :: disk where
  "empty_disk = \<lparr>dk_files = (\<lambda>_. None), dk_dirs = {}\<rparr>"

definition alice_disk :: "i64 \<Rightarrow> disk" where
  "alice_disk n = \<lparr>dk_files = [''data/stss.db'' \<mapsto> initialized_file (alice_db n)], dk_dirs = {''data''}\<rparr>"

section \<open>Steps of the builder\<close>

lemma path_not_ancestor_of_parent:
  assumes "path_parent p = Some q" shows "p \<notin> set (path_ancestors q)"
proof
  assume "p \<in> set (path_ancestors q)"
  then obtain n where n: "p = (if path_is_absolute q then ''/'' else []) @ join_slash (take (Suc n) (path_components q))"
    by (auto simp: path_ancestors_def)
  have "path_components p = take (Suc n) (path_components q)"
    unfolding n by (rule path_components_prefix)
  also have "\<dots> = take (Suc n) (butlast (path_components p))"
    by (simp add: path_components_parent[OF assms])
  finally have "length (path_components p) \<le> length (path_components p) - 1"
    by (metis length_butlast length_take min.cobounded1)
  moreover have "path_components p \<noteq> []" using assms by (auto simp: path_parent_def split: if_splits)
  ultimately show False by (cases "path_components p") auto
qed

lemma initialize_fresh:
  "initialize_db no_fault \<lparr>bd_path = p, bd_file = empty_file, bd_initialization_is_required = True\<rparr> =
     (Inr (), \<lparr>bd_path = p, bd_file = initialized_file empty_db, bd_initialization_is_required = False\<rparr>)"
  by (simp add: initialize_db_def no_fault_def Let_def create_table_if_not_exists_def empty_file_def
      initialized_file_def users_table_def history_table_def lower_def)

lemma unchecked_build_fresh:
  assumes "\<not> path_exists d p" and "\<forall>q. mkdir q = None"
  shows "\<exists>d'. unchecked_build mkdir no_fault (Disk p) d =
    (Inr \<lparr>bd_path = Some p, bd_file = empty_file, bd_initialization_is_required = True\<rparr>, d') \<and>
    p \<notin> dk_dirs d'"
proof -
  have d: "dk_files d p = None" "p \<notin> dk_dirs d" using assms(1) by (auto simp: path_exists_def)
  show ?thesis
    using assms d path_not_ancestor_of_parent[of p]
    by (auto simp: unchecked_build_def Let_def connect_with_def no_fault_def create_dir_all_def
        split: option.splits)
qed

lemma validate_ok:
  assumes "\<forall>r \<in> set (db_users db). 0 \<le> sint (u_available_tokens r) \<and> (\<exists>v. decode_i32 (u_available_tokens r) = Inr v)"
  shows "validate decode_i32 no_fault (initialized_file db) = Inr ()"
proof -
  have "audit_users decode_i32 no_fault i rows = Inr ()"
    if "\<forall>r \<in> set rows. 0 \<le> sint (u_available_tokens r) \<and> (\<exists>v. decode_i32 (u_available_tokens r) = Inr v)" for i rows
    using that by (induction rows arbitrary: i) (auto simp: no_fault_def)
  with assms show ?thesis
    by (simp add: validate_def no_fault_def initialized_file_def users_table_def history_table_def
        like_sqlite_def lower_def validation_queries_def select_ok_def)
qed

lemma audit_users_sound:
  "audit_users decode_i32 io i rows = Inr () \<Longrightarrow>
   \<forall>r \<in> set rows. 0 \<le> sint (u_available_tokens r) \<and> (\<exists>v. decode_i32 (u_available_tokens r) = Inr v)"
  by (induction rows arbitrary: i) (auto split: option.splits sum.splits if_splits)

lemma audit_users_strict:
  assumes "strict_i32 decode_i32" and "r \<in> set rows" and "2 ^ 31 \<le> sint (u_available_tokens r)"
  shows "\<exists>e. audit_users decode_i32 no_fault i rows = Inl e"
proof (rule ccontr)
  assume "\<nexists>e. audit_users decode_i32 no_fault i rows = Inl e"
  then have "audit_users decode_i32 no_fault i rows = Inr ()"
    by (cases "audit_users decode_i32 no_fault i rows") auto
  from audit_users_sound[OF this] assms(2) obtain v where "decode_i32 (u_available_tokens r) = Inr v" by blast
  moreover have "\<not> fits_signed 32 (sint (u_available_tokens r))" using assms(3) by (simp add: fits_signed_def)
  ultimately show False using assms(1) unfolding strict_i32_def by (metis Inl_Inr_False)
qed

lemma unexpected_table_None: "unexpected_table ts = None \<Longrightarrow> set ts \<subseteq> {''users'', ''history''}"
  by (induction ts) (auto split: if_splits)

section \<open>Properties\<close>

text \<open>
  A database is created once and reopened afterwards: at a path that does not exist the
  builder creates the directories and an empty database with both tables; opening that
  path again gives it back, and so does opening it with any contents whose balances are
  non-negative and can be decoded.
\<close>

lemma fresh_database_reopens:
  assumes "\<not> path_exists d p" and "\<forall>q. mkdir q = None"
  shows "\<exists>d'. build decode_i32 mkdir no_fault (Disk p) d = (Inr empty_db, d') \<and>
    build decode_i32 mkdir no_fault (Disk p) d' = (Inr empty_db, d') \<and>
    (\<forall>db. (\<forall>r \<in> set (db_users db). 0 \<le> sint (u_available_tokens r) \<and>
          (\<exists>v. decode_i32 (u_available_tokens r) = Inr v)) \<longrightarrow>
       (let d2 = d'\<lparr>dk_files := (dk_files d')(p \<mapsto> initialized_file db)\<rparr> in
        build decode_i32 mkdir no_fault (Disk p) d2 = (Inr db, d2)))"
proof -
  obtain d1 where d1: "unchecked_build mkdir no_fault (Disk p) d =
      (Inr \<lparr>bd_path = Some p, bd_file = empty_file, bd_initialization_is_required = True\<rparr>, d1)" "p \<notin> dk_dirs d1"
    using unchecked_build_fresh[OF assms] by blast
  let ?d = "\<lambda>db. d1\<lparr>dk_files := (dk_files d1)(p \<mapsto> initialized_file db)\<rparr>"
  have first: "build decode_i32 mkdir no_fault (Disk p) d = (Inr empty_db, ?d empty_db)"
    by (simp add: build_def d1(1) initialize_fresh write_back_def initialized_file_def)
  have reopen: "build decode_i32 mkdir no_fault (Disk p) (?d db) = (Inr db, ?d db)"
    if "\<forall>r \<in> set (db_users db). 0 \<le> sint (u_available_tokens r) \<and> (\<exists>v. decode_i32 (u_available_tokens r) = Inr v)" for db
    using validate_ok[OF that] d1(2)
    by (simp add: build_def unchecked_build_def path_exists_def connect_with_def no_fault_def initialized_file_def)
  show ?thesis
    using first reopen[of empty_db] reopen by (intro exI[of _ "?d empty_db"]) (auto simp: empty_db_def Let_def)
qed

text \<open>
  An existing file is opened only if it passes the validation: no balance is negative, every
  table that is not hidden by the pattern \<^verbatim>\<open>sqlite_%\<close> is one of the two expected ones, and
  both have the columns the server selects. Opening changes nothing on disk.
\<close>

lemma opened_databases_are_validated:
  assumes "path_exists d p" and "build decode_i32 mkdir io (Disk p) d = (Inr db, d')"
  shows "\<exists>f. dk_files d p = Some f \<and> sf_db f = db \<and> d' = d \<and>
    (\<forall>r \<in> set (db_users db). 0 \<le> sint (u_available_tokens r)) \<and>
    (\<forall>e \<in> set (sf_schema f). sch_type e = ''table'' \<and> \<not> like_sqlite (sch_name e) \<longrightarrow>
       sch_name e = ''users'' \<or> sch_name e = ''history'') \<and>
    select_ok f ''users'' [''username'', ''password_hash'', ''available_tokens''] \<and>
    select_ok f ''history'' [''username'', ''timestamp'', ''hash'']"
proof -
  obtain f where f: "dk_files d p = Some f" "sf_db f = db" "d' = d" "validate decode_i32 io f = Inr ()"
    using assms
    by (auto simp: build_def unchecked_build_def Let_def connect_with_def path_exists_def
        split: option.splits sum.splits if_splits prod.splits)
  let ?names = "map sch_name (filter (\<lambda>e. sch_type e = ''table'' \<and> \<not> like_sqlite (sch_name e)) (sf_schema f))"
  have v: "unexpected_table ?names = None" "run_validation_queries io 2 f validation_queries = Inr ()"
    "audit_users decode_i32 io 4 (db_users (sf_db f)) = Inr ()"
    using f(4) by (auto simp: validate_def Let_def result_bind_Inr_iff split: option.splits)
  show ?thesis
    using f unexpected_table_None[OF v(1)] audit_users_sound[OF v(3)] v(2)
    by (auto simp: validation_queries_def split: if_splits)
qed

text \<open>
  C35. A balance of \<open>2 ^ 31\<close> tokens or more, which \<^verbatim>\<open>add_user_tokens\<close> accepts, makes the database
  impossible to open again: the audit decodes balances as \<^verbatim>\<open>i32\<close>.
\<close>

theorem large_balance_prevents_reopening:
  assumes "strict_i32 decode_i32" and "dk_files d p = Some (initialized_file db)" and "p \<notin> dk_dirs d"
    and "r \<in> set (db_users db)" and "2 ^ 31 \<le> sint (u_available_tokens r)"
  shows "\<exists>e. build decode_i32 mkdir no_fault (Disk p) d = (Inl e, d)"
proof -
  obtain e where "audit_users decode_i32 no_fault 4 (db_users db) = Inl e"
    using audit_users_strict[OF assms(1,4,5)] by blast
  then have "validate decode_i32 no_fault (initialized_file db) = Inl e"
    by (simp add: validate_def no_fault_def initialized_file_def users_table_def history_table_def
        like_sqlite_def lower_def validation_queries_def select_ok_def)
  with assms(2,3) show ?thesis
    by (simp add: build_def unchecked_build_def path_exists_def connect_with_def no_fault_def)
qed

theorem large_balance_prevents_reopening_witness:
  "add_user_tokens no_fault (alice_db 0) ''alice'' 2147483648 = (Inr 2147483648, alice_db 2147483648) \<and>
   (\<exists>e. build checked_i32 (\<lambda>_. None) no_fault (Disk ''data/stss.db'') (alice_disk 2147483648) =
      (Inl e, alice_disk 2147483648))"
proof -
  have "strict_i32 checked_i32" by (simp add: strict_i32_def checked_i32_def)
  then have "\<exists>e. build checked_i32 (\<lambda>_. None) no_fault (Disk ''data/stss.db'') (alice_disk 2147483648) =
      (Inl e, alice_disk 2147483648)"
    by (rule large_balance_prevents_reopening[of _ _ _ "alice_db 2147483648" "hd (db_users (alice_db 2147483648))"])
      (simp_all add: alice_disk_def alice_tokens, simp add: alice_db_def)
  then show ?thesis using alice_add[of 0 2147483648] by simp
qed



end
