(* ===== verification/Server.thy ===== *)
theory Server
  imports Handler_Properties Database_Builder
begin

text \<open>
  Building and running the server, \<^verbatim>\<open>server/src/server.rs\<close>: from a context to the state the
  connections share, the task of one accepted connection, and the loop that accepts them.
  The logger, the TLS library and the Tokio runtime are inputs: what they answer when they
  are set up.
\<close>

section \<open>Context\<close>

datatype LogDestination = NoLog | Stdout | LogFile string string

record RuntimeContext =
  rc_working_threads :: nat
  rc_cryptography_threads :: nat

record ('cert, 'key, 'sk) KeyContext =
  kc_tls_cert :: "'cert list"
  kc_tls_priv :: 'key
  kc_tss_priv :: 'sk

record ('cert, 'key, 'sk, 'sock) ServerContext =
  sc_address :: SocketAddr
  sc_runtime_context :: RuntimeContext
  sc_key_context :: "('cert, 'key, 'sk) KeyContext"
  sc_time_oracle_type :: "'sock TimeOracleType"
  sc_log_output :: LogDestination
  sc_database_location :: DataBaseLocation

definition RuntimeContext_new :: "nat \<Rightarrow> nat \<Rightarrow> RuntimeContext" where [simp]:
  "RuntimeContext_new working_threads cryptography_threads =
     \<lparr>rc_working_threads = working_threads, rc_cryptography_threads = cryptography_threads\<rparr>"

definition KeyContext_new :: "'cert list \<Rightarrow> 'key \<Rightarrow> 'sk \<Rightarrow> ('cert, 'key, 'sk) KeyContext" where [simp]:
  "KeyContext_new tls_cert tls_priv tss_priv =
     \<lparr>kc_tls_cert = tls_cert, kc_tls_priv = tls_priv, kc_tss_priv = tss_priv\<rparr>"

definition ServerContext_new ::
    "SocketAddr \<Rightarrow> RuntimeContext \<Rightarrow> ('cert, 'key, 'sk) KeyContext \<Rightarrow> 'sock TimeOracleType \<Rightarrow> LogDestination
     \<Rightarrow> DataBaseLocation \<Rightarrow> ('cert, 'key, 'sk, 'sock) ServerContext" where [simp]:
  "ServerContext_new address runtime_context key_context time_oracle log_output database_location =
     \<lparr>sc_address = address, sc_runtime_context = runtime_context, sc_key_context = key_context,
      sc_time_oracle_type = time_oracle, sc_log_output = log_output, sc_database_location = database_location\<rparr>"

section \<open>Building\<close>

datatype STSServerBuildError =
    ZeroWorkingThreads
  | TLSSetup string
  | Logger string
  | DataBase DataBaseBuildError

datatype runtime_flavor = CurrentThread | MultiThread nat

record Runtime =
  rt_flavor :: runtime_flavor
  rt_max_blocking_threads :: "nat option"

record ('tls, 'sk, 'sock) STSServerInstance =
  si_address :: SocketAddr
  si_runtime :: Runtime
  si_tls_acceptor :: 'tls
  si_state :: "'sk STSServerState"
  si_time_oracle_worker :: "'sock TimeSyncWorker option"
  si_log_guard :: bool

datatype ('tls, 'sk, 'sock) STSServer =
    Accelerated "('tls, 'sk, 'sock) STSServerInstance"
  | Slow "('tls, 'sk, 'sock) STSServerInstance"

text \<open>
  \<open>bi_appender_ok\<close>: whether the log file can be opened (\<^verbatim>\<open>tracing_appender::rolling::never\<close>
  panics otherwise); \<open>bi_try_init\<close>: the error of installing the logger; \<open>bi_single_cert\<close>: \<^verbatim>\<open>with_single_cert\<close> of
  \<^verbatim>\<open>rustls\<close>; \<open>bi_runtime_ok\<close>: whether Tokio builds its runtime (the code panics otherwise);
  the others are the inputs of the database builder.
\<close>

record ('cert, 'key, 'tls) build_inputs =
  bi_appender_ok :: bool
  bi_try_init :: "string option"
  bi_runtime_ok :: bool
  bi_single_cert :: "'cert list \<Rightarrow> 'key \<Rightarrow> string + 'tls"
  bi_decode_i32 :: "i64 \<Rightarrow> sqlx_error + i32"
  bi_mkdir :: "string \<Rightarrow> io_error option"
  bi_sql :: sql_io

definition setup_logger ::
    "bool \<Rightarrow> string option \<Rightarrow> LogDestination \<Rightarrow> (STSServerBuildError + bool) outcome" where
  "setup_logger appender_ok try_init log_output =
     (let initialized = Returns (case try_init of Some e \<Rightarrow> Inl (Logger e) | None \<Rightarrow> Inr True)
      in case log_output of
           NoLog \<Rightarrow> Returns (Inr False)
         | Stdout \<Rightarrow> initialized
         | LogFile dir filename \<Rightarrow> (if appender_ok then initialized else Panic))"

definition build_runtime :: "RuntimeContext \<Rightarrow> STSServerBuildError + Runtime" where
  "build_runtime rc =
     (if rc_working_threads rc = 0 then Inl ZeroWorkingThreads
      else Inr \<lparr>rt_flavor = (if rc_working_threads rc = 1 then CurrentThread
                             else MultiThread (rc_working_threads rc)),
                rt_max_blocking_threads =
                  (if rc_cryptography_threads rc > 0 then Some (rc_cryptography_threads rc) else None)\<rparr>)"

definition build_from_context ::
    "('cert, 'key, 'tls) build_inputs \<Rightarrow> ('cert, 'key, 'sk, 'sock) ServerContext \<Rightarrow> disk
     \<Rightarrow> (STSServerBuildError + ('tls, 'sk, 'sock) STSServer) outcome \<times> disk" where
  "build_from_context bi ctx d =
     (case setup_logger (bi_appender_ok bi) (bi_try_init bi) (sc_log_output ctx) of
        Panic \<Rightarrow> (Panic, d)
      | Returns (Inl e) \<Rightarrow> (Returns (Inl e), d)
      | Returns (Inr log_guard) \<Rightarrow>
     (case build_runtime (sc_runtime_context ctx) of
        Inl e \<Rightarrow> (Returns (Inl e), d)
      | Inr rt \<Rightarrow>
     (if \<not> bi_runtime_ok bi then (Panic, d)
      else case bi_single_cert bi (kc_tls_cert (sc_key_context ctx)) (kc_tls_priv (sc_key_context ctx)) of
        Inl e \<Rightarrow> (Returns (Inl (TLSSetup e)), d)
      | Inr tls_acceptor \<Rightarrow>
     (case build (bi_decode_i32 bi) (bi_mkdir bi) (bi_sql bi) (sc_database_location ctx) d of
        (Inl e, d) \<Rightarrow> (Returns (Inl (DataBase e)), d)
      | (Inr database, d) \<Rightarrow>
          (let cancel_token = False;
               (time_oracle, time_oracle_worker) =
                 (case sc_time_oracle_type ctx of
                    Local time_oracle \<Rightarrow> (time_oracle, None)
                  | Synced time_oracle_bundle \<Rightarrow>
                      (let (time_oracle, worker) = TimeOracleBundle_into_parts time_oracle_bundle
                       in (time_oracle, Some worker)));
               state = from_bundle database cancel_token (kc_tss_priv (sc_key_context ctx)) time_oracle;
               instance_of = (\<lambda>st. \<lparr>si_address = sc_address ctx, si_runtime = rt,
                 si_tls_acceptor = tls_acceptor, si_state = st,
                 si_time_oracle_worker = time_oracle_worker, si_log_guard = log_guard\<rparr>)
           in if rc_cryptography_threads (sc_runtime_context ctx) > 0
              then (Returns (Inr (Slow (instance_of (get_slow_build state)))), d)
              else (Returns (Inr (Accelerated (instance_of (get_accelerated_build state)))), d))))))"

section \<open>Running\<close>

datatype STSServerRunError =
    RunTLSSetup string
  | PortAlreadyInUse u16
  | PermissionDenied u16
  | AddrNotAvailable SocketAddr
  | GenericBind string
  | ConnectionAborted string
  | GenericAccept string

definition bind_error :: "SocketAddr \<Rightarrow> io_error \<Rightarrow> STSServerRunError" where
  "bind_error address e =
     (case io_kind e of
        AddrInUse \<Rightarrow> PortAlreadyInUse (addr_port address)
      | ErrorKind.PermissionDenied \<Rightarrow> PermissionDenied (addr_port address)
      | ErrorKind.AddrNotAvailable \<Rightarrow> AddrNotAvailable address
      | _ \<Rightarrow> GenericBind (io_text e))"

text \<open>
  The task spawned for an accepted connection: the TLS handshake, the handler, and the
  reaction to its error. Of the errors only a network that is down acts on the state.
\<close>

definition connection_task ::
    "('h, 'sk, 'pk, 'ph) crates \<Rightarrow> io_error option \<Rightarrow> SocketAddr \<Rightarrow> 'sk round list \<Rightarrow> 'sk STSServerState
     \<Rightarrow> (io_error + unit, 'sk round) run \<times> 'sk STSServerState" where
  "connection_task c tls_error new_address rds st =
     (case tls_error of
        Some e \<Rightarrow> (Finished (Inl e) rds, st)
      | None \<Rightarrow>
          (case conn_handler c new_address rds st of
             (Waiting, st, _) \<Rightarrow> (Waiting, st)
           | (Panicked, st, _) \<Rightarrow> (Panicked, st)
           | (Finished (Inl (HandlerError.Network ServerNetworkDown)) rest, st, _) \<Rightarrow>
               (Finished (Inr ()) rest, st\<lparr>st_cancel_token := True\<rparr>)
           | (Finished _ rest, st, _) \<Rightarrow> (Finished (Inr ()) rest, st)))"

datatype accept_event = AcceptOk SocketAddr | AcceptFails io_error | AcceptCancelled

text \<open>
  The accept loop over the events seen so far: the addresses for which a task was spawned,
  and whether the loop was left. The count of aborted connections is computed and dropped
  by the code, so it stays zero.
\<close>

fun accept_events :: "accept_event list \<Rightarrow> u64 \<Rightarrow> SocketAddr list \<times> u64 \<times> bool" where
  "accept_events [] unanswered = ([], unanswered, False)"
| "accept_events (AcceptCancelled # evs) unanswered = ([], unanswered, True)"
| "accept_events (AcceptFails e # evs) unanswered = accept_events evs unanswered"
| "accept_events (AcceptOk a # evs) unanswered =
     (let (tasks, n, ended) = accept_events evs unanswered in (a # tasks, n, ended))"

definition accept_loop ::
    "io_error option \<Rightarrow> SocketAddr \<Rightarrow> accept_event list \<Rightarrow> STSServerRunError + SocketAddr list \<times> u64 \<times> bool" where
  "accept_loop bind_result address evs =
     (case bind_result of
        Some e \<Rightarrow> Inl (bind_error address e)
      | None \<Rightarrow> Inr (accept_events evs 0))"

text \<open>The background task of the clock: a fatal error of the worker cancels the server.\<close>

definition sync_task ::
    "'sock udp_net \<Rightarrow> (u32 \<Rightarrow> u32) \<Rightarrow> (SocketAddr \<Rightarrow> string) \<Rightarrow> 'sock TimeSyncWorker \<Rightarrow> sync_tick list
     \<Rightarrow> 'sk STSServerState \<Rightarrow> 'sk STSServerState outcome" where
  "sync_task net frac show_addr worker ticks st =
     (case start_syncing net frac show_addr worker ticks of
        Panic \<Rightarrow> Panic
      | Returns (failed, offset) \<Rightarrow>
          (let st = st\<lparr>st_time_oracle := \<lparr>offset_nanos = offset\<rparr>\<rparr>
           in Returns (case failed of Some _ \<Rightarrow> st\<lparr>st_cancel_token := True\<rparr> | None \<Rightarrow> st)))"

section \<open>Example instance\<close>

definition example_inputs :: "(unit, unit, unit) build_inputs" where
  "example_inputs = \<lparr>bi_appender_ok = True, bi_try_init = None, bi_runtime_ok = True, bi_single_cert = (\<lambda>_ _. Inr ()),
     bi_decode_i32 = checked_i32, bi_mkdir = (\<lambda>_. None), bi_sql = no_fault\<rparr>"

definition example_context :: "(unit, unit, unit, unit) ServerContext" where
  "example_context = \<lparr>sc_address = \<lparr>addr_ip = V4 2130706433, addr_port = 7777\<rparr>,
     sc_runtime_context = \<lparr>rc_working_threads = 2, rc_cryptography_threads = 4\<rparr>,
     sc_key_context = \<lparr>kc_tls_cert = [()], kc_tls_priv = (), kc_tss_priv = ()\<rparr>,
     sc_time_oracle_type = Local TimeOracle_new_local, sc_log_output = Stdout,
     sc_database_location = DataBaseLocation.Memory\<rparr>"

definition example_server :: "(unit, unit, unit) STSServerInstance" where
  "example_server = \<lparr>si_address = \<lparr>addr_ip = V4 2130706433, addr_port = 7777\<rparr>,
     si_runtime = \<lparr>rt_flavor = MultiThread 2, rt_max_blocking_threads = Some 4\<rparr>,
     si_tls_acceptor = (),
     si_state = \<lparr>st_database = empty_db, st_cancel_token = False, st_logged_users = {},
       st_signing_key = (), st_time_oracle = \<lparr>offset_nanos = 0\<rparr>, st_signer = SlowSigner\<rparr>,
     si_time_oracle_worker = None, si_log_guard = True\<rparr>"

section \<open>Building and running\<close>

lemma connection_task_acts:
  assumes "\<forall>rd \<in> set rds. env_ok c rd" and "server_inv st"
    and "connection_task c tls a rds st = (r, st')"
  shows "(server_act c)\<^sup>*\<^sup>* st st'"
proof (cases tls)
  case None
  obtain run st1 sent where h: "conn_handler c a rds st = (run, st1, sent)" by (rule prod_cases3)
  have e: "(server_act c)\<^sup>*\<^sup>* st st1"
    using conn_handler_core_acts[OF assms(1,2)] h by (simp add: conn_handler_def)
  have "(server_act c)\<^sup>*\<^sup>* st (st1\<lparr>st_cancel_token := True\<rparr>)"
    using e by (blast intro: rtranclp.rtrancl_into_rtrancl act_cancel)
  with e assms(3) h None show ?thesis
    by (auto simp: connection_task_def split: run.splits sum.splits HandlerError.splits NetworkError.splits)
qed (use assms(3) in \<open>simp add: connection_task_def\<close>)

lemma built_instance:
  assumes "build_from_context bi ctx d = (Returns (Inr server), d')"
    and "server = Slow inst \<or> server = Accelerated inst"
  shows "st_logged_users (si_state inst) = {} \<and>
    st_signing_key (si_state inst) = kc_tss_priv (sc_key_context ctx)"
  using assms
  by (auto simp: build_from_context_def Let_def from_bundle_def get_slow_build_def
      get_accelerated_build_def split: outcome.splits sum.splits if_splits prod.splits)

lemma build_in_memory:
  "build decode_i32 mkdir no_fault DataBaseLocation.Memory d = (Inr empty_db, d)"
  using initialize_fresh[of None]
  by (simp add: build_def unchecked_build_def connect_with_def no_fault_def initialized_file_def)
    (simp add: write_back_def)

lemma example_build:
  "build_from_context example_inputs example_context d = (Returns (Inr (Slow example_server)), d)"
  by (simp add: build_from_context_def example_inputs_def example_context_def example_server_def
      setup_logger_def build_runtime_def build_in_memory from_bundle_def get_slow_build_def
      TimeOracle_new_local_def)

section \<open>Properties\<close>

text \<open>
  A server that was built is ready and fits its context: it has at least one working
  thread; it uses the slow signer, with the configured number of blocking threads, exactly
  when cryptography threads are configured; its state holds the opened database and the
  signing key, nobody is logged in and nothing is cancelled; and it has a clock worker
  exactly when a synchronised clock was configured.
\<close>

lemma built_server_fits_context:
  assumes "build_from_context bi ctx d = (Returns (Inr server), d')"
  shows "\<exists>inst slow. slow = (0 < rc_cryptography_threads (sc_runtime_context ctx)) \<and>
    server = (if slow then Slow inst else Accelerated inst) \<and>
    0 < rc_working_threads (sc_runtime_context ctx) \<and>
    si_address inst = sc_address ctx \<and>
    rt_max_blocking_threads (si_runtime inst) =
      (if slow then Some (rc_cryptography_threads (sc_runtime_context ctx)) else None) \<and>
    st_signer (si_state inst) = (if slow then SlowSigner else AcceleratedSigner) \<and>
    st_signing_key (si_state inst) = kc_tss_priv (sc_key_context ctx) \<and>
    st_logged_users (si_state inst) = {} \<and> \<not> st_cancel_token (si_state inst) \<and>
    build (bi_decode_i32 bi) (bi_mkdir bi) (bi_sql bi) (sc_database_location ctx) d =
      (Inr (st_database (si_state inst)), d') \<and>
    (si_time_oracle_worker inst = None \<longleftrightarrow> (\<exists>o'. sc_time_oracle_type ctx = Local o'))"
  using assms
  by (auto simp: build_from_context_def Let_def build_runtime_def from_bundle_def get_slow_build_def
      get_accelerated_build_def TimeOracleBundle_into_parts_def
      split: outcome.splits sum.splits if_splits prod.splits TimeOracleType.splits)

text \<open>
  The accept loop stops for nothing but a cancellation: errors of single accepts are
  skipped, and a task is spawned for every connection accepted before the cancellation, in
  order.
\<close>

lemma accept_loop_stops_only_on_cancel:
  "accept_loop None address evs =
     Inr (map (\<lambda>ev. case ev of AcceptOk a \<Rightarrow> a)
            (filter (\<lambda>ev. case ev of AcceptOk a \<Rightarrow> True | _ \<Rightarrow> False)
              (takeWhile (\<lambda>ev. ev \<noteq> AcceptCancelled) evs)),
          0, AcceptCancelled \<in> set evs)"
proof -
  have "accept_events evs n =
     (map (\<lambda>ev. case ev of AcceptOk a \<Rightarrow> a)
        (filter (\<lambda>ev. case ev of AcceptOk a \<Rightarrow> True | _ \<Rightarrow> False)
          (takeWhile (\<lambda>ev. ev \<noteq> AcceptCancelled) evs)),
      n, AcceptCancelled \<in> set evs)" for n
    by (induction evs n rule: accept_events.induct) simp_all
  then show ?thesis by (simp add: accept_loop_def)
qed

text \<open>
  A cancelled server lets every connection go: a connection whose next wait sees the
  cancellation ends with \<^verbatim>\<open>InterruptReceived\<close>, before login as well as inside a session,
  and touches the shared state no more.
\<close>

lemma cancellation_ends_connections:
  assumes "rd_select rd = Cancelled" and "st_cancel_token (rd_env rd 0 st)"
  shows "conn_handler c a (rd # rds) st = (Finished (Inr InterruptReceived) rds, rd_env rd 0 st, []) \<and>
    session_handler c session (rd # rds) st =
      (Finished (Inr (ClosedStream InterruptReceived)) rds, rd_env rd 5 (rd_env rd 0 st), [])"
  using assms by (simp add: conn_handler_def fetch_next_request_def closed_reason_def)

text \<open>
  From its first moment on a server is consistent: built on a new database, and running
  any number of connection tasks one after another with other tasks interfering by actions
  of the server only, its state satisfies the invariant.
\<close>

lemma server_is_consistent_from_the_start:
  assumes "build_from_context bi ctx d = (Returns (Inr server), d')"
    and "server = Slow inst \<or> server = Accelerated inst"
    and "db_inv (st_database (si_state inst))"
    and "(server_act c)\<^sup>*\<^sup>* (si_state inst) st" and "\<forall>rd \<in> set rds. env_ok c rd"
    and "connection_task c tls a rds st = (r, st')"
  shows "server_inv st' \<and> st_signing_key st' = kc_tss_priv (sc_key_context ctx)"
proof -
  note i = built_instance[OF assms(1,2)]
  with assms(3) have init: "initial_state (si_state inst)" by (simp add: initial_state_def)
  have inv: "server_inv st" using server_sys.reachable_inv[OF init assms(4)] .
  have e: "(server_act c)\<^sup>*\<^sup>* st st'" by (rule connection_task_acts[OF assms(5) inv assms(6)])
  show ?thesis
    using acts_inv[OF e inv] acts_key[OF e] acts_key[OF assms(4)] i by simp
qed

end
