(* ===== verification/Server_Config.thy ===== *)
theory Server_Config
  imports Server Std_Text
begin

text \<open>
  The configuration of the server, \<^verbatim>\<open>server/src/config.rs\<close>, and the program that starts it,
  \<^verbatim>\<open>server/src/main.rs\<close> in its configuration mode. The TOML parser, the PEM and PKCS\#8
  readers and the parser of IP addresses are inputs; files are read with \<open>safe_read\<close>.
\<close>

section \<open>Raw configuration\<close>

record NetworkConfig =
  nc_ip :: string
  nc_port :: u16

record RuntimeConfig =
  ru_working_threads :: nat
  ru_cryptography_threads :: nat

record KeysConfig =
  ks_tls_cert_path :: string
  ks_tls_priv_path :: string
  ks_tss_priv_path :: string
  ks_ca_cert_path :: string

record SyncedTimeOracleConfig =
  to_ntp_server_host :: string
  to_ntp_server_port :: u16
  to_listener_ip :: string
  to_listener_port :: u16
  to_sync_interval_in_minutes :: u16

record Config =
  cf_network :: NetworkConfig
  cf_runtime :: RuntimeConfig
  cf_keys :: KeysConfig
  cf_synced_time_oracle :: "SyncedTimeOracleConfig option"
  cf_log :: "string option"
  cf_database_path :: "string option"

datatype ConfigError = TomlNotInUtf8 string | Parse string | SafeRead SafeReadError

datatype ServerConfigConversionError =
    IpParse string
  | CertificateParse string
  | TlsKeyParse string
  | TlsKeyNotFound
  | TssKeyParse string
  | InvalidFileName
  | UnreliablePort
  | TooManyMinutes
  | TimeOracle TimeOracleError
  | SafeRead SafeReadError

text \<open>The inputs: files, memory, and what the parsers answer.\<close>

record ('cert, 'key, 'sk, 'sock) config_env =
  ce_ptr32 :: bool
  ce_try_reserve :: "nat \<Rightarrow> string option"
  ce_fs :: filesystem
  ce_utf8_error :: "byte list \<Rightarrow> string"
  ce_toml :: "string \<Rightarrow> string + Config"
  ce_parse_ip :: "string \<Rightarrow> string + IpAddr"
  ce_certs :: "byte list \<Rightarrow> (string + 'cert) list"
  ce_private_key :: "byte list \<Rightarrow> string + 'key option"
  ce_pkcs8 :: "string \<Rightarrow> string + 'sk"
  ce_net :: "'sock udp_net"

definition PEM_EXT :: "string option" where "PEM_EXT = Some ''pem''"
definition TOML_EXT :: "string option" where "TOML_EXT = Some ''toml''"

definition read_config_file ::
    "('cert, 'key, 'sk, 'sock) config_env \<Rightarrow> string \<Rightarrow> string option \<Rightarrow> SafeReadError + byte list" where
  "read_config_file ce path extension = safe_read (ce_ptr32 ce) (ce_try_reserve ce) (ce_fs ce) path extension"

definition Config_from_file ::
    "('cert, 'key, 'sk, 'sock) config_env \<Rightarrow> string \<Rightarrow> ConfigError + Config" where
  "Config_from_file ce path =
     result_bind (map_err ConfigError.SafeRead (read_config_file ce path TOML_EXT)) (\<lambda>bytes.
     result_bind (map_err TomlNotInUtf8 (from_utf8 (ce_utf8_error ce) bytes)) (\<lambda>raw_toml.
     map_err Parse (ce_toml ce raw_toml)))"

definition load_certificates ::
    "('cert, 'key, 'sk, 'sock) config_env \<Rightarrow> string \<Rightarrow> ServerConfigConversionError + 'cert list" where
  "load_certificates ce path =
     result_bind (map_err ServerConfigConversionError.SafeRead (read_config_file ce path PEM_EXT)) (\<lambda>bytes.
       collect_results (map (map_err CertificateParse) (ce_certs ce bytes)))"

definition get_ca_certificate ::
    "('cert, 'key, 'sk, 'sock) config_env \<Rightarrow> Config \<Rightarrow> ServerConfigConversionError + 'cert list" where
  "get_ca_certificate ce conf = load_certificates ce (ks_ca_cert_path (cf_keys conf))"

definition log_destination :: "string option \<Rightarrow> ServerConfigConversionError + LogDestination" where
  "log_destination log =
     (case log of
        None \<Rightarrow> Inr Stdout
      | Some path \<Rightarrow>
          (let parent = (case path_parent path of Some p \<Rightarrow> p | None \<Rightarrow> []);
               dir = (if parent = [] then ''.'' else parent)
           in result_bind (ok_or InvalidFileName (path_file_name path))
                (\<lambda>filename. Inr (LogFile dir filename))))"

definition load_time_oracle ::
    "('cert, 'key, 'sk, 'sock) config_env \<Rightarrow> SyncedTimeOracleConfig option
     \<Rightarrow> ServerConfigConversionError + 'sock TimeOracleType" where
  "load_time_oracle ce conf =
     (case conf of
        None \<Rightarrow> Inr (Local TimeOracle_new_local)
      | Some tc \<Rightarrow>
          (let ntp_server_port = NetworkPort_from (to_ntp_server_port tc)
           in result_bind (map_err IpParse (ce_parse_ip ce (to_listener_ip tc))) (\<lambda>ip.
              let address = \<lparr>addr_ip = ip, addr_port = to_listener_port tc\<rparr>
              in case checked_mul_u (to_sync_interval_in_minutes tc) 60 of
                   None \<Rightarrow> Inl TooManyMinutes
                 | Some interval_in_seconds \<Rightarrow>
                     map_err TimeOracle
                       (result_bind
                         (create_bundle (ce_net ce) (to_ntp_server_host tc) ntp_server_port address
                           (unat interval_in_seconds * nat NANOS))
                         (\<lambda>bundle. Inr (Synced bundle))))))"

definition to_server_context ::
    "('cert, 'key, 'sk, 'sock) config_env \<Rightarrow> Config
     \<Rightarrow> ServerConfigConversionError + ('cert, 'key, 'sk, 'sock) ServerContext" where
  "to_server_context ce conf =
     result_bind (map_err IpParse (ce_parse_ip ce (nc_ip (cf_network conf)))) (\<lambda>ip.
     if nc_port (cf_network conf) = 0 then Inl UnreliablePort
     else
     result_bind (log_destination (cf_log conf)) (\<lambda>destination.
     result_bind (load_certificates ce (ks_tls_cert_path (cf_keys conf))) (\<lambda>tls_certs.
     result_bind (map_err ServerConfigConversionError.SafeRead
                   (read_config_file ce (ks_tls_priv_path (cf_keys conf)) PEM_EXT)) (\<lambda>tls_key_bytes.
     result_bind (map_err TlsKeyParse (ce_private_key ce tls_key_bytes)) (\<lambda>found.
     result_bind (ok_or TlsKeyNotFound found) (\<lambda>tls_priv.
     result_bind (map_err ServerConfigConversionError.SafeRead
                   (read_config_file ce (ks_tss_priv_path (cf_keys conf)) PEM_EXT)) (\<lambda>tss_key_bytes.
     result_bind (map_err TssKeyParse (from_utf8 (ce_utf8_error ce) tss_key_bytes)) (\<lambda>pem_str.
     result_bind (map_err TssKeyParse (ce_pkcs8 ce pem_str)) (\<lambda>tss_priv.
     result_bind (load_time_oracle ce (cf_synced_time_oracle conf)) (\<lambda>time_oracle.
     Inr (ServerContext_new
       \<lparr>addr_ip = ip, addr_port = nc_port (cf_network conf)\<rparr>
       (RuntimeContext_new (ru_working_threads (cf_runtime conf)) (ru_cryptography_threads (cf_runtime conf)))
       (KeyContext_new tls_certs tls_priv tss_priv)
       time_oracle
       destination
       (case cf_database_path conf of None \<Rightarrow> DataBaseLocation.Memory | Some path \<Rightarrow> Disk path))))))))))))"

text \<open>
  The configuration mode of \<^verbatim>\<open>main\<close>: read, convert, build. Running follows, with the
  instance that was built.
\<close>

datatype start_error =
    ReadingConfiguration ConfigError
  | ParsingConfiguration ServerConfigConversionError
  | CreatingServer STSServerBuildError

definition start_from_config ::
    "('cert, 'key, 'sk, 'sock) config_env \<Rightarrow> ('cert, 'key, 'tls) build_inputs \<Rightarrow> string \<Rightarrow> disk
     \<Rightarrow> (start_error + ('tls, 'sk, 'sock) STSServer) outcome \<times> disk" where
  "start_from_config ce bi config_path d =
     (case Config_from_file ce config_path of
        Inl e \<Rightarrow> (Returns (Inl (ReadingConfiguration e)), d)
      | Inr conf \<Rightarrow>
     (case to_server_context ce conf of
        Inl e \<Rightarrow> (Returns (Inl (ParsingConfiguration e)), d)
      | Inr server_context \<Rightarrow>
     (case build_from_context bi server_context d of
        (Panic, d) \<Rightarrow> (Panic, d)
      | (Returns r, d) \<Rightarrow> (Returns (map_err CreatingServer r), d))))"

section \<open>Conversion\<close>

text \<open>
  \<open>clock_fits\<close>: the clock a configuration asks for, a local one or one that is synchronised
  every so many minutes with a given port.
\<close>

definition clock_fits :: "SyncedTimeOracleConfig option \<Rightarrow> 'sock TimeOracleType \<Rightarrow> bool" where
  "clock_fits conf clock =
     (case conf of
        None \<Rightarrow> clock = Local \<lparr>offset_nanos = 0\<rparr>
      | Some tc \<Rightarrow>
          (case clock of
             Local _ \<Rightarrow> False
           | Synced b \<Rightarrow>
               unat (to_sync_interval_in_minutes tc) \<le> 1092 \<and> to_ntp_server_port tc \<noteq> 0 \<and>
               sync_interval (bundle_worker b) = unat (to_sync_interval_in_minutes tc) * 60 * nat NANOS \<and>
               offset_nanos (bundle_oracle b) = 0 \<and> worker_offset_nanos (bundle_worker b) = 0))"

definition key_of_file :: "('cert, 'key, 'sk, 'sock) config_env \<Rightarrow> string \<Rightarrow> 'sk \<Rightarrow> bool" where
  "key_of_file ce path sk \<longleftrightarrow>
     (case read_config_file ce path PEM_EXT of
        Inl _ \<Rightarrow> False
      | Inr bytes \<Rightarrow> utf8_valid bytes \<and> ce_pkcs8 ce (map (\<lambda>b. char_of (unat b)) bytes) = Inr sk)"

lemma minutes_to_seconds:
  fixes m :: u16
  shows "checked_mul_u m 60 = (if unat m \<le> 1092 then Some (m * 60) else None)"
    and "unat m \<le> 1092 \<Longrightarrow> unat (m * 60) = unat m * 60"
  by (auto simp: checked_mul_u_def checked_unsigned_def unat_word_ariths)

lemma create_bundle_worker:
  assumes "create_bundle net host port address interval = Inr b"
  shows "port \<noteq> AnyFreePort" and "sync_interval (bundle_worker b) = interval"
    and "offset_nanos (bundle_oracle b) = 0" and "worker_offset_nanos (bundle_worker b) = 0"
  using assms by (auto simp: create_bundle_def split: NetworkPort.splits sum.splits list.splits)

lemma bundle_eta [simp]:
  fixes b :: "'sock TimeOracleBundle"
  shows "\<lparr>bundle_oracle = bundle_oracle b, bundle_worker = bundle_worker b\<rparr> = b"
  by simp

lemma load_time_oracle_fits:
  assumes "load_time_oracle ce conf = Inr clock"
  shows "clock_fits conf clock"
proof (cases conf)
  case None
  with assms show ?thesis by (simp add: load_time_oracle_def clock_fits_def TimeOracle_new_local_def)
next
  case (Some tc)
  obtain address b where m: "unat (to_sync_interval_in_minutes tc) \<le> 1092" and c: "clock = Synced b"
    and b: "create_bundle (ce_net ce) (to_ntp_server_host tc) (NetworkPort_from (to_ntp_server_port tc))
      address (unat (to_sync_interval_in_minutes tc) * 60 * nat NANOS) = Inr b"
    using assms Some
    by (auto simp: load_time_oracle_def Let_def result_bind_Inr_iff minutes_to_seconds split: if_splits)
  then show ?thesis
    using create_bundle_worker[OF b] Some by (auto simp: clock_fits_def NetworkPort_from_def split: if_splits)
qed

lemma to_server_context_fits:
  assumes "to_server_context ce conf = Inr ctx"
  shows "ce_parse_ip ce (nc_ip (cf_network conf)) = Inr (addr_ip (sc_address ctx))"
    and "addr_port (sc_address ctx) = nc_port (cf_network conf)" and "nc_port (cf_network conf) \<noteq> 0"
    and "rc_working_threads (sc_runtime_context ctx) = ru_working_threads (cf_runtime conf)"
    and "rc_cryptography_threads (sc_runtime_context ctx) = ru_cryptography_threads (cf_runtime conf)"
    and "key_of_file ce (ks_tss_priv_path (cf_keys conf)) (kc_tss_priv (sc_key_context ctx))"
    and "clock_fits (cf_synced_time_oracle conf) (sc_time_oracle_type ctx)"
    and "sc_database_location ctx = (case cf_database_path conf of None \<Rightarrow> DataBaseLocation.Memory | Some path \<Rightarrow> Disk path)"
  using assms
  by (auto simp: to_server_context_def result_bind_Inr_iff from_utf8_def key_of_file_def
      dest: load_time_oracle_fits split: if_splits)

lemma started_from_context:
  assumes "start_from_config ce bi path d = (Returns (Inr server), d')"
  obtains conf ctx where "Config_from_file ce path = Inr conf" and "to_server_context ce conf = Inr ctx"
    and "build_from_context bi ctx d = (Returns (Inr server), d')"
  using assms
  by (auto simp: start_from_config_def split: sum.splits prod.splits outcome.splits)

section \<open>Example instance\<close>

definition example_config :: "u16 \<Rightarrow> Config" where
  "example_config minutes =
     \<lparr>cf_network = \<lparr>nc_ip = ''127.0.0.1'', nc_port = 7777\<rparr>,
      cf_runtime = \<lparr>ru_working_threads = 2, ru_cryptography_threads = 4\<rparr>,
      cf_keys = \<lparr>ks_tls_cert_path = ''tls.pem'', ks_tls_priv_path = ''tls.pem'',
                 ks_tss_priv_path = ''tss.pem'', ks_ca_cert_path = ''ca.pem''\<rparr>,
      cf_synced_time_oracle = Some \<lparr>to_ntp_server_host = ''ntp'', to_ntp_server_port = 123,
        to_listener_ip = ''0.0.0.0'', to_listener_port = 0, to_sync_interval_in_minutes = minutes\<rparr>,
      cf_log = None, cf_database_path = None\<rparr>"

definition example_net :: "unit udp_net" where
  "example_net = \<lparr>to_socket_addrs = (\<lambda>_ p. Inr [\<lparr>addr_ip = V4 1, addr_port = p\<rparr>]),
     udp_bind = (\<lambda>_. Inr ()), udp_set_nonblocking = (\<lambda>_. Inr ()), udp_into_tokio = (\<lambda>_. Inr ())\<rparr>"

definition example_env :: "u16 \<Rightarrow> (unit, unit, unit, unit) config_env" where
  "example_env minutes = \<lparr>ce_ptr32 = False, ce_try_reserve = (\<lambda>_. None),
     ce_fs = (\<lambda>_. Inr (\<lparr>of_content = [], of_plan = []\<rparr>, Inr 0)), ce_utf8_error = (\<lambda>_. []),
     ce_toml = (\<lambda>_. Inr (example_config minutes)), ce_parse_ip = (\<lambda>_. Inr (V4 0)),
     ce_certs = (\<lambda>_. [Inr ()]), ce_private_key = (\<lambda>_. Inr (Some ())), ce_pkcs8 = (\<lambda>_. Inr ()),
     ce_net = example_net\<rparr>"

definition example_worker :: "u16 \<Rightarrow> unit TimeSyncWorker" where
  "example_worker minutes = \<lparr>ntp_server_addr = \<lparr>addr_ip = V4 1, addr_port = 123\<rparr>, listener = (),
     sync_interval = unat minutes * 60 * nat NANOS, worker_offset_nanos = 0\<rparr>"

lemma example_read:
  assumes "path_extension path = ext"
  shows "read_config_file (example_env m) path ext = Inr []"
  using assms
  by (cases ext) (simp_all add: read_config_file_def example_env_def safe_read_def SafeFileReader_new_def
      SafeFileReader_safe_read_def read_chunks.simps next_chunk_def take_read_def)

lemmas example_path = path_extension_def path_file_name_def path_components_def PEM_EXT_def TOML_EXT_def Let_def

lemma example_config_file: "Config_from_file (example_env m) ''stss.toml'' = Inr (example_config m)"
proof -
  have "read_config_file (example_env m) ''stss.toml'' TOML_EXT = Inr []"
    by (rule example_read) (simp add: example_path)
  then show ?thesis by (simp add: Config_from_file_def from_utf8_def) (simp add: example_env_def)
qed

definition example_clocked_context :: "u16 \<Rightarrow> (unit, unit, unit, unit) ServerContext" where
  "example_clocked_context m = \<lparr>sc_address = \<lparr>addr_ip = V4 0, addr_port = 7777\<rparr>,
     sc_runtime_context = \<lparr>rc_working_threads = 2, rc_cryptography_threads = 4\<rparr>,
     sc_key_context = \<lparr>kc_tls_cert = [()], kc_tls_priv = (), kc_tss_priv = ()\<rparr>,
     sc_time_oracle_type = Synced \<lparr>bundle_oracle = \<lparr>offset_nanos = 0\<rparr>, bundle_worker = example_worker m\<rparr>,
     sc_log_output = Stdout, sc_database_location = DataBaseLocation.Memory\<rparr>"

lemma example_to_context:
  assumes "unat m \<le> 1092"
  shows "to_server_context (example_env m) (example_config m) = Inr (example_clocked_context m)"
proof -
  have r: "read_config_file (example_env m) ''tls.pem'' PEM_EXT = Inr []"
    "read_config_file (example_env m) ''tss.pem'' PEM_EXT = Inr []"
    by (rule example_read, simp add: example_path)+
  have c: "load_time_oracle (example_env m) (cf_synced_time_oracle (example_config m)) =
      Inr (Synced \<lparr>bundle_oracle = \<lparr>offset_nanos = 0\<rparr>, bundle_worker = example_worker m\<rparr>)"
    using assms
    by (simp add: load_time_oracle_def example_config_def minutes_to_seconds)
      (simp add: example_env_def create_bundle_def NetworkPort_from_def example_net_def example_worker_def)
  show ?thesis
    unfolding to_server_context_def c
    by (simp add: example_config_def log_destination_def load_certificates_def r from_utf8_def)
      (simp add: example_env_def example_clocked_context_def)
qed

lemma example_start:
  assumes "unat m \<le> 1092"
  shows "\<exists>inst. start_from_config (example_env m) example_inputs ''stss.toml'' d = (Returns (Inr (Slow inst)), d) \<and>
    si_time_oracle_worker inst = Some (example_worker m)"
  by (simp add: start_from_config_def example_config_file example_to_context[OF assms])
    (simp add: build_from_context_def example_inputs_def example_clocked_context_def
      setup_logger_def build_runtime_def build_in_memory TimeOracleBundle_into_parts_def
      from_bundle_def get_slow_build_def)

section \<open>Properties\<close>



text \<open>
  C37. A synchronisation interval of zero minutes passes the conversion, and the worker that
  results dies at once: \<^verbatim>\<open>tokio::time::interval\<close> panics, so that the clock is never
  synchronised, whatever the time server answers.
\<close>

theorem zero_sync_interval_kills_worker:
  assumes "start_from_config ce bi path d = (Returns (Inr server), d')"
    and "server = Slow inst \<or> server = Accelerated inst"
    and "Config_from_file ce path = Inr conf" and "cf_synced_time_oracle conf = Some tc"
    and "to_sync_interval_in_minutes tc = 0"
    and "\<And>sock. udp_into_tokio net sock = Inr ()"
  shows "\<exists>worker. si_time_oracle_worker inst = Some worker \<and>
    sync_task net frac show_addr worker ticks (si_state inst) = Panic"
proof -
  obtain ctx where x: "to_server_context ce conf = Inr ctx"
    and b: "build_from_context bi ctx d = (Returns (Inr server), d')"
    using assms(3) by (auto intro: started_from_context[OF assms(1)])
  have "clock_fits (Some tc) (sc_time_oracle_type ctx)"
    using to_server_context_fits(7)[OF x] assms(4) by simp
  then obtain bd where bd: "sc_time_oracle_type ctx = Synced bd" "sync_interval (bundle_worker bd) = 0"
    using assms(5) by (auto simp: clock_fits_def split: TimeOracleType.splits)
  have "si_time_oracle_worker inst = Some (bundle_worker bd)"
    using b assms(2) bd(1) by (auto simp: build_from_context_def Let_def TimeOracleBundle_into_parts_def
        split: outcome.splits sum.splits if_splits prod.splits)
  then show ?thesis using bd(2) assms(6) by (simp add: sync_task_def start_syncing_def)
qed

theorem zero_sync_interval_kills_worker_witness:
  "\<exists>inst. start_from_config (example_env 0) example_inputs ''stss.toml'' empty_disk =
     (Returns (Inr (Slow inst)), empty_disk) \<and>
   (\<exists>worker. si_time_oracle_worker inst = Some worker \<and>
      sync_task example_net (\<lambda>f. f) (\<lambda>_. []) worker [] (si_state inst) = Panic)"
proof -
  obtain inst where i: "start_from_config (example_env 0) example_inputs ''stss.toml'' empty_disk =
      (Returns (Inr (Slow inst)), empty_disk)"
    using example_start[of 0 empty_disk] by auto
  have "cf_synced_time_oracle (example_config 0) = Some (the (cf_synced_time_oracle (example_config 0)))"
    by (simp add: example_config_def)
  from zero_sync_interval_kills_worker[OF i disjI1[OF refl] example_config_file this, of example_net "\<lambda>f. f" "\<lambda>_. []" "[]"] i
  show ?thesis by (auto simp: example_config_def example_net_def)
qed

end
