(* ===== verification/Certification_Authority.thy ===== *)
theory Certification_Authority
  imports Safe_Read Std_Text Example_Codec
begin

text \<open>
  The certification authority, \<^verbatim>\<open>certification_authority/src\<close>, and the client the server has
  for it, \<^verbatim>\<open>server/src/rekey.rs\<close>. The certificate library \<^verbatim>\<open>rcgen\<close>, the codec and the TOML
  parser are inputs; a connection is the list of what its stream yields.
\<close>

section \<open>Configuration\<close>

record CaNetworkConfig =
  cn_ip :: string
  cn_port :: u16

record KeyConfig =
  ca_cert_path :: string
  ca_key_path :: string

record CaConfig =
  ca_network :: CaNetworkConfig
  ca_keys :: KeyConfig

record CaContext =
  ca_address :: SocketAddr
  ca_cert_pem :: "byte list"
  ca_key_pem :: "byte list"

datatype CaConfigError = TomlNotUtf8 string | CaParse string | CaSafeRead SafeReadError

datatype ContextConversionError = ContextSafeRead SafeReadError | InvalidIp string | InvalidPort

record ca_env =
  cae_ptr32 :: bool
  cae_try_reserve :: "nat \<Rightarrow> string option"
  cae_fs :: filesystem
  cae_utf8_error :: "byte list \<Rightarrow> string"
  cae_toml :: "string \<Rightarrow> string + CaConfig"
  cae_parse_ip :: "string \<Rightarrow> string + IpAddr"

definition CaConfig_from_file :: "ca_env \<Rightarrow> string \<Rightarrow> CaConfigError + CaConfig" where
  "CaConfig_from_file ce path =
     result_bind (map_err CaSafeRead
       (safe_read (cae_ptr32 ce) (cae_try_reserve ce) (cae_fs ce) path (Some ''toml''))) (\<lambda>bytes.
     result_bind (map_err TomlNotUtf8 (from_utf8 (cae_utf8_error ce) bytes)) (\<lambda>raw_toml.
     map_err CaParse (cae_toml ce raw_toml)))"

definition convert_to_context :: "ca_env \<Rightarrow> CaConfig \<Rightarrow> ContextConversionError + CaContext" where
  "convert_to_context ce conf =
     result_bind (map_err InvalidIp (cae_parse_ip ce (cn_ip (ca_network conf)))) (\<lambda>ip.
     result_bind (if cn_port (ca_network conf) = 0 then Inl InvalidPort
                  else Inr (cn_port (ca_network conf))) (\<lambda>port.
     let address = \<lparr>addr_ip = ip, addr_port = port\<rparr> in
     result_bind (map_err ContextSafeRead (safe_read (cae_ptr32 ce) (cae_try_reserve ce) (cae_fs ce)
       (ca_cert_path (ca_keys conf)) (Some ''pem''))) (\<lambda>cert.
     result_bind (map_err ContextSafeRead (safe_read (cae_ptr32 ce) (cae_try_reserve ce) (cae_fs ce)
       (ca_key_path (ca_keys conf)) (Some ''pem''))) (\<lambda>key.
     Inr \<lparr>ca_address = address, ca_cert_pem = cert, ca_key_pem = key\<rparr>))))"

section \<open>Signing requests\<close>

text \<open>The calls of \<^verbatim>\<open>rcgen\<close> and of the codec of \<^verbatim>\<open>ca_protocol.rs\<close>.\<close>

record ('kp, 'iss, 'csr, 'cert) ca_crates =
  kp_from_pem :: "string \<Rightarrow> string + 'kp"
  from_ca_cert_pem :: "string \<Rightarrow> 'kp \<Rightarrow> string + 'iss"
  csr_from_der :: "byte list \<Rightarrow> string + 'csr"
  signed_by :: "'csr \<Rightarrow> 'iss \<Rightarrow> string + 'cert"
  cert_pem :: "'cert \<Rightarrow> string"
  ca_utf8_error :: "byte list \<Rightarrow> string"
  enc_ca_request :: "CaRequest \<Rightarrow> string + byte list"
  dec_ca_request :: "byte list \<Rightarrow> string + CaRequest"
  enc_ca_response :: "CaResponse \<Rightarrow> string + byte list"
  dec_ca_response :: "byte list \<Rightarrow> string + CaResponse"

datatype ClientHandlingError =
    ClientNetwork io_error
  | Decode string
  | Encode string
  | KeyNotUtf8 string
  | CertNotUtf8 string
  | CaKey string
  | CaIssuer string
  | Csr string
  | Sign string

fun ClientHandlingError_display :: "ClientHandlingError \<Rightarrow> string" where
  "ClientHandlingError_display (ClientNetwork e) = ''network/framing error: '' @ io_text e"
| "ClientHandlingError_display (Decode e) = ''cannot deserialize CA request: '' @ e"
| "ClientHandlingError_display (Encode e) = ''cannot serialize CA response: '' @ e"
| "ClientHandlingError_display (KeyNotUtf8 e) = ''CA key material is not valid UTF-8: '' @ e"
| "ClientHandlingError_display (CertNotUtf8 e) = ''CA certificate is not valid UTF-8: '' @ e"
| "ClientHandlingError_display (CaKey e) = ''cannot parse CA private key: '' @ e"
| "ClientHandlingError_display (CaIssuer e) = ''cannot build CA issuer: '' @ e"
| "ClientHandlingError_display (Csr e) = ''cannot parse certificate signing request: '' @ e"
| "ClientHandlingError_display (Sign e) = ''cannot sign certificate signing request: '' @ e"

definition sign_certificate_request ::
    "('kp, 'iss, 'csr, 'cert) ca_crates \<Rightarrow> byte list \<Rightarrow> CaContext \<Rightarrow> ClientHandlingError + string" where
  "sign_certificate_request g raw_csr context =
     result_bind (map_err KeyNotUtf8 (from_utf8 (ca_utf8_error g) (ca_key_pem context))) (\<lambda>key_pem.
     result_bind (map_err CertNotUtf8 (from_utf8 (ca_utf8_error g) (ca_cert_pem context))) (\<lambda>certificate_pem.
     result_bind (map_err CaKey (kp_from_pem g key_pem)) (\<lambda>ca_key_pair.
     result_bind (map_err CaIssuer (from_ca_cert_pem g certificate_pem ca_key_pair)) (\<lambda>ca_issuer.
     result_bind (map_err Csr (csr_from_der g raw_csr)) (\<lambda>csr_params.
     result_bind (map_err Sign (signed_by g csr_params ca_issuer)) (\<lambda>signed_certificate.
     Inr (cert_pem g signed_certificate)))))))"

fun handle_request :: "('kp, 'iss, 'csr, 'cert) ca_crates \<Rightarrow> CaRequest \<Rightarrow> CaContext \<Rightarrow> CaResponse" where
  "handle_request g (CertificateSign raw_cert) context =
     (case sign_certificate_request g raw_cert context of
        Inr pem_cert \<Rightarrow> CaOk pem_cert
      | Inl e \<Rightarrow> CanNotSignTheCertificate (ClientHandlingError_display e))"

text \<open>
  What the stream of a client yields: a frame (with the failure of sending its answer, if it
  fails), a failure, or its end. No further event is a client that is waited for (\<open>None\<close>).
\<close>

datatype ca_event = Frame "byte list" "io_error option" | FrameFails io_error | EndOfStream

fun handle_client ::
    "('kp, 'iss, 'csr, 'cert) ca_crates \<Rightarrow> CaContext \<Rightarrow> ca_event list
     \<Rightarrow> (ClientHandlingError + unit) option \<times> byte list list" where
  "handle_client g context [] = (None, [])"
| "handle_client g context (EndOfStream # evs) = (Some (Inr ()), [])"
| "handle_client g context (FrameFails e # evs) = (Some (Inl (ClientNetwork e)), [])"
| "handle_client g context (Frame raw_message sending # evs) =
     (case dec_ca_request g raw_message of
        Inl e \<Rightarrow> (Some (Inl (Decode e)), [])
      | Inr request \<Rightarrow>
          (case enc_ca_response g (handle_request g request context) of
             Inl e \<Rightarrow> (Some (Inl (Encode e)), [])
           | Inr serialized_response \<Rightarrow>
               (case sending of
                  Some e \<Rightarrow> (Some (Inl (ClientNetwork e)), [])
                | None \<Rightarrow> (let (r, sent) = handle_client g context evs
                           in (r, serialized_response # sent)))))"

text \<open>The accept loop: unlike the one of the server, it ends at the first failing accept.\<close>

datatype SmallServerRunError = Bind io_error | Accept io_error

datatype ca_accept = CaAccepted "ca_event list" | CaAcceptFails io_error | CtrlC "io_error option"

fun ca_loop ::
    "('kp, 'iss, 'csr, 'cert) ca_crates \<Rightarrow> CaContext \<Rightarrow> ca_accept list
     \<Rightarrow> (SmallServerRunError + unit) option \<times> ((ClientHandlingError + unit) option \<times> byte list list) list" where
  "ca_loop g context [] = (None, [])"
| "ca_loop g context (CaAcceptFails e # evs) = (Some (Inl (Accept e)), [])"
| "ca_loop g context (CtrlC failure # evs) = (Some (Inr ()), [])"
| "ca_loop g context (CaAccepted client # evs) =
     (let (r, tasks) = ca_loop g context evs in (r, handle_client g context client # tasks))"

definition ca_run ::
    "('kp, 'iss, 'csr, 'cert) ca_crates \<Rightarrow> io_error option \<Rightarrow> CaContext \<Rightarrow> ca_accept list
     \<Rightarrow> (SmallServerRunError + unit) option \<times> ((ClientHandlingError + unit) option \<times> byte list list) list" where
  "ca_run g binding context evs =
     (case binding of Some e \<Rightarrow> (Some (Inl (Bind e)), []) | None \<Rightarrow> ca_loop g context evs)"

section \<open>Rekeying\<close>

datatype DnType = OrganizationName | CommonName

datatype DnValue = Utf8String string

definition parse_dn_value :: "string \<Rightarrow> string + DnValue" where
  "parse_dn_value s = (if s = [] then Inl (''failed to convert '' @ s) else Inr (Utf8String s))"

record ('kp, 'params) rekey_crates =
  generate_for_ed25519 :: "string + 'kp"
  params_new :: "string list \<Rightarrow> string + 'params"
  dn_push :: "DnType \<Rightarrow> DnValue \<Rightarrow> 'params \<Rightarrow> 'params"
  serialize_csr :: "'params \<Rightarrow> 'kp \<Rightarrow> string + byte list"
  ip_to_string :: "IpAddr \<Rightarrow> string"

datatype RekeyClientError = InvalidCaAddress | InvalidServerIp | InvalidName | ConnectIoError io_error

datatype SignRequestError =
    CACertificateCreation string
  | IoError io_error
  | NetworkError string
  | Serialization string
  | Deserialization string
  | ConnectionClosed
  | Refused string
  | UnexpectedResponse

record RekeyClient =
  rk_server_ip :: IpAddr
  rk_organization_name :: DnValue
  rk_server_name :: DnValue
  rk_output :: string

text \<open>
  \<^verbatim>\<open>fs::write\<close>: it succeeds, it fails before the file is touched, or it fails after a prefix
  was written.
\<close>

datatype write_outcome = Written | NotOpened io_error | CutShort nat io_error

type_synonym files = "string \<rightharpoonup> string"

fun fs_write :: "write_outcome \<Rightarrow> string \<Rightarrow> string \<Rightarrow> files \<Rightarrow> (io_error + unit) \<times> files" where
  "fs_write Written path text fs = (Inr (), fs(path \<mapsto> text))"
| "fs_write (NotOpened e) path text fs = (Inl e, fs)"
| "fs_write (CutShort n e) path text fs = (Inl e, fs(path \<mapsto> take n text))"

text \<open>
  What the network does to the client: whether sending fails, and what comes back for the
  bytes that were sent (\<open>None\<close>: the stream ends).
\<close>

record ca_link =
  lk_send :: "io_error option"
  lk_answer :: "byte list \<Rightarrow> (io_error + byte list) option"

definition certificate_request ::
    "('kp, 'params) rekey_crates \<Rightarrow> RekeyClient \<Rightarrow> string + byte list" where
  "certificate_request rg client =
     result_bind (generate_for_ed25519 rg) (\<lambda>server_tls_keypair.
     result_bind (params_new rg [ip_to_string rg (rk_server_ip client)]) (\<lambda>params.
     let params = dn_push rg OrganizationName (rk_organization_name client) params;
         params = dn_push rg CommonName (rk_server_name client) params
     in serialize_csr rg params server_tls_keypair))"

definition new_cert_sign_request ::
    "('kp, 'params) rekey_crates \<Rightarrow> ('k, 'iss, 'csr, 'cert) ca_crates \<Rightarrow> ca_link \<Rightarrow> write_outcome
     \<Rightarrow> RekeyClient \<Rightarrow> files \<Rightarrow> (SignRequestError + unit) \<times> files" where
  "new_cert_sign_request rg g link wr client fs =
     (case certificate_request rg client of
        Inl e \<Rightarrow> (Inl (CACertificateCreation e), fs)
      | Inr raw_cert \<Rightarrow>
     (case enc_ca_request g (CertificateSign raw_cert) of
        Inl e \<Rightarrow> (Inl (Serialization e), fs)
      | Inr serialized_req \<Rightarrow>
     (case lk_send link of
        Some e \<Rightarrow> (Inl (NetworkError (io_text e)), fs)
      | None \<Rightarrow>
     (case lk_answer link serialized_req of
        None \<Rightarrow> (Inl ConnectionClosed, fs)
      | Some (Inl e) \<Rightarrow> (Inl (NetworkError (io_text e)), fs)
      | Some (Inr raw_frame) \<Rightarrow>
     (case dec_ca_response g raw_frame of
        Inl e \<Rightarrow> (Inl (Deserialization e), fs)
      | Inr (CaOk pem_cert) \<Rightarrow>
          (case fs_write wr (rk_output client) pem_cert fs of
             (Inl e, fs) \<Rightarrow> (Inl (IoError e), fs)
           | (Inr _, fs) \<Rightarrow> (Inr (), fs))
      | Inr (CanNotSignTheCertificate reason) \<Rightarrow> (Inl (Refused reason), fs))))))"

datatype RekeyClientManagerError = RekeyClientFailed RekeyClientError | SignRequest SignRequestError

definition rekey ::
    "('kp, 'params) rekey_crates \<Rightarrow> ('k, 'iss, 'csr, 'cert) ca_crates \<Rightarrow> io_error option \<Rightarrow> ca_link
     \<Rightarrow> write_outcome \<Rightarrow> RekeyClient \<Rightarrow> files \<Rightarrow> (RekeyClientManagerError + unit) \<times> files" where
  "rekey rg g connecting link wr client fs =
     (case connecting of
        Some e \<Rightarrow> (Inl (RekeyClientFailed (ConnectIoError e)), fs)
      | None \<Rightarrow>
          (case new_cert_sign_request rg g link wr client fs of
             (r, fs) \<Rightarrow> (map_err SignRequest r, fs)))"

section \<open>Specification\<close>

text \<open>
  \<open>issuer_of\<close>: the issuer the key material of a context gives, if it is usable.
  \<open>ca_answers\<close>: the authority at the other end of the connection of a client that sends one
  request. \<open>ca_codec_correct\<close>: what was encoded is decoded again.
\<close>

definition issuer_of :: "('kp, 'iss, 'csr, 'cert) ca_crates \<Rightarrow> CaContext \<Rightarrow> 'iss option" where
  "issuer_of g context =
     (if utf8_valid (ca_key_pem context) \<and> utf8_valid (ca_cert_pem context)
      then (case kp_from_pem g (map (\<lambda>b. char_of (unat b)) (ca_key_pem context)) of
              Inl _ \<Rightarrow> None
            | Inr kp \<Rightarrow>
                (case from_ca_cert_pem g (map (\<lambda>b. char_of (unat b)) (ca_cert_pem context)) kp of
                   Inl _ \<Rightarrow> None | Inr iss \<Rightarrow> Some iss))
      else None)"

definition ca_answers ::
    "('kp, 'iss, 'csr, 'cert) ca_crates \<Rightarrow> CaContext \<Rightarrow> byte list \<Rightarrow> (io_error + byte list) option" where
  "ca_answers g context message =
     (case handle_client g context [Frame message None, EndOfStream] of
        (_, []) \<Rightarrow> None
      | (_, frame # _) \<Rightarrow> Some (Inr frame))"

definition ca_codec_correct :: "('kp, 'iss, 'csr, 'cert) ca_crates \<Rightarrow> bool" where
  "ca_codec_correct g \<longleftrightarrow>
     (\<forall>r b. enc_ca_request g r = Inr b \<longrightarrow> dec_ca_request g b = Inr r) \<and>
     (\<forall>r b. enc_ca_response g r = Inr b \<longrightarrow> dec_ca_response g b = Inr r)"

section \<open>Lemmas\<close>

lemma issuer_of_Some:
  assumes "issuer_of g context = Some iss"
  shows "sign_certificate_request g der context =
    result_bind (map_err Csr (csr_from_der g der)) (\<lambda>csr.
      result_bind (map_err Sign (signed_by g csr iss)) (\<lambda>cert. Inr (cert_pem g cert)))"
  using assms
  by (auto simp: issuer_of_def sign_certificate_request_def from_utf8_def split: if_splits sum.splits)

lemma issuer_of_None:
  assumes "issuer_of g context = None"
  shows "\<exists>e. sign_certificate_request g der context = Inl e"
  using assms
  by (auto simp: issuer_of_def sign_certificate_request_def from_utf8_def split: if_splits sum.splits)

lemma handle_client_serves:
  assumes "\<forall>m \<in> set msgs. \<exists>req. dec_ca_request g m = Inr req \<and>
      enc_ca_response g (handle_request g req context) = Inr (answer m)"
  shows "handle_client g context (map (\<lambda>m. Frame m None) msgs @ evs) =
    (let (r, sent) = handle_client g context evs in (r, map answer msgs @ sent))"
  using assms by (induction msgs) (auto split: prod.splits)

lemma fs_write_elsewhere: "p \<noteq> path \<Longrightarrow> snd (fs_write wr path text fs) p = fs p"
  by (cases wr) auto

lemma new_cert_sign_request_files:
  assumes "new_cert_sign_request rg g link wr client fs = (r, fs')"
  shows "p \<noteq> rk_output client \<Longrightarrow> fs' p = fs p"
    and "r = Inr () \<Longrightarrow> \<exists>message frame pem. lk_answer link message = Some (Inr frame) \<and>
      dec_ca_response g frame = Inr (CaOk pem) \<and> fs' (rk_output client) = Some pem"
    and "r = Inl e \<Longrightarrow> \<forall>io. e \<noteq> IoError io \<Longrightarrow> fs' = fs"
  using assms fs_write_elsewhere[of p "rk_output client" wr]
  by (auto simp: new_cert_sign_request_def split: sum.splits option.splits CaResponse.splits prod.splits)
    (metis fs_write.simps snd_conv fst_conv sum.simps(4) write_outcome.exhaust fun_upd_same prod.inject)+

section \<open>Example instance\<close>

fun plain_enc_ca_response :: "CaResponse \<Rightarrow> string + byte list" where
  "plain_enc_ca_response (CaOk pem) = Inr (0 # map (\<lambda>ch. of_nat (of_char ch)) pem)"
| "plain_enc_ca_response (CanNotSignTheCertificate reason) = Inr (1 # map (\<lambda>ch. of_nat (of_char ch)) reason)"

fun plain_dec_ca_response :: "byte list \<Rightarrow> string + CaResponse" where
  "plain_dec_ca_response [] = Inl ''empty''"
| "plain_dec_ca_response (tag # bs) =
     Inr ((if tag = 0 then CaOk else CanNotSignTheCertificate) (map (\<lambda>b. char_of (unat b)) bs))"

definition plain_ca :: "(string, string, byte list, string) ca_crates" where
  "plain_ca = \<lparr>kp_from_pem = Inr, from_ca_cert_pem = (\<lambda>cert key. Inr cert), csr_from_der = Inr,
     signed_by = (\<lambda>csr iss. if csr = [] then Inl ''empty request'' else Inr (''signed by '' @ iss)),
     cert_pem = (\<lambda>cert. cert), ca_utf8_error = (\<lambda>_. []),
     enc_ca_request = (\<lambda>req. case req of CertificateSign bs \<Rightarrow> Inr bs),
     dec_ca_request = (\<lambda>bs. Inr (CertificateSign bs)),
     enc_ca_response = plain_enc_ca_response, dec_ca_response = plain_dec_ca_response\<rparr>"

definition plain_rekey :: "byte list \<Rightarrow> (unit, unit) rekey_crates" where
  "plain_rekey der = \<lparr>generate_for_ed25519 = Inr (), params_new = (\<lambda>_. Inr ()), dn_push = (\<lambda>_ _ p. p),
     serialize_csr = (\<lambda>_ _. Inr der), ip_to_string = (\<lambda>_. ''127.0.0.1'')\<rparr>"

definition plain_ca_context :: CaContext where
  "plain_ca_context = \<lparr>ca_address = \<lparr>addr_ip = V4 2130706433, addr_port = 8081\<rparr>,
     ca_cert_pem = [0x43, 0x41], ca_key_pem = [0x6B]\<rparr>"

definition plain_rekey_client :: RekeyClient where
  "plain_rekey_client = \<lparr>rk_server_ip = V4 2130706433, rk_organization_name = Utf8String ''UniPi'',
     rk_server_name = Utf8String ''TSA'', rk_output = ''tls.pem''\<rparr>"

lemma plain_ca_codec: "ca_codec_correct plain_ca"
proof -
  have "plain_enc_ca_response r = Inr b \<Longrightarrow> plain_dec_ca_response b = Inr r" for r b
    by (cases r) (auto simp: comp_def byte_of_char)
  then show ?thesis by (auto simp: ca_codec_correct_def plain_ca_def split: CaRequest.splits)
qed

section \<open>Properties\<close>

text \<open>
  C28. Rekeying against a working authority ends with the certificate in place: when the key
  material of the authority is usable and its library signs the request the server made, the
  output file holds exactly the certificate signed for that request, and every other file is
  as before. With unusable key material the server learns the refusal and nothing is written.
\<close>

theorem rekey_installs_ca_certificate:
  assumes "ca_codec_correct g" and "certificate_request rg client = Inr der"
    and "enc_ca_request g (CertificateSign der) = Inr message"
    and "\<And>resp. \<exists>frame. enc_ca_response g resp = Inr frame"
    and "lk_send link = None" and "lk_answer link = ca_answers g context"
  shows "rekey rg g None link Written client fs =
    (case issuer_of g context of
       None \<Rightarrow> (Inl (SignRequest (Refused
                (ClientHandlingError_display (projl (sign_certificate_request g der context))))), fs)
     | Some iss \<Rightarrow>
         (case csr_from_der g der of
            Inl e \<Rightarrow> (Inl (SignRequest (Refused (''cannot parse certificate signing request: '' @ e))), fs)
          | Inr csr \<Rightarrow>
              (case signed_by g csr iss of
                 Inl e \<Rightarrow> (Inl (SignRequest (Refused (''cannot sign certificate signing request: '' @ e))), fs)
               | Inr cert \<Rightarrow> (Inr (), fs(rk_output client \<mapsto> cert_pem g cert)))))"
proof -
  define resp where "resp = handle_request g (CertificateSign der) context"
  obtain frame where frame: "enc_ca_response g resp = Inr frame" using assms(4) by blast
  have dec: "dec_ca_request g message = Inr (CertificateSign der)" "dec_ca_response g frame = Inr resp"
    using assms(1,3) frame by (auto simp: ca_codec_correct_def)
  then have "ca_answers g context message = Some (Inr frame)"
    using frame by (simp add: ca_answers_def resp_def)
  then have "rekey rg g None link Written client fs =
      (case resp of
         CaOk pem \<Rightarrow> (Inr (), fs(rk_output client \<mapsto> pem))
       | CanNotSignTheCertificate reason \<Rightarrow> (Inl (SignRequest (Refused reason)), fs))"
    using assms(2,3,5,6) dec
    by (simp add: rekey_def new_cert_sign_request_def split: CaResponse.splits)
  note run = this
  show ?thesis
  proof (cases "issuer_of g context")
    case None
    with issuer_of_None[OF None, of der] run show ?thesis by (auto simp: resp_def)
  next
    case (Some iss)
    with run show ?thesis by (auto simp: resp_def issuer_of_Some split: sum.splits)
  qed
qed

theorem rekey_installs_ca_certificate_witness:
  "rekey (plain_rekey [1, 2, 3]) plain_ca None
     \<lparr>lk_send = None, lk_answer = ca_answers plain_ca plain_ca_context\<rparr> Written plain_rekey_client Map.empty =
   (Inr (), [''tls.pem'' \<mapsto> ''signed by CA''])"
proof -
  have e: "\<exists>frame. enc_ca_response plain_ca resp = Inr frame" for resp
    by (cases resp) (simp_all add: plain_ca_def)
  have r: "certificate_request (plain_rekey [1, 2, 3]) plain_rekey_client = Inr [1, 2, 3]"
    by (simp add: certificate_request_def plain_rekey_def)
  have m: "enc_ca_request plain_ca (CertificateSign [1, 2, 3]) = Inr [1, 2, 3]"
    by (simp add: plain_ca_def)
  have i: "issuer_of plain_ca plain_ca_context = Some ''CA''"
    by (simp add: issuer_of_def plain_ca_def plain_ca_context_def char_of_def bit_iff_odd)
  have s: "csr_from_der plain_ca = Inr" "signed_by plain_ca [1, 2, 3] ''CA'' = Inr ''signed by CA''"
    "cert_pem plain_ca cert = cert" "rk_output plain_rekey_client = ''tls.pem''" for cert
    by (simp_all add: plain_ca_def plain_rekey_client_def)
  define link where "link = \<lparr>lk_send = None, lk_answer = ca_answers plain_ca plain_ca_context\<rparr>"
  have l: "lk_send link = None" "lk_answer link = ca_answers plain_ca plain_ca_context"
    by (simp_all add: link_def)
  show ?thesis
    using rekey_installs_ca_certificate[OF plain_ca_codec r m e l, of Map.empty]
    by (simp add: i s) (simp add: link_def)
qed

text \<open>
  C38. Rekeying never stores the key pair it generated: whatever the network answers, the only
  file it changes is the output, the output changes only when the authority sent a certificate, and
  after success it holds the text the authority sent. The private key that belongs to the new
  certificate is nowhere, so that the server cannot use the certificate it obtained.
\<close>

theorem rekey_never_stores_key:
  assumes "rekey rg g connecting link wr client fs = (r, fs')"
  shows "(\<forall>p. p \<noteq> rk_output client \<longrightarrow> fs' p = fs p) \<and>
    (r = Inr () \<longrightarrow> (\<exists>message frame pem. lk_answer link message = Some (Inr frame) \<and>
      dec_ca_response g frame = Inr (CaOk pem) \<and> fs' (rk_output client) = Some pem)) \<and>
    (\<forall>e. r = Inl e \<longrightarrow> (\<forall>io. e \<noteq> SignRequest (IoError io)) \<longrightarrow> fs' = fs)"
proof (cases connecting)
  case None
  obtain q where q: "new_cert_sign_request rg g link wr client fs = (q, fs')"
    using assms None by (auto simp: rekey_def split: prod.splits)
  have r: "r = map_err SignRequest q" using assms None q by (simp add: rekey_def)
  note f = new_cert_sign_request_files[OF q]
  from r f show ?thesis by (cases q) auto
qed (use assms in \<open>auto simp: rekey_def\<close>)

theorem rekey_never_stores_key_witness:
  "\<exists>r fs'. rekey (plain_rekey [1, 2, 3]) plain_ca None
     \<lparr>lk_send = None, lk_answer = ca_answers plain_ca plain_ca_context\<rparr> Written plain_rekey_client
     [''tls_key.pem'' \<mapsto> ''old key''] = (r, fs') \<and> fs' ''tls_key.pem'' = Some ''old key''"
proof -
  obtain r fs' where e: "rekey (plain_rekey [1, 2, 3]) plain_ca None
     \<lparr>lk_send = None, lk_answer = ca_answers plain_ca plain_ca_context\<rparr> Written plain_rekey_client
     [''tls_key.pem'' \<mapsto> ''old key''] = (r, fs')" by fastforce
  with rekey_never_stores_key[OF e] show ?thesis by (simp add: plain_rekey_client_def)
qed

end
