(* ===== verification/Terraform.thy ===== *)
theory Terraform
  imports Server_Config Certification_Authority Client
begin

text \<open>
  The generator of a simulation environment, \<^verbatim>\<open>terraform/src\<close>: names, directories, keys and
  configuration files for a client, a server and a certification authority. Key generation and
  the TOML printer are inputs. The file system is a set of directories and a map of files, keyed
  by the components of a path; the path that \<^verbatim>\<open>canonicalize\<close> answers for an existing file is an
  input.
\<close>

section \<open>Names\<close>

datatype Component = RootDir | CurDir | ParentDir | Normal string

definition components :: "string \<Rightarrow> Component list" where
  "components p =
     (if path_is_absolute p then [RootDir] else []) @
     map (\<lambda>c. if c = ''.'' then CurDir else if c = ''..'' then ParentDir else Normal c) (path_components p)"

datatype FileSystemName = FileSystemName (as_str: string)

datatype FileSystemNameError = InvalidFileName string

definition FileSystemName_new :: "string \<Rightarrow> FileSystemNameError + FileSystemName" where
  "FileSystemName_new name =
     (case components name of
        [Normal _] \<Rightarrow> Inr (FileSystemName name)
      | _ \<Rightarrow> Inl (InvalidFileName name))"

definition FileSystemName_try_from :: "string \<Rightarrow> FileSystemNameError + FileSystemName" where [simp]:
  "FileSystemName_try_from value = FileSystemName_new value"

definition FileSystemName_concat :: "FileSystemName \<Rightarrow> FileSystemName \<Rightarrow> FileSystemName" where
  "FileSystemName_concat name suffix = FileSystemName (as_str name @ as_str suffix)"

section \<open>Environments\<close>

definition DEFAULT_CLIENT_ENV_SUBDIR :: string where "DEFAULT_CLIENT_ENV_SUBDIR = ''client_env''"
definition DEFAULT_SERVER_ENV_SUBDIR :: string where "DEFAULT_SERVER_ENV_SUBDIR = ''server_env''"
definition DEFAULT_CA_ENV_SUBDIR :: string where "DEFAULT_CA_ENV_SUBDIR = ''ca_env''"
definition DEFAULT_SERVER_IP_STR :: string where "DEFAULT_SERVER_IP_STR = ''127.0.0.1''"
definition DEFAULT_CA_IP_STR :: string where "DEFAULT_CA_IP_STR = ''127.0.0.1''"
definition DEFAULT_SERVER_IP_PORT :: u16 where "DEFAULT_SERVER_IP_PORT = 8080"
definition DEFAULT_CA_IP_PORT :: u16 where "DEFAULT_CA_IP_PORT = 8081"

record EnvironmentGenerator =
  eg_client_dir :: string
  eg_server_dir :: string
  eg_ca_dir :: string
  eg_root_dir :: string

record EnvironmentGeneratorBuilder =
  eb_client_dir :: "FileSystemName option"
  eb_server_dir :: "FileSystemName option"
  eb_ca_dir :: "FileSystemName option"
  eb_root_dir :: string

datatype EnvironmentGeneratorBuildError = FoldersMustBeDifferent

definition from_simulation_dir :: "string \<Rightarrow> EnvironmentGeneratorBuilder" where
  "from_simulation_dir root =
     \<lparr>eb_client_dir = None, eb_server_dir = None, eb_ca_dir = None, eb_root_dir = root\<rparr>"

definition with_client_dir :: "FileSystemName \<Rightarrow> EnvironmentGeneratorBuilder \<Rightarrow> EnvironmentGeneratorBuilder" where
  "with_client_dir name eb = eb\<lparr>eb_client_dir := Some name\<rparr>"

definition with_server_dir :: "FileSystemName \<Rightarrow> EnvironmentGeneratorBuilder \<Rightarrow> EnvironmentGeneratorBuilder" where
  "with_server_dir name eb = eb\<lparr>eb_server_dir := Some name\<rparr>"

definition with_ca_dir :: "FileSystemName \<Rightarrow> EnvironmentGeneratorBuilder \<Rightarrow> EnvironmentGeneratorBuilder" where
  "with_ca_dir name eb = eb\<lparr>eb_ca_dir := Some name\<rparr>"

text \<open>\<^verbatim>\<open>expect\<close>, and the sequence of computations that may panic.\<close>

definition expect :: "'e + 'a \<Rightarrow> 'a outcome" where
  "expect r = (case r of Inl _ \<Rightarrow> Panic | Inr a \<Rightarrow> Returns a)"

definition outcome_bind :: "'a outcome \<Rightarrow> ('a \<Rightarrow> 'b outcome) \<Rightarrow> 'b outcome" where
  "outcome_bind r f = (case r of Panic \<Rightarrow> Panic | Returns a \<Rightarrow> f a)"

definition name_or_default :: "FileSystemName option \<Rightarrow> string \<Rightarrow> FileSystemName outcome" where
  "name_or_default name default_name =
     (case name of Some n \<Rightarrow> Returns n | None \<Rightarrow> expect (FileSystemName_new default_name))"

fun has_duplicates :: "string list \<Rightarrow> string list \<Rightarrow> bool" where
  "has_duplicates seen [] = False"
| "has_duplicates seen (p # ps) = (list_ex (path_eq p) seen \<or> has_duplicates (p # seen) ps)"

definition EnvironmentGeneratorBuilder_build ::
    "EnvironmentGeneratorBuilder \<Rightarrow> (EnvironmentGeneratorBuildError + EnvironmentGenerator) outcome" where
  "EnvironmentGeneratorBuilder_build eb =
     outcome_bind (name_or_default (eb_client_dir eb) DEFAULT_CLIENT_ENV_SUBDIR) (\<lambda>client_name.
     outcome_bind (name_or_default (eb_server_dir eb) DEFAULT_SERVER_ENV_SUBDIR) (\<lambda>server_name.
     outcome_bind (name_or_default (eb_ca_dir eb) DEFAULT_CA_ENV_SUBDIR) (\<lambda>ca_name.
     let client_path = path_join (eb_root_dir eb) (as_str client_name);
         server_path = path_join (eb_root_dir eb) (as_str server_name);
         ca_path = path_join (eb_root_dir eb) (as_str ca_name)
     in Returns
          (if has_duplicates [] [client_path, server_path, ca_path] then Inl FoldersMustBeDifferent
           else Inr \<lparr>eg_client_dir = client_path, eg_server_dir = server_path, eg_ca_dir = ca_path,
                     eg_root_dir = eb_root_dir eb\<rparr>))))"

definition EnvironmentGeneratorBuilder_build_default :: "string \<Rightarrow> EnvironmentGenerator outcome" where
  "EnvironmentGeneratorBuilder_build_default path =
     outcome_bind (EnvironmentGeneratorBuilder_build (from_simulation_dir path)) expect"

section \<open>File names\<close>

record AnyServerFiles =
  sf_tls_cert_name :: FileSystemName
  sf_tls_key_name :: FileSystemName
  sf_sign_pub_key_name :: FileSystemName
  sf_sign_priv_key_name :: FileSystemName
  sf_toml_name :: FileSystemName
  sf_given_prefix :: FileSystemName

definition suffixed :: "FileSystemName \<Rightarrow> string \<Rightarrow> FileSystemName outcome" where
  "suffixed prefix suffix =
     outcome_bind (expect (FileSystemName_new suffix)) (\<lambda>s. Returns (FileSystemName_concat prefix s))"

definition AnyServerFiles_default :: "string \<Rightarrow> (FileSystemNameError + AnyServerFiles) outcome" where
  "AnyServerFiles_default prefix =
     (case FileSystemName_new prefix of
        Inl e \<Rightarrow> Returns (Inl e)
      | Inr safe_prefix \<Rightarrow>
          outcome_bind (suffixed safe_prefix ''tls_certificate.pem'') (\<lambda>tls_cert_name.
          outcome_bind (suffixed safe_prefix ''tls_private_key.pem'') (\<lambda>tls_key_name.
          outcome_bind (suffixed safe_prefix ''rsa_pub_key.pem'') (\<lambda>sign_pub_key_name.
          outcome_bind (suffixed safe_prefix ''rsa_priv_key.pem'') (\<lambda>sign_priv_key_name.
          outcome_bind (suffixed safe_prefix ''config.toml'') (\<lambda>toml_name.
          Returns (Inr \<lparr>sf_tls_cert_name = tls_cert_name, sf_tls_key_name = tls_key_name,
            sf_sign_pub_key_name = sign_pub_key_name, sf_sign_priv_key_name = sign_priv_key_name,
            sf_toml_name = toml_name, sf_given_prefix = safe_prefix\<rparr>)))))))"

record ClientFiles =
  cf_toml_file :: FileSystemName

definition ClientFiles_new :: "FileSystemName \<Rightarrow> ClientFiles" where
  "ClientFiles_new toml_file = \<lparr>cf_toml_file = toml_file\<rparr>"

definition ClientFiles_default :: "string \<Rightarrow> FileSystemNameError + ClientFiles" where
  "ClientFiles_default toml_file =
     result_bind (FileSystemName_new toml_file) (\<lambda>n. Inr \<lparr>cf_toml_file = n\<rparr>)"

section \<open>Threads\<close>

text \<open>The features the processor reports, by architecture.\<close>

datatype target_arch = X86_64 bool bool | Aarch64 bool bool | OtherArch

record machine =
  mc_arch :: target_arch
  mc_available_parallelism :: "nat option"

fun is_crypto_hardware_accelerated :: "target_arch \<Rightarrow> bool" where
  "is_crypto_hardware_accelerated (X86_64 adx bmi2) = (\<not> (\<not> adx \<and> \<not> adx \<and> \<not> bmi2))"
| "is_crypto_hardware_accelerated (Aarch64 neon aes) = (neon \<or> aes)"
| "is_crypto_hardware_accelerated OtherArch = False"

definition MIN_THREADS :: nat where "MIN_THREADS = 2"
definition MAX_THREADS :: nat where "MAX_THREADS = 16"

text \<open>\<^verbatim>\<open>Ord::clamp\<close>, which panics when the bounds are in the wrong order.\<close>

definition clamp :: "nat \<Rightarrow> nat \<Rightarrow> nat \<Rightarrow> nat outcome" where
  "clamp lo hi n = (if hi < lo then Panic else Returns (if n < lo then lo else if hi < n then hi else n))"

definition heuristic_working_threads ::
    "machine \<Rightarrow> (nat \<times> nat) option \<Rightarrow> (bool \<times> nat) outcome" where
  "heuristic_working_threads m thread_limits =
     (let (lo, hi) = (case thread_limits of
                        Some (lo, hi) \<Rightarrow> (if hi < lo then (hi, lo) else (lo, hi))
                      | None \<Rightarrow> (MIN_THREADS, MAX_THREADS));
          base_threads = (case mc_available_parallelism m of Some n \<Rightarrow> n div 4 | None \<Rightarrow> MIN_THREADS)
      in outcome_bind (clamp lo hi base_threads) (\<lambda>n. Returns (is_crypto_hardware_accelerated (mc_arch m), n)))"

section \<open>File system\<close>

record gen_fs =
  gf_dirs :: "path_key set"
  gf_files :: "path_key \<rightharpoonup> string"

text \<open>
  What the operating system does: the failure of creating a directory, the fate of writing a
  file, and the canonical form of a path that exists.
\<close>

record gen_os =
  os_create_dir :: "string \<Rightarrow> io_error option"
  os_write :: "string \<Rightarrow> write_outcome"
  os_canonicalize :: "string \<Rightarrow> io_error + string"

definition dir_exists :: "gen_fs \<Rightarrow> path_key \<Rightarrow> bool" where
  "dir_exists fs k \<longleftrightarrow> snd k = [] \<or> k \<in> gf_dirs fs"

definition key_exists :: "gen_fs \<Rightarrow> path_key \<Rightarrow> bool" where
  "key_exists fs k \<longleftrightarrow> dir_exists fs k \<or> gf_files fs k \<noteq> None"

definition key_parent :: "path_key \<Rightarrow> path_key" where
  "key_parent k = (fst k, butlast (snd k))"

definition create_dir :: "gen_os \<Rightarrow> string \<Rightarrow> gen_fs \<Rightarrow> (io_error + unit) \<times> gen_fs" where
  "create_dir os p fs =
     (case os_create_dir os p of
        Some e \<Rightarrow> (Inl e, fs)
      | None \<Rightarrow>
          (if p \<noteq> [] \<and> key_exists fs (path_key p) then (Inl (io_error.IoError AlreadyExists ''File exists''), fs)
           else if p = [] \<or> \<not> dir_exists fs (key_parent (path_key p))
           then (Inl (io_error.IoError NotFound ''No such file or directory''), fs)
           else (Inr (), fs\<lparr>gf_dirs := insert (path_key p) (gf_dirs fs)\<rparr>)))"

definition write_text :: "gen_os \<Rightarrow> string \<Rightarrow> string \<Rightarrow> gen_fs \<Rightarrow> (io_error + unit) \<times> gen_fs" where
  "write_text os p content fs =
     (if dir_exists fs (path_key p) \<or> p \<noteq> [] \<and> last p = CHR ''/'' then (Inl (io_error.IoError (OtherKind 0) ''Is a directory''), fs)
      else if \<not> dir_exists fs (key_parent (path_key p))
      then (Inl (io_error.IoError NotFound ''No such file or directory''), fs)
      else case os_write os p of
             NotOpened e \<Rightarrow> (Inl e, fs)
           | CutShort n e \<Rightarrow> (Inl e, fs\<lparr>gf_files := (gf_files fs)(path_key p \<mapsto> take n content)\<rparr>)
           | Written \<Rightarrow> (Inr (), fs\<lparr>gf_files := (gf_files fs)(path_key p \<mapsto> content)\<rparr>))"

definition canonicalize :: "gen_os \<Rightarrow> string \<Rightarrow> gen_fs \<Rightarrow> io_error + string" where
  "canonicalize os p fs =
     (if key_exists fs (path_key p) then os_canonicalize os p
      else Inl (io_error.IoError NotFound ''No such file or directory''))"

text \<open>Sequences of fallible steps on the file system.\<close>

definition step_bind ::
    "('e + 'a) \<times> 's \<Rightarrow> ('a \<Rightarrow> 's \<Rightarrow> ('e + 'b) \<times> 's) \<Rightarrow> ('e + 'b) \<times> 's" where
  "step_bind r f = (case r of (Inl e, s) \<Rightarrow> (Inl e, s) | (Inr a, s) \<Rightarrow> f a s)"

definition step_map_err :: "('e \<Rightarrow> 'f) \<Rightarrow> ('e + 'a) \<times> 's \<Rightarrow> ('f + 'a) \<times> 's" where
  "step_map_err g r = (map_err g (fst r), snd r)"

section \<open>Generation\<close>

datatype KeyGenError =
    KeyGenIo string io_error
  | Rsa string
  | RsaPkcs8 string
  | KeyGenTls string
  | Pem string
  | CACertificateCreation string
  | ServerCertificateCreation string

datatype TomlGenError =
    TomlGenIo string io_error
  | Canonicalize string io_error
  | InvalidUtf8Path string
  | TomlGeneration string
  | CannotWriteToFile string
  | IncoherentThreadLimits nat nat

datatype GenerationError = KeyGen KeyGenError | TomlGen TomlGenError

datatype GeneratorCreationError = EqualPrefixes

record Generator =
  gn_server_files :: AnyServerFiles
  gn_ca_files :: AnyServerFiles
  gn_client_files :: ClientFiles
  gn_env :: EnvironmentGenerator

definition new_from_files ::
    "AnyServerFiles \<Rightarrow> AnyServerFiles \<Rightarrow> ClientFiles \<Rightarrow> EnvironmentGenerator \<Rightarrow> GeneratorCreationError + Generator" where
  "new_from_files server_files ca_files client_files env =
     (if sf_given_prefix server_files = sf_given_prefix ca_files then Inl EqualPrefixes
      else Inr \<lparr>gn_server_files = server_files, gn_ca_files = ca_files, gn_client_files = client_files,
                gn_env = env\<rparr>)"

text \<open>The calls of \<^verbatim>\<open>rcgen\<close>, \<^verbatim>\<open>rsa\<close> and \<^verbatim>\<open>toml\<close>; \<open>gc_keypair i\<close> is the \<open>i\<close>-th key pair.\<close>

record ('kp, 'params, 'iss, 'rsk) gen_crates =
  gc_keypair :: "nat \<Rightarrow> string + 'kp"
  gc_key_pem :: "'kp \<Rightarrow> string"
  gc_params_new :: "string list \<Rightarrow> string + 'params"
  gc_set_is_ca :: "'params \<Rightarrow> 'params"
  gc_dn_push :: "DnType \<Rightarrow> string \<Rightarrow> 'params \<Rightarrow> 'params"
  gc_self_signed :: "'params \<Rightarrow> 'kp \<Rightarrow> string + string"
  gc_issuer :: "'params \<Rightarrow> 'kp \<Rightarrow> 'iss"
  gc_signed_by :: "'params \<Rightarrow> 'kp \<Rightarrow> 'iss \<Rightarrow> string + string"
  gc_rsa_new :: "nat \<Rightarrow> string + 'rsk"
  gc_rsa_priv_pem :: "'rsk \<Rightarrow> string + string"
  gc_rsa_pub_pem :: "'rsk \<Rightarrow> string + string"
  gc_server_toml :: "Config \<Rightarrow> string + string"
  gc_client_toml :: "ClientConfig \<Rightarrow> string + string"
  gc_ca_toml :: "CaConfig \<Rightarrow> string + string"

record key_material =
  km_ca_key :: string
  km_ca_cert :: string
  km_server_key :: string
  km_server_cert :: string
  km_rsa_priv :: string
  km_rsa_pub :: string

definition generate_keys :: "('kp, 'params, 'iss, 'rsk) gen_crates \<Rightarrow> KeyGenError + key_material" where
  "generate_keys gc =
     result_bind (map_err KeyGenTls (gc_keypair gc 0)) (\<lambda>ca_keypair.
     result_bind (map_err CACertificateCreation (gc_params_new gc [''Root CA''])) (\<lambda>ca_params.
     let ca_params = gc_set_is_ca gc ca_params;
         ca_params = gc_dn_push gc OrganizationName ''University of Pisa'' ca_params;
         ca_params = gc_dn_push gc CommonName ''CyberSecurity Project'' ca_params in
     result_bind (map_err CACertificateCreation (gc_self_signed gc ca_params ca_keypair)) (\<lambda>ca_cert.
     let ca_issuer = gc_issuer gc ca_params ca_keypair in
     result_bind (map_err KeyGenTls (gc_keypair gc 1)) (\<lambda>server_tls_keypair.
     result_bind (map_err CACertificateCreation (gc_params_new gc [DEFAULT_SERVER_IP_STR])) (\<lambda>server_params.
     let server_params = gc_dn_push gc OrganizationName ''University of Pisa'' server_params;
         server_params = gc_dn_push gc CommonName ''TSA Server'' server_params in
     result_bind (map_err ServerCertificateCreation
       (gc_signed_by gc server_params server_tls_keypair ca_issuer)) (\<lambda>server_cert.
     result_bind (map_err Rsa (gc_rsa_new gc 2048)) (\<lambda>rsa_priv.
     result_bind (map_err RsaPkcs8 (gc_rsa_priv_pem gc rsa_priv)) (\<lambda>rsa_priv_pem.
     result_bind (map_err Pem (gc_rsa_pub_pem gc rsa_priv)) (\<lambda>rsa_pub_pem.
     Inr \<lparr>km_ca_key = gc_key_pem gc ca_keypair, km_ca_cert = ca_cert,
          km_server_key = gc_key_pem gc server_tls_keypair, km_server_cert = server_cert,
          km_rsa_priv = rsa_priv_pem, km_rsa_pub = rsa_pub_pem\<rparr>)))))))))"

fun create_dirs :: "gen_os \<Rightarrow> string list \<Rightarrow> gen_fs \<Rightarrow> (KeyGenError + unit) \<times> gen_fs" where
  "create_dirs os [] fs = (Inr (), fs)"
| "create_dirs os (d # ds) fs =
     step_bind (step_map_err (KeyGenIo d) (create_dir os d fs)) (\<lambda>_. create_dirs os ds)"

fun write_files :: "gen_os \<Rightarrow> (string \<times> FileSystemName \<times> string) list \<Rightarrow> gen_fs \<Rightarrow> (KeyGenError + unit) \<times> gen_fs" where
  "write_files os [] fs = (Inr (), fs)"
| "write_files os ((dir, filename, content) # ws) fs =
     (let path = path_join dir (as_str filename)
      in step_bind (step_map_err (KeyGenIo path) (write_text os path content fs)) (\<lambda>_. write_files os ws))"

definition distribution :: "Generator \<Rightarrow> key_material \<Rightarrow> (string \<times> FileSystemName \<times> string) list" where
  "distribution gn km =
     (let env = gn_env gn; ca = gn_ca_files gn; server = gn_server_files gn
      in [(eg_ca_dir env, sf_tls_key_name ca, km_ca_key km),
          (eg_ca_dir env, sf_tls_cert_name ca, km_ca_cert km),
          (eg_server_dir env, sf_tls_key_name server, km_server_key km),
          (eg_server_dir env, sf_tls_cert_name server, km_server_cert km),
          (eg_server_dir env, sf_sign_priv_key_name server, km_rsa_priv km),
          (eg_server_dir env, sf_tls_cert_name ca, km_ca_cert km),
          (eg_client_dir env, sf_tls_cert_name ca, km_ca_cert km),
          (eg_client_dir env, sf_sign_pub_key_name server, km_rsa_pub km)])"

definition generate_keys_and_distribute ::
    "('kp, 'params, 'iss, 'rsk) gen_crates \<Rightarrow> gen_os \<Rightarrow> Generator \<Rightarrow> gen_fs \<Rightarrow> (KeyGenError + unit) \<times> gen_fs" where
  "generate_keys_and_distribute gc os gn fs =
     step_bind (generate_keys gc, fs) (\<lambda>km fs.
     step_bind (create_dirs os [eg_root_dir (gn_env gn), eg_ca_dir (gn_env gn), eg_server_dir (gn_env gn),
                                eg_client_dir (gn_env gn)] fs) (\<lambda>_.
     write_files os (distribution gn km)))"

definition get_canonical_path :: "gen_os \<Rightarrow> string \<Rightarrow> FileSystemName \<Rightarrow> gen_fs \<Rightarrow> TomlGenError + string" where
  "get_canonical_path os dir file_name fs =
     map_err (Canonicalize (as_str file_name)) (canonicalize os (path_join dir (as_str file_name)) fs)"

text \<open>The configurations that are written, for the canonical paths of the keys.\<close>

definition default_server_config :: "bool \<Rightarrow> nat \<Rightarrow> string \<Rightarrow> string \<Rightarrow> string \<Rightarrow> string \<Rightarrow> Config" where
  "default_server_config accelerated n_threads tls_cert_path tls_priv_path tss_priv_path ca_path =
     \<lparr>cf_network = \<lparr>nc_ip = DEFAULT_SERVER_IP_STR, nc_port = DEFAULT_SERVER_IP_PORT\<rparr>,
      cf_runtime = \<lparr>ru_working_threads = n_threads, ru_cryptography_threads = (if accelerated then 0 else 1)\<rparr>,
      cf_keys = \<lparr>ks_tls_cert_path = tls_cert_path, ks_tls_priv_path = tls_priv_path,
                 ks_tss_priv_path = tss_priv_path, ks_ca_cert_path = ca_path\<rparr>,
      cf_synced_time_oracle = Some \<lparr>to_ntp_server_host = ''pool.ntp.org'', to_ntp_server_port = 123,
        to_listener_ip = ''0.0.0.0'', to_listener_port = 0, to_sync_interval_in_minutes = 5\<rparr>,
      cf_log = None, cf_database_path = None\<rparr>"

definition default_client_config :: "string \<Rightarrow> string \<Rightarrow> ClientConfig" where
  "default_client_config cert_path key_path =
     ClientConfig_new DEFAULT_SERVER_IP_STR DEFAULT_SERVER_IP_PORT DEFAULT_SERVER_IP_STR False cert_path key_path"

definition default_ca_config :: "string \<Rightarrow> string \<Rightarrow> CaConfig" where
  "default_ca_config cert_path key_path =
     \<lparr>ca_network = \<lparr>cn_ip = DEFAULT_CA_IP_STR, cn_port = DEFAULT_CA_IP_PORT\<rparr>,
      ca_keys = \<lparr>ca_cert_path = cert_path, ca_key_path = key_path\<rparr>\<rparr>"

definition write_toml :: "gen_os \<Rightarrow> string \<Rightarrow> string + string \<Rightarrow> gen_fs \<Rightarrow> (TomlGenError + unit) \<times> gen_fs" where
  "write_toml os final_path printed fs =
     step_bind (map_err TomlGeneration printed, fs) (\<lambda>toml_default fs.
     step_map_err (TomlGenIo final_path) (write_text os final_path toml_default fs))"

definition generate_server_toml ::
    "('kp, 'params, 'iss, 'rsk) gen_crates \<Rightarrow> gen_os \<Rightarrow> machine \<Rightarrow> (nat \<times> nat) option \<Rightarrow> Generator \<Rightarrow> gen_fs
     \<Rightarrow> ((TomlGenError + unit) \<times> gen_fs) outcome" where
  "generate_server_toml gc os m thread_limits gn fs =
     outcome_bind (heuristic_working_threads m thread_limits) (\<lambda>(accelerated, n_threads).
     let dir = eg_server_dir (gn_env gn)
     in Returns
        (step_bind (get_canonical_path os dir (sf_tls_cert_name (gn_server_files gn)) fs, fs) (\<lambda>tls_cert_path fs.
         step_bind (get_canonical_path os dir (sf_tls_key_name (gn_server_files gn)) fs, fs) (\<lambda>tls_priv_path fs.
         step_bind (get_canonical_path os dir (sf_sign_priv_key_name (gn_server_files gn)) fs, fs) (\<lambda>tss_priv_path fs.
         step_bind (get_canonical_path os dir (sf_tls_cert_name (gn_ca_files gn)) fs, fs) (\<lambda>ca_path fs.
         write_toml os (path_join dir (as_str (sf_toml_name (gn_server_files gn))))
           (gc_server_toml gc (default_server_config accelerated n_threads tls_cert_path tls_priv_path
              tss_priv_path ca_path)) fs))))))"

definition generate_client_toml ::
    "('kp, 'params, 'iss, 'rsk) gen_crates \<Rightarrow> gen_os \<Rightarrow> Generator \<Rightarrow> gen_fs
     \<Rightarrow> ((TomlGenError + unit) \<times> gen_fs) outcome" where
  "generate_client_toml gc os gn fs =
     (if DEFAULT_SERVER_IP_PORT = 0 then Panic
      else
        let dir = eg_client_dir (gn_env gn)
        in Returns
           (step_bind (get_canonical_path os dir (sf_tls_cert_name (gn_ca_files gn)) fs, fs) (\<lambda>cert_path fs.
            step_bind (get_canonical_path os dir (sf_sign_pub_key_name (gn_server_files gn)) fs, fs) (\<lambda>key_path fs.
            write_toml os (path_join dir (as_str (cf_toml_file (gn_client_files gn))))
              (gc_client_toml gc (default_client_config cert_path key_path)) fs))))"

definition generate_ca_toml ::
    "('kp, 'params, 'iss, 'rsk) gen_crates \<Rightarrow> gen_os \<Rightarrow> Generator \<Rightarrow> gen_fs
     \<Rightarrow> ((TomlGenError + unit) \<times> gen_fs) outcome" where
  "generate_ca_toml gc os gn fs =
     (let dir = eg_ca_dir (gn_env gn)
      in Returns
         (step_bind (get_canonical_path os dir (sf_tls_cert_name (gn_ca_files gn)) fs, fs) (\<lambda>cert_path fs.
          step_bind (get_canonical_path os dir (sf_tls_key_name (gn_ca_files gn)) fs, fs) (\<lambda>key_path fs.
          write_toml os (path_join dir (as_str (sf_toml_name (gn_ca_files gn))))
            (gc_ca_toml gc (default_ca_config cert_path key_path)) fs))))"

text \<open>Steps that may also panic.\<close>

definition run_bind ::
    "(('e + 'a) \<times> 's) outcome \<Rightarrow> ('a \<Rightarrow> 's \<Rightarrow> (('e + 'b) \<times> 's) outcome) \<Rightarrow> (('e + 'b) \<times> 's) outcome" where
  "run_bind r f =
     outcome_bind r (\<lambda>r. case r of (Inl e, s) \<Rightarrow> Returns (Inl e, s) | (Inr a, s) \<Rightarrow> f a s)"

definition generate_tomls ::
    "('kp, 'params, 'iss, 'rsk) gen_crates \<Rightarrow> gen_os \<Rightarrow> machine \<Rightarrow> Generator \<Rightarrow> gen_fs
     \<Rightarrow> ((TomlGenError + unit) \<times> gen_fs) outcome" where
  "generate_tomls gc os m gn fs =
     run_bind (generate_server_toml gc os m None gn fs) (\<lambda>_ fs.
     run_bind (generate_client_toml gc os gn fs) (\<lambda>_.
     generate_ca_toml gc os gn))"

definition generate_all ::
    "('kp, 'params, 'iss, 'rsk) gen_crates \<Rightarrow> gen_os \<Rightarrow> machine \<Rightarrow> Generator \<Rightarrow> gen_fs
     \<Rightarrow> ((GenerationError + unit) \<times> gen_fs) outcome" where
  "generate_all gc os m gn fs =
     run_bind (Returns (step_map_err KeyGen (generate_keys_and_distribute gc os gn fs))) (\<lambda>_ fs.
     outcome_bind (generate_tomls gc os m gn fs) (\<lambda>r. Returns (step_map_err TomlGen r)))"

section \<open>The command\<close>

record Cli =
  cli_root :: string
  cli_client_dir :: "string option"
  cli_server_dir :: "string option"
  cli_ca_dir :: "string option"
  cli_server_prefix :: string
  cli_ca_prefix :: string

datatype terraform_error =
    StdoutFails io_error
  | InvalidClientDirectory FileSystemNameError
  | InvalidServerDirectory FileSystemNameError
  | InvalidCaDirectory FileSystemNameError
  | CreatingDirectories EnvironmentGeneratorBuildError
  | InvalidServerPrefix FileSystemNameError
  | InvalidCaPrefix FileSystemNameError
  | InitializingGenerator GeneratorCreationError
  | DuringGeneration GenerationError

definition with_given_dir ::
    "(FileSystemNameError \<Rightarrow> terraform_error)
     \<Rightarrow> (FileSystemName \<Rightarrow> EnvironmentGeneratorBuilder \<Rightarrow> EnvironmentGeneratorBuilder)
     \<Rightarrow> string option \<Rightarrow> EnvironmentGeneratorBuilder \<Rightarrow> terraform_error + EnvironmentGeneratorBuilder" where
  "with_given_dir invalid with_dir given eb =
     (case given of
        None \<Rightarrow> Inr eb
      | Some c \<Rightarrow> result_bind (map_err invalid (FileSystemName_new c)) (\<lambda>valid_name. Inr (with_dir valid_name eb)))"

text \<open>The generator that the arguments describe: every step of \<^verbatim>\<open>main\<close> before the generation.\<close>

definition outcome_result_bind ::
    "('e + 'a) outcome \<Rightarrow> ('a \<Rightarrow> ('e + 'b) outcome) \<Rightarrow> ('e + 'b) outcome" where
  "outcome_result_bind r f = outcome_bind r (\<lambda>r. case r of Inl e \<Rightarrow> Returns (Inl e) | Inr a \<Rightarrow> f a)"

definition cli_generator :: "Cli \<Rightarrow> (terraform_error + Generator) outcome" where
  "cli_generator cli =
     outcome_result_bind (Returns
       (result_bind (with_given_dir InvalidClientDirectory with_client_dir (cli_client_dir cli)
                      (from_simulation_dir (cli_root cli))) (\<lambda>eb.
        result_bind (with_given_dir InvalidServerDirectory with_server_dir (cli_server_dir cli) eb) (\<lambda>eb.
        with_given_dir InvalidCaDirectory with_ca_dir (cli_ca_dir cli) eb)))) (\<lambda>env_builder.
     outcome_result_bind (outcome_bind (EnvironmentGeneratorBuilder_build env_builder)
       (\<lambda>r. Returns (map_err CreatingDirectories r))) (\<lambda>env.
     outcome_result_bind (outcome_bind (AnyServerFiles_default (cli_server_prefix cli))
       (\<lambda>r. Returns (map_err InvalidServerPrefix r))) (\<lambda>server_files.
     outcome_result_bind (outcome_bind (AnyServerFiles_default (cli_ca_prefix cli))
       (\<lambda>r. Returns (map_err InvalidCaPrefix r))) (\<lambda>ca_files.
     outcome_bind (expect (FileSystemName_new ''config.toml'')) (\<lambda>static_client_toml_name.
     let client_files = ClientFiles_new static_client_toml_name
     in Returns (map_err InitializingGenerator (new_from_files server_files ca_files client_files env)))))))"

text \<open>\<open>stdout i\<close> is the failure of the \<open>i\<close>-th line of output.\<close>

definition terraform_main ::
    "('kp, 'params, 'iss, 'rsk) gen_crates \<Rightarrow> gen_os \<Rightarrow> machine \<Rightarrow> (nat \<Rightarrow> io_error option) \<Rightarrow> Cli \<Rightarrow> gen_fs
     \<Rightarrow> ((terraform_error + unit) \<times> gen_fs) outcome" where
  "terraform_main gc os m stdout cli fs =
     (case stdout 0 of
        Some e \<Rightarrow> Returns (Inl (StdoutFails e), fs)
      | None \<Rightarrow>
          run_bind (outcome_bind (cli_generator cli) (\<lambda>r. Returns (r, fs))) (\<lambda>generator fs.
          case stdout 1 of
            Some e \<Rightarrow> Returns (Inl (StdoutFails e), fs)
          | None \<Rightarrow>
              run_bind (outcome_bind (generate_all gc os m generator fs)
                         (\<lambda>r. Returns (step_map_err DuringGeneration r))) (\<lambda>_ fs.
              case stdout 2 of
                Some e \<Rightarrow> Returns (Inl (StdoutFails e), fs)
              | None \<Rightarrow> Returns (Inr (), fs))))"

end
