(* ===== verification/Terraform_Properties.thy ===== *)
theory Terraform_Properties
  imports Terraform
begin

text \<open>
  Correctness of the environment generator: names, thread counts, and the file system that a
  generation leaves behind, up to the configuration files being read back by the server, the
  client and the authority.
\<close>

section \<open>Names\<close>

definition plain_name :: "string \<Rightarrow> bool" where
  "plain_name s \<longleftrightarrow> component_ok s \<and> s \<noteq> ''.'' \<and> s \<noteq> ''..''"

lemma split_slash_app:
  "split_slash (a @ b) =
     butlast (split_slash a) @ (last (split_slash a) @ hd (split_slash b)) # tl (split_slash b)"
proof (induction a)
  case (Cons ch a)
  then show ?case by (cases "split_slash a") auto
qed simp

lemma split_slash_plain: "component_ok s \<Longrightarrow> split_slash s = [s]"
  using split_slash_append[of s "[]"] by (simp add: component_ok_def)

lemma path_key_parts:
  "path_key p = (path_is_absolute p, filter (\<lambda>c. c \<noteq> [] \<and> c \<noteq> ''.'') (split_slash p))"
  by (auto simp: path_key_def path_components_def Let_def intro: filter_cong)

lemma split_slash_head: "s \<noteq> [] \<Longrightarrow> hd (split_slash s) = [] \<longleftrightarrow> path_is_absolute s"
  by (cases s) (auto simp: path_is_absolute_def)

lemma split_slash_single: "tl (split_slash s) = [] \<longleftrightarrow> CHR ''/'' \<notin> set s"
  by (induction s) auto

lemma component_ok_head: "hd (split_slash s) \<noteq> [] \<Longrightarrow> component_ok (hd (split_slash s))"
  using split_slash_no_slash[of "hd (split_slash s)" s] by (simp add: component_ok_def)

text \<open>Valid names: one proper component, followed by nothing but slashes and dots.\<close>

lemma FileSystemName_new_Inr_iff:
  "FileSystemName_new s = Inr n \<longleftrightarrow>
     n = FileSystemName s \<and> plain_name (hd (split_slash s)) \<and>
     list_all (\<lambda>c. c = [] \<or> c = ''.'') (tl (split_slash s))"
proof (cases "s = []")
  case True
  then show ?thesis
    by (simp add: FileSystemName_new_def components_def path_components_def path_is_absolute_def plain_name_def component_ok_def)
next
  case False
  obtain h t where ht: "split_slash s = h # t" by (cases "split_slash s") auto
  let ?F = "filter (\<lambda>c. c \<noteq> [] \<and> c \<noteq> ''.'') t"
  have e: "?F = [] \<longleftrightarrow> list_all (\<lambda>c. c = [] \<or> c = ''.'') t"
    by (auto simp: filter_empty_conv list_all_iff)
  have p: "path_components s = (if h = ''.'' then ''.'' # ?F else if h = [] then ?F else h # ?F)"
    by (simp add: path_components_def ht)
  have h: "h = [] \<longleftrightarrow> path_is_absolute s" using split_slash_head[OF False] ht by simp
  have c: "h \<noteq> [] \<Longrightarrow> component_ok h" using component_ok_head[of s] ht by simp
  show ?thesis
  proof (cases "plain_name h")
    case True
    then have "components s = Normal h # map (\<lambda>c. if c = ''.'' then CurDir else if c = ''..'' then ParentDir else Normal c) ?F"
      using h p by (simp add: components_def plain_name_def component_ok_def)
    with True e show ?thesis by (cases ?F) (auto simp: FileSystemName_new_def ht)
  next
    case False
    then have "h = [] \<or> h = ''.'' \<or> h = ''..''" using c by (auto simp: plain_name_def)
    then have "\<forall>c. components s \<noteq> [Normal c]" using h p by (auto simp: components_def)
    with False show ?thesis by (simp add: FileSystemName_new_def ht split: list.splits Component.splits)
  qed
qed

lemma FileSystemName_new_plain: "plain_name s \<Longrightarrow> FileSystemName_new s = Inr (FileSystemName s)"
  by (simp add: FileSystemName_new_Inr_iff plain_name_def split_slash_plain)

lemma plain_name_append: "plain_name a \<Longrightarrow> plain_name b \<Longrightarrow> plain_name (a @ b)"
  by (auto simp: plain_name_def component_ok_def append_eq_Cons_conv)

lemma filter_last: "xs \<noteq> [] \<Longrightarrow> filter P xs = filter P (butlast xs) @ filter P [last xs]"
  by (metis append_butlast_last_id filter_append)

lemma path_key_join_relative:
  assumes "\<not> path_is_absolute s"
  shows "path_key (path_join d s) = (fst (path_key d), snd (path_key d) @ snd (path_key s))"
proof -
  have a: "path_is_absolute (d @ s) = path_is_absolute d" if "d \<noteq> []" for s
    using that by (cases d) (simp_all add: path_is_absolute_def)
  have hd_tl: "hd (split_slash s) # tl (split_slash s) = split_slash s" by simp
  note f = filter_last[OF split_slash_not_Nil[of d]]
  show ?thesis
  proof (cases "d = [] \<or> last d = CHR ''/''")
    case True
    have l: "last (split_slash d) = []"
    proof (cases "d = []")
      case False
      then have "d = butlast d @ [CHR ''/'']" using True by (metis append_butlast_last_id)
      then show ?thesis using split_slash_app[of "butlast d" "[CHR ''/'']"] by simp
    qed simp
    have "path_is_absolute (d @ s) = path_is_absolute d"
      using a assms by (cases "d = []") (auto simp: path_is_absolute_def)
    then show ?thesis
      using True assms by (simp add: path_join_def path_key_parts split_slash_app f l hd_tl del: filter.simps(2))
  next
    case False
    then have "path_is_absolute (d @ CHR ''/'' # s) = path_is_absolute d" using a by simp
    then show ?thesis
      using False assms by (simp add: path_join_def path_key_parts split_slash_app f)
  qed
qed

lemma path_key_join:
  assumes "plain_name n"
  shows "path_key (path_join d n) = (fst (path_key d), snd (path_key d) @ [n])"
proof -
  have "\<not> path_is_absolute n" and "snd (path_key n) = [n]"
    using assms by (auto simp: plain_name_def component_ok_def path_is_absolute_def path_key_parts
        split_slash_plain split: list.splits)
  then show ?thesis by (simp add: path_key_join_relative)
qed

text \<open>Paths that are equal name the same file.\<close>

lemma path_eq_key: "path_eq p q \<Longrightarrow> path_key p = path_key q"
  by (simp add: path_eq_def path_key_def)

lemma path_eq_refl [simp]: "path_eq p p"
  by (simp add: path_eq_def)

lemma dirs_without_duplicates:
  assumes "plain_name a" and "plain_name b" and "plain_name c"
  shows "has_duplicates [] [path_join d a, path_join d b, path_join d c] \<longleftrightarrow> \<not> distinct [a, b, c]"
proof -
  have "path_eq (path_join d x) (path_join d y) \<longleftrightarrow> x = y" if "plain_name x" "plain_name y" for x y
    using path_eq_key[of "path_join d x" "path_join d y"] that by (auto simp: path_key_join)
  with assms show ?thesis by auto
qed

section \<open>File system\<close>

text \<open>
  \<open>fs_ok\<close>: directories and files are in directories, and no file is a directory.
  \<open>working_os\<close>: no operation fails for a reason of its own.
\<close>

definition fs_ok :: "gen_fs \<Rightarrow> bool" where
  "fs_ok fs \<longleftrightarrow>
     (\<forall>k. key_exists fs k \<longrightarrow> dir_exists fs (key_parent k)) \<and>
     (\<forall>k. dir_exists fs k \<longrightarrow> gf_files fs k = None)"

definition working_os :: "(string \<Rightarrow> string) \<Rightarrow> gen_os" where
  "working_os canon =
     \<lparr>os_create_dir = (\<lambda>_. None), os_write = (\<lambda>_. Written), os_canonicalize = (\<lambda>p. Inr (canon p))\<rparr>"

lemma create_dir_fs_ok: "fs_ok fs \<Longrightarrow> fs_ok (snd (create_dir os p fs))"
  by (auto simp: create_dir_def fs_ok_def dir_exists_def key_exists_def split: option.splits)

lemma fs_ok_new_file:
  assumes "fs_ok fs" and "\<not> dir_exists fs k" and "dir_exists fs (key_parent k)"
  shows "fs_ok (fs\<lparr>gf_files := (gf_files fs)(k \<mapsto> c)\<rparr>)"
proof -
  let ?fs = "fs\<lparr>gf_files := (gf_files fs)(k \<mapsto> c)\<rparr>"
  have d: "dir_exists ?fs = dir_exists fs" by (simp add: dir_exists_def fun_eq_iff)
  have "key_exists ?fs k' \<longleftrightarrow> key_exists fs k' \<or> k' = k" for k' by (auto simp: key_exists_def d)
  with assms d show ?thesis by (auto simp: fs_ok_def)
qed

lemma write_text_fs_ok: "fs_ok fs \<Longrightarrow> fs_ok (snd (write_text os p c fs))"
  by (auto simp: write_text_def fs_ok_new_file split: write_outcome.splits)

text \<open>
  Everything a generator may create and write, and what each of these steps keeps, the whole
  generation keeps, wherever it fails.
\<close>

definition generator_dirs :: "Generator \<Rightarrow> string list" where
  "generator_dirs gn =
     [eg_root_dir (gn_env gn), eg_ca_dir (gn_env gn), eg_server_dir (gn_env gn), eg_client_dir (gn_env gn)]"

definition generator_files :: "Generator \<Rightarrow> (string \<times> FileSystemName) list" where
  "generator_files gn =
     map (\<lambda>(d, n, c). (d, n)) (distribution gn \<lparr>km_ca_key = [], km_ca_cert = [], km_server_key = [],
       km_server_cert = [], km_rsa_priv = [], km_rsa_pub = []\<rparr>) @
     [(eg_server_dir (gn_env gn), sf_toml_name (gn_server_files gn)),
      (eg_client_dir (gn_env gn), cf_toml_file (gn_client_files gn)),
      (eg_ca_dir (gn_env gn), sf_toml_name (gn_ca_files gn))]"

lemma distribution_files: "map (\<lambda>(d, n, c). (d, n)) (distribution gn km) = take 8 (generator_files gn)"
  by (simp add: generator_files_def distribution_def Let_def)

locale fs_invariant =
  fixes os :: gen_os and gn :: Generator and inv :: "gen_fs \<Rightarrow> bool"
  assumes create: "p \<in> set (generator_dirs gn) \<Longrightarrow> inv fs \<Longrightarrow> inv (snd (create_dir os p fs))"
    and writes: "(d, n) \<in> set (generator_files gn) \<Longrightarrow> inv fs \<Longrightarrow>
      inv (snd (write_text os (path_join d (as_str n)) c fs))"
begin

definition outcome_inv :: "(('e + 'a) \<times> gen_fs) outcome \<Rightarrow> bool" where
  "outcome_inv r \<longleftrightarrow> (case r of Panic \<Rightarrow> True | Returns (_, fs) \<Rightarrow> inv fs)"

lemma outcome_inv_Returns: "outcome_inv (Returns r) \<longleftrightarrow> inv (snd r)"
  by (simp add: outcome_inv_def split: prod.splits)

lemma step_bind_inv:
  assumes "inv (snd r)" and "\<And>a fs. inv fs \<Longrightarrow> inv (snd (f a fs))"
  shows "inv (snd (step_bind r f))"
  using assms by (auto simp: step_bind_def split: prod.splits sum.splits)

lemma run_bind_inv:
  assumes "outcome_inv r" and "\<And>a fs. inv fs \<Longrightarrow> outcome_inv (f a fs)"
  shows "outcome_inv (run_bind r f)"
proof (cases r)
  case (Returns p)
  obtain x fs where "p = (x, fs)" by (cases p)
  with Returns assms show ?thesis
    by (cases x) (simp_all add: run_bind_def outcome_bind_def outcome_inv_Returns)
qed (simp add: run_bind_def outcome_bind_def outcome_inv_def)

lemma map_err_inv: "outcome_inv r \<Longrightarrow> outcome_inv (outcome_bind r (\<lambda>r. Returns (step_map_err g r)))"
  by (auto simp: outcome_bind_def outcome_inv_def step_map_err_def split: outcome.splits)

lemma create_dirs_inv: "inv fs \<Longrightarrow> set ds \<subseteq> set (generator_dirs gn) \<Longrightarrow> inv (snd (create_dirs os ds fs))"
  by (induction ds arbitrary: fs) (auto intro!: step_bind_inv simp: step_map_err_def create)

lemma write_files_inv:
  "inv fs \<Longrightarrow> set (map (\<lambda>(d, n, c). (d, n)) ws) \<subseteq> set (generator_files gn) \<Longrightarrow> inv (snd (write_files os ws fs))"
  by (induction ws arbitrary: fs) (auto intro!: step_bind_inv simp: step_map_err_def writes Let_def)

lemma write_toml_inv:
  "(d, n) \<in> set (generator_files gn) \<Longrightarrow> inv fs \<Longrightarrow> inv (snd (write_toml os (path_join d (as_str n)) t fs))"
  by (auto simp: write_toml_def intro!: step_bind_inv) (simp add: step_map_err_def writes)

lemma generate_keys_inv: "inv fs \<Longrightarrow> inv (snd (generate_keys_and_distribute gc os gn fs))"
  unfolding generate_keys_and_distribute_def
  by (intro step_bind_inv create_dirs_inv write_files_inv)
    (auto simp: distribution_files generator_dirs_def dest: in_set_takeD)

lemma generate_tomls_inv: "inv fs \<Longrightarrow> outcome_inv (generate_tomls gc os m gn fs)"
  unfolding generate_tomls_def
  by (intro run_bind_inv)
    (auto simp: generate_server_toml_def generate_client_toml_def generate_ca_toml_def Let_def
      outcome_bind_def outcome_inv_Returns DEFAULT_SERVER_IP_PORT_def generator_files_def
      intro!: step_bind_inv write_toml_inv split: outcome.splits, simp add: outcome_inv_def)

lemma generate_all_inv: "inv fs \<Longrightarrow> outcome_inv (generate_all gc os m gn fs)"
  unfolding generate_all_def
  by (intro run_bind_inv map_err_inv generate_tomls_inv)
    (auto simp: outcome_inv_Returns step_map_err_def generate_keys_inv)

end

interpretation consistent: fs_invariant os gn fs_ok for os gn
  by unfold_locales (rule create_dir_fs_ok write_text_fs_ok; assumption)+

text \<open>Outside the paths of the generator nothing changes.\<close>

definition unchanged_outside :: "Generator \<Rightarrow> gen_fs \<Rightarrow> gen_fs \<Rightarrow> bool" where
  "unchanged_outside gn fs fs' \<longleftrightarrow>
     (\<forall>k. k \<notin> path_key ` set (generator_dirs gn) \<longrightarrow> (k \<in> gf_dirs fs' \<longleftrightarrow> k \<in> gf_dirs fs)) \<and>
     (\<forall>k. k \<notin> (\<lambda>(d, n). path_key (path_join d (as_str n))) ` set (generator_files gn) \<longrightarrow>
          gf_files fs' k = gf_files fs k)"

lemma unchanged_outside_upd:
  assumes "unchanged_outside gn fs fs'"
    and "k \<in> (\<lambda>(d, n). path_key (path_join d (as_str n))) ` set (generator_files gn)"
  shows "unchanged_outside gn fs (fs'\<lparr>gf_files := (gf_files fs')(k \<mapsto> t)\<rparr>)"
  unfolding unchanged_outside_def
proof (intro conjI allI impI)
  fix j assume j: "j \<notin> (\<lambda>(d, n). path_key (path_join d (as_str n))) ` set (generator_files gn)"
  with assms(2) have "j \<noteq> k" by blast
  moreover have "gf_files fs' j = gf_files fs j" using assms(1) j unfolding unchanged_outside_def by blast
  ultimately show "gf_files (fs'\<lparr>gf_files := (gf_files fs')(k \<mapsto> t)\<rparr>) j = gf_files fs j" by simp
qed (use assms(1) in \<open>simp add: unchanged_outside_def split_paired_All[symmetric] del: split_paired_All\<close>)

interpretation confined: fs_invariant os gn "unchanged_outside gn fs" for os gn fs
proof unfold_locales
  fix p fs' assume "p \<in> set (generator_dirs gn)" and "unchanged_outside gn fs fs'"
  then show "unchanged_outside gn fs (snd (create_dir os p fs'))"
    by (auto simp: create_dir_def unchanged_outside_def split: option.splits)
next
  fix d n fs' c assume f: "(d, n) \<in> set (generator_files gn)" and u: "unchanged_outside gn fs fs'"
  let ?p = "path_join d (as_str n)"
  have "snd (write_text os ?p c fs') = fs' \<or> (\<exists>t. snd (write_text os ?p c fs') = fs'\<lparr>gf_files := (gf_files fs')(path_key ?p \<mapsto> t)\<rparr>)"
    by (auto simp: write_text_def split: write_outcome.splits)
  moreover have "path_key ?p \<in> (\<lambda>(d, n). path_key (path_join d (as_str n))) ` set (generator_files gn)"
    using f by force
  ultimately show "unchanged_outside gn fs (snd (write_text os ?p c fs'))"
    using u unchanged_outside_upd[OF u] by (elim disjE exE) simp_all
qed

lemma create_dir_working:
  assumes "\<not> key_exists fs (path_key p)" and "dir_exists fs (key_parent (path_key p))"
  shows "create_dir (working_os canon) p fs = (Inr (), fs\<lparr>gf_dirs := insert (path_key p) (gf_dirs fs)\<rparr>)"
proof -
  have "p \<noteq> []" using assms(1) by (auto simp: key_exists_def dir_exists_def path_key_parts)
  with assms show ?thesis by (simp add: create_dir_def working_os_def)
qed

lemma last_join: "plain_name n \<Longrightarrow> path_join d n \<noteq> [] \<and> last (path_join d n) \<noteq> CHR ''/''"
  by (cases n rule: rev_cases) (auto simp: path_join_def plain_name_def component_ok_def)

lemma write_text_working:
  assumes "plain_name n" and "dir_exists fs (path_key d)" and "\<not> dir_exists fs (path_key (path_join d n))"
  shows "write_text (working_os canon) (path_join d n) c fs =
    (Inr (), fs\<lparr>gf_files := (gf_files fs)(path_key (path_join d n) \<mapsto> c)\<rparr>)"
  using assms last_join[OF assms(1), of d]
  by (simp add: write_text_def working_os_def path_key_join key_parent_def)

lemma write_files_working:
  assumes "list_all (\<lambda>(d, n, c). plain_name (as_str n) \<and> dir_exists fs (path_key d) \<and>
    \<not> dir_exists fs (path_key (path_join d (as_str n)))) ws"
  shows "write_files (working_os canon) ws fs =
    (Inr (), fs\<lparr>gf_files := gf_files fs ++ map_of (rev (map (\<lambda>(d, n, c). (path_key (path_join d (as_str n)), c)) ws))\<rparr>)"
  using assms
proof (induction ws arbitrary: fs)
  case (Cons w ws)
  obtain d n c where w: "w = (d, n, c)" by (cases w)
  let ?fs = "fs\<lparr>gf_files := (gf_files fs)(path_key (path_join d (as_str n)) \<mapsto> c)\<rparr>"
  have "dir_exists ?fs = dir_exists fs" by (simp add: dir_exists_def fun_eq_iff)
  then have "write_files (working_os canon) ws ?fs =
    (Inr (), ?fs\<lparr>gf_files := gf_files ?fs ++ map_of (rev (map (\<lambda>(d, n, c). (path_key (path_join d (as_str n)), c)) ws))\<rparr>)"
    using Cons.prems by (intro Cons.IH) simp
  then show ?case
    using Cons.prems by (simp add: w step_bind_def step_map_err_def write_text_working map_add_def fun_eq_iff split: option.splits)
qed simp

section \<open>Threads\<close>

lemma clamp_Returns: "lo \<le> hi \<Longrightarrow> clamp lo hi n = Returns (max lo (min hi n))"
  by (auto simp: clamp_def)

definition heuristic_threads :: "machine \<Rightarrow> (nat \<times> nat) option \<Rightarrow> nat" where
  "heuristic_threads m thread_limits =
     (let (a, b) = (case thread_limits of Some l \<Rightarrow> l | None \<Rightarrow> (MIN_THREADS, MAX_THREADS));
          base = (case mc_available_parallelism m of Some n \<Rightarrow> n div 4 | None \<Rightarrow> MIN_THREADS)
      in max (min a b) (min (max a b) base))"

lemma heuristic_working_threads_Returns:
  "heuristic_working_threads m limits =
     Returns (is_crypto_hardware_accelerated (mc_arch m), heuristic_threads m limits)"
  by (auto simp: heuristic_working_threads_def heuristic_threads_def clamp_Returns outcome_bind_def
      MIN_THREADS_def MAX_THREADS_def Let_def min_def max_def split: option.splits)

section \<open>Generation from scratch\<close>

definition name_of :: "string option \<Rightarrow> string \<Rightarrow> string" where
  "name_of given default_name = (case given of Some n \<Rightarrow> n | None \<Rightarrow> default_name)"

definition client_name :: "Cli \<Rightarrow> string" where
  "client_name cli = name_of (cli_client_dir cli) DEFAULT_CLIENT_ENV_SUBDIR"

definition server_name :: "Cli \<Rightarrow> string" where
  "server_name cli = name_of (cli_server_dir cli) DEFAULT_SERVER_ENV_SUBDIR"

definition ca_name :: "Cli \<Rightarrow> string" where
  "ca_name cli = name_of (cli_ca_dir cli) DEFAULT_CA_ENV_SUBDIR"

definition cli_ok :: "Cli \<Rightarrow> bool" where
  "cli_ok cli \<longleftrightarrow>
     list_all plain_name [client_name cli, server_name cli, ca_name cli, cli_server_prefix cli, cli_ca_prefix cli] \<and>
     distinct [client_name cli, server_name cli, ca_name cli] \<and> cli_server_prefix cli \<noteq> cli_ca_prefix cli"

definition prefixed_files :: "string \<Rightarrow> AnyServerFiles" where
  "prefixed_files prefix =
     \<lparr>sf_tls_cert_name = FileSystemName (prefix @ ''tls_certificate.pem''),
      sf_tls_key_name = FileSystemName (prefix @ ''tls_private_key.pem''),
      sf_sign_pub_key_name = FileSystemName (prefix @ ''rsa_pub_key.pem''),
      sf_sign_priv_key_name = FileSystemName (prefix @ ''rsa_priv_key.pem''),
      sf_toml_name = FileSystemName (prefix @ ''config.toml''),
      sf_given_prefix = FileSystemName prefix\<rparr>"

definition described_generator :: "Cli \<Rightarrow> Generator" where
  "described_generator cli =
     \<lparr>gn_server_files = prefixed_files (cli_server_prefix cli), gn_ca_files = prefixed_files (cli_ca_prefix cli),
      gn_client_files = \<lparr>cf_toml_file = FileSystemName ''config.toml''\<rparr>,
      gn_env = \<lparr>eg_client_dir = path_join (cli_root cli) (client_name cli),
                eg_server_dir = path_join (cli_root cli) (server_name cli),
                eg_ca_dir = path_join (cli_root cli) (ca_name cli), eg_root_dir = cli_root cli\<rparr>\<rparr>"

lemma plain_defaults [simp]:
  "plain_name ''client_env''" "plain_name ''server_env''" "plain_name ''ca_env''"
  "plain_name ''tls_certificate.pem''" "plain_name ''tls_private_key.pem''" "plain_name ''rsa_pub_key.pem''"
  "plain_name ''rsa_priv_key.pem''" "plain_name ''config.toml''"
  by (simp_all add: plain_name_def component_ok_def)

lemma AnyServerFiles_default_plain:
  "plain_name prefix \<Longrightarrow> AnyServerFiles_default prefix = Returns (Inr (prefixed_files prefix))"
  by (simp add: AnyServerFiles_default_def FileSystemName_new_plain suffixed_def expect_def outcome_bind_def
      FileSystemName_concat_def prefixed_files_def)

lemma cli_generator_ok:
  assumes "cli_ok cli"
  shows "cli_generator cli = Returns (Inr (described_generator cli))"
proof -
  have n: "plain_name (client_name cli)" "plain_name (server_name cli)" "plain_name (ca_name cli)"
    "plain_name (cli_server_prefix cli)" "plain_name (cli_ca_prefix cli)"
    "distinct [client_name cli, server_name cli, ca_name cli]" "cli_server_prefix cli \<noteq> cli_ca_prefix cli"
    using assms by (auto simp: cli_ok_def)
  let ?eb = "\<lparr>eb_client_dir = map_option FileSystemName (cli_client_dir cli),
    eb_server_dir = map_option FileSystemName (cli_server_dir cli),
    eb_ca_dir = map_option FileSystemName (cli_ca_dir cli), eb_root_dir = cli_root cli\<rparr>"
  have b: "result_bind (with_given_dir InvalidClientDirectory with_client_dir (cli_client_dir cli)
             (from_simulation_dir (cli_root cli))) (\<lambda>eb.
      result_bind (with_given_dir InvalidServerDirectory with_server_dir (cli_server_dir cli) eb)
        (with_given_dir InvalidCaDirectory with_ca_dir (cli_ca_dir cli))) = Inr ?eb"
    using n by (auto simp: with_given_dir_def client_name_def server_name_def ca_name_def name_of_def
        FileSystemName_new_plain from_simulation_dir_def with_client_dir_def with_server_dir_def with_ca_dir_def
        split: option.splits)
  have "name_or_default (map_option FileSystemName given) d = Returns (FileSystemName (name_of given d))"
    if "plain_name d" for given d
    using that by (cases given) (simp_all add: name_or_default_def name_of_def FileSystemName_new_plain expect_def)
  then have "EnvironmentGeneratorBuilder_build ?eb = Returns (Inr (gn_env (described_generator cli)))"
    using n dirs_without_duplicates[OF n(1-3), of "cli_root cli"]
    by (simp add: EnvironmentGeneratorBuilder_build_def outcome_bind_def client_name_def server_name_def ca_name_def
        DEFAULT_CLIENT_ENV_SUBDIR_def DEFAULT_SERVER_ENV_SUBDIR_def DEFAULT_CA_ENV_SUBDIR_def described_generator_def Let_def)
  then show ?thesis
    using n by (simp add: cli_generator_def b outcome_result_bind_def outcome_bind_def AnyServerFiles_default_plain
        FileSystemName_new_plain expect_def new_from_files_def prefixed_files_def ClientFiles_new_def described_generator_def)
qed

text \<open>
  \<open>working_crates\<close>: key generation yields \<open>km\<close> and the printers print. \<open>environment_files\<close>: what
  is expected to be where, each private key in the directory of its owner only.
\<close>

definition working_crates ::
    "('kp, 'params, 'iss, 'rsk) gen_crates \<Rightarrow> key_material \<Rightarrow> (Config \<Rightarrow> string) \<Rightarrow> (ClientConfig \<Rightarrow> string)
     \<Rightarrow> (CaConfig \<Rightarrow> string) \<Rightarrow> bool" where
  "working_crates gc km show_server show_client show_ca \<longleftrightarrow>
     generate_keys gc = Inr km \<and> gc_server_toml gc = (\<lambda>c. Inr (show_server c)) \<and>
     gc_client_toml gc = (\<lambda>c. Inr (show_client c)) \<and> gc_ca_toml gc = (\<lambda>c. Inr (show_ca c))"

definition subkey :: "path_key \<Rightarrow> string \<Rightarrow> path_key" where
  "subkey k n = (fst k, snd k @ [n])"

definition environment_dirs :: "Cli \<Rightarrow> path_key set" where
  "environment_dirs cli =
     (let root = path_key (cli_root cli)
      in {root, subkey root (ca_name cli), subkey root (server_name cli), subkey root (client_name cli)})"

definition environment_keys :: "Cli \<Rightarrow> key_material \<Rightarrow> (path_key \<times> string) list" where
  "environment_keys cli km =
     (let root = path_key (cli_root cli);
          server = subkey (subkey root (server_name cli)); client = subkey (subkey root (client_name cli));
          ca = subkey (subkey root (ca_name cli)); sp = cli_server_prefix cli; ap = cli_ca_prefix cli
      in [(ca (ap @ ''tls_private_key.pem''), km_ca_key km),
          (ca (ap @ ''tls_certificate.pem''), km_ca_cert km),
          (server (sp @ ''tls_private_key.pem''), km_server_key km),
          (server (sp @ ''tls_certificate.pem''), km_server_cert km),
          (server (sp @ ''rsa_priv_key.pem''), km_rsa_priv km),
          (server (ap @ ''tls_certificate.pem''), km_ca_cert km),
          (client (ap @ ''tls_certificate.pem''), km_ca_cert km),
          (client (sp @ ''rsa_pub_key.pem''), km_rsa_pub km)])"

definition env_path :: "Cli \<Rightarrow> string \<Rightarrow> string \<Rightarrow> string" where
  "env_path cli d n = path_join (path_join (cli_root cli) d) n"

definition server_config_of :: "(string \<Rightarrow> string) \<Rightarrow> machine \<Rightarrow> Cli \<Rightarrow> Config" where
  "server_config_of canon m cli =
     (let path = (\<lambda>n. canon (env_path cli (server_name cli) n))
      in default_server_config (is_crypto_hardware_accelerated (mc_arch m)) (heuristic_threads m None)
           (path (cli_server_prefix cli @ ''tls_certificate.pem'')) (path (cli_server_prefix cli @ ''tls_private_key.pem''))
           (path (cli_server_prefix cli @ ''rsa_priv_key.pem'')) (path (cli_ca_prefix cli @ ''tls_certificate.pem'')))"

definition client_config_of :: "(string \<Rightarrow> string) \<Rightarrow> Cli \<Rightarrow> ClientConfig" where
  "client_config_of canon cli =
     default_client_config (canon (env_path cli (client_name cli) (cli_ca_prefix cli @ ''tls_certificate.pem'')))
       (canon (env_path cli (client_name cli) (cli_server_prefix cli @ ''rsa_pub_key.pem'')))"

definition ca_config_of :: "(string \<Rightarrow> string) \<Rightarrow> Cli \<Rightarrow> CaConfig" where
  "ca_config_of canon cli =
     default_ca_config (canon (env_path cli (ca_name cli) (cli_ca_prefix cli @ ''tls_certificate.pem'')))
       (canon (env_path cli (ca_name cli) (cli_ca_prefix cli @ ''tls_private_key.pem'')))"

definition environment_files ::
    "Cli \<Rightarrow> key_material \<Rightarrow> string \<Rightarrow> string \<Rightarrow> string \<Rightarrow> (path_key \<times> string) list" where
  "environment_files cli km server_toml client_toml ca_toml =
     (let root = path_key (cli_root cli)
      in environment_keys cli km @
         [(subkey (subkey root (server_name cli)) (cli_server_prefix cli @ ''config.toml''), server_toml),
          (subkey (subkey root (client_name cli)) ''config.toml'', client_toml),
          (subkey (subkey root (ca_name cli)) (cli_ca_prefix cli @ ''config.toml''), ca_toml)])"

text \<open>Keys of directories and files.\<close>

lemma subkey_eq_iff [simp]: "subkey k n = subkey k' n' \<longleftrightarrow> k = k' \<and> n = n'"
  by (auto simp: subkey_def prod_eq_iff)

lemma subkey_neq [simp]: "subkey k n \<noteq> k" "k \<noteq> subkey k n" "subkey (subkey k n) n' \<noteq> k"
  "k \<noteq> subkey (subkey k n) n'"
  by (auto simp: subkey_def prod_eq_iff)

lemma key_parent_subkey [simp]: "key_parent (subkey k n) = k"
  by (simp add: key_parent_def subkey_def)

lemma path_key_subkey: "plain_name n \<Longrightarrow> path_key (path_join d n) = subkey (path_key d) n"
  by (simp add: path_key_join subkey_def)

lemma dir_exists_more_dirs:
  "dir_exists (fs\<lparr>gf_dirs := D\<rparr>) k \<longleftrightarrow> snd k = [] \<or> k \<in> D"
  by (simp add: dir_exists_def)

lemma dir_exists_more_files [simp]: "dir_exists (fs\<lparr>gf_files := F\<rparr>) = dir_exists fs"
  by (simp add: dir_exists_def fun_eq_iff)

lemma missing_below:
  assumes "fs_ok fs" and "\<not> key_exists fs k"
  shows "\<not> key_exists fs (subkey k n)"
  using assms by (metis fs_ok_def key_exists_def key_parent_subkey)

text \<open>Names in one directory: a prefix is only ever followed by distinct endings.\<close>

lemma append_rev_iff: "a @ x = b @ y \<longleftrightarrow> rev x @ rev a = rev y @ rev b"
  by (metis rev_append rev_rev_ident)

lemma environment_files_distinct:
  assumes "cli_ok cli"
  shows "distinct (map fst (environment_files cli km s c a))"
proof -
  have "p @ ''tls_certificate.pem'' \<noteq> q @ ''tls_private_key.pem''" "p @ ''tls_certificate.pem'' \<noteq> q @ ''rsa_priv_key.pem''"
    "p @ ''tls_certificate.pem'' \<noteq> q @ ''rsa_pub_key.pem''" "p @ ''tls_certificate.pem'' \<noteq> q @ ''config.toml''"
    "p @ ''tls_certificate.pem'' \<noteq> ''config.toml''" "p @ ''rsa_pub_key.pem'' \<noteq> ''config.toml''" for p q :: string
    by (simp_all only: append_rev_iff[of p _ q] append_rev_iff[of p _ "[]", simplified]) simp_all
  note n = this this[symmetric]
  show ?thesis
    using assms n by (simp add: environment_files_def environment_keys_def Let_def cli_ok_def) metis
qed

lemma create_dirs_from_scratch:
  assumes "cli_ok cli" and "fs_ok fs" and "\<not> key_exists fs (path_key (cli_root cli))"
    and "dir_exists fs (key_parent (path_key (cli_root cli)))"
  shows "create_dirs (working_os canon) [cli_root cli, path_join (cli_root cli) (ca_name cli),
      path_join (cli_root cli) (server_name cli), path_join (cli_root cli) (client_name cli)] fs =
    (Inr (), fs\<lparr>gf_dirs := gf_dirs fs \<union> environment_dirs cli\<rparr>)"
proof -
  let ?k = "path_key (cli_root cli)"
  have n: "plain_name (client_name cli)" "plain_name (server_name cli)" "plain_name (ca_name cli)"
    "client_name cli \<noteq> server_name cli" "client_name cli \<noteq> ca_name cli" "server_name cli \<noteq> ca_name cli"
    using assms(1) by (auto simp: cli_ok_def)
  have free: "\<not> key_exists (fs\<lparr>gf_dirs := D \<union> gf_dirs fs\<rparr>) (subkey ?k x)" if "subkey ?k x \<notin> D" for x D
    using missing_below[OF assms(2,3), of x] that by (auto simp: key_exists_def dir_exists_def)
  have made: "create_dir (working_os canon) (path_join (cli_root cli) x) (fs\<lparr>gf_dirs := D \<union> gf_dirs fs\<rparr>) =
      (Inr (), fs\<lparr>gf_dirs := insert (subkey ?k x) D \<union> gf_dirs fs\<rparr>)"
    if "subkey ?k x \<notin> D" "?k \<in> D" "plain_name x" for x D
    using that free[OF that(1)] create_dir_working[of "fs\<lparr>gf_dirs := D \<union> gf_dirs fs\<rparr>" "path_join (cli_root cli) x"]
    by (simp add: path_key_subkey dir_exists_more_dirs)
  have "create_dir (working_os canon) (cli_root cli) fs = (Inr (), fs\<lparr>gf_dirs := {?k} \<union> gf_dirs fs\<rparr>)"
    using create_dir_working[OF assms(3,4)] by simp
  with n show ?thesis
    by (simp add: step_bind_def step_map_err_def made del: Un_insert_left)
      (simp add: environment_dirs_def Let_def insert_commute Un_commute)
qed

text \<open>The keys of files in the environment are no directories.\<close>

lemma no_dir_below:
  assumes "fs_ok fs" and "\<not> key_exists fs (path_key (cli_root cli))"
  shows "\<not> dir_exists (fs\<lparr>gf_dirs := gf_dirs fs \<union> environment_dirs cli\<rparr>) (subkey (subkey (path_key (cli_root cli)) d) n)"
proof -
  have "\<not> dir_exists fs (subkey (subkey (path_key (cli_root cli)) d) n)"
    using missing_below[OF assms(1) missing_below[OF assms], of d n] by (simp add: key_exists_def)
  then show ?thesis by (auto simp: dir_exists_def environment_dirs_def Let_def)
qed

lemma env_dir_exists:
  assumes "d \<in> {ca_name cli, server_name cli, client_name cli}"
  shows "dir_exists (fs\<lparr>gf_dirs := gf_dirs fs \<union> environment_dirs cli\<rparr>) (subkey (path_key (cli_root cli)) d)"
  using assms by (auto simp: dir_exists_def environment_dirs_def Let_def)

lemma distribution_keys:
  assumes "cli_ok cli"
  shows "map (\<lambda>(d, n, c). (path_key (path_join d (as_str n)), c)) (distribution (described_generator cli) km) =
    environment_keys cli km"
  using assms
  by (simp add: distribution_def described_generator_def prefixed_files_def environment_keys_def Let_def cli_ok_def
      path_key_subkey plain_name_append)

lemma generate_keys_from_scratch:
  assumes "cli_ok cli" and "fs_ok fs" and "\<not> key_exists fs (path_key (cli_root cli))"
    and "dir_exists fs (key_parent (path_key (cli_root cli)))" and "generate_keys gc = Inr km"
  shows "generate_keys_and_distribute gc (working_os canon) (described_generator cli) fs =
    (Inr (), fs\<lparr>gf_dirs := gf_dirs fs \<union> environment_dirs cli,
       gf_files := gf_files fs ++ map_of (rev (environment_keys cli km))\<rparr>)"
proof -
  let ?fs = "fs\<lparr>gf_dirs := gf_dirs fs \<union> environment_dirs cli\<rparr>"
  have n: "plain_name (client_name cli)" "plain_name (server_name cli)" "plain_name (ca_name cli)"
    "plain_name (cli_server_prefix cli)" "plain_name (cli_ca_prefix cli)"
    using assms(1) by (auto simp: cli_ok_def)
  have "list_all (\<lambda>(d, n, c). plain_name (as_str n) \<and> dir_exists ?fs (path_key d) \<and>
      \<not> dir_exists ?fs (path_key (path_join d (as_str n)))) (distribution (described_generator cli) km)"
    using n no_dir_below[OF assms(2,3)] env_dir_exists[of _ cli fs]
    by (simp add: distribution_def described_generator_def prefixed_files_def Let_def path_key_subkey plain_name_append)
  from write_files_working[OF this, of canon] show ?thesis
    using create_dirs_from_scratch[OF assms(1-4), of canon] distribution_keys[OF assms(1), of km]
    by (simp add: generate_keys_and_distribute_def step_bind_def assms(5) described_generator_def
        del: create_dirs.simps)
qed

lemma get_canonical_path_working:
  "gf_files fs (path_key (path_join d (as_str n))) \<noteq> None \<Longrightarrow>
   get_canonical_path (working_os canon) d n fs = Inr (canon (path_join d (as_str n)))"
  by (simp add: get_canonical_path_def canonicalize_def key_exists_def working_os_def)

lemma write_toml_working:
  assumes "plain_name n" and "dir_exists fs (path_key d)" and "\<not> dir_exists fs (path_key (path_join d n))"
  shows "write_toml (working_os canon) (path_join d n) (Inr t) fs =
    (Inr (), fs\<lparr>gf_files := (gf_files fs)(path_key (path_join d n) \<mapsto> t)\<rparr>)"
  by (simp add: write_toml_def step_bind_def step_map_err_def write_text_working[OF assms])

text \<open>The configuration files, once every key file is in place.\<close>

definition keys_in_place :: "Cli \<Rightarrow> key_material \<Rightarrow> gen_fs \<Rightarrow> bool" where
  "keys_in_place cli km fs \<longleftrightarrow> fst ` set (environment_keys cli km) \<subseteq> dom (gf_files fs)"

lemma keys_in_place_upd: "keys_in_place cli km fs \<Longrightarrow> keys_in_place cli km (fs\<lparr>gf_files := (gf_files fs)(k \<mapsto> c)\<rparr>)"
  by (auto simp: keys_in_place_def)

lemma key_in_place:
  assumes "keys_in_place cli km fs" and "cli_ok cli"
  shows "\<And>n. n \<in> {cli_server_prefix cli @ ''tls_private_key.pem'', cli_server_prefix cli @ ''tls_certificate.pem'',
      cli_server_prefix cli @ ''rsa_priv_key.pem'', cli_ca_prefix cli @ ''tls_certificate.pem''} \<Longrightarrow>
      gf_files fs (path_key (path_join (path_join (cli_root cli) (server_name cli)) n)) \<noteq> None"
    and "\<And>n. n \<in> {cli_ca_prefix cli @ ''tls_certificate.pem'', cli_server_prefix cli @ ''rsa_pub_key.pem''} \<Longrightarrow>
      gf_files fs (path_key (path_join (path_join (cli_root cli) (client_name cli)) n)) \<noteq> None"
    and "\<And>n. n \<in> {cli_ca_prefix cli @ ''tls_private_key.pem'', cli_ca_prefix cli @ ''tls_certificate.pem''} \<Longrightarrow>
      gf_files fs (path_key (path_join (path_join (cli_root cli) (ca_name cli)) n)) \<noteq> None"
  using assms
  by (auto simp: keys_in_place_def environment_keys_def Let_def cli_ok_def path_key_subkey plain_name_append)

definition environment_ready :: "Cli \<Rightarrow> key_material \<Rightarrow> gen_fs \<Rightarrow> bool" where
  "environment_ready cli km fs \<longleftrightarrow> cli_ok cli \<and> keys_in_place cli km fs \<and>
     (\<forall>d\<in>{ca_name cli, server_name cli, client_name cli}.
        dir_exists fs (subkey (path_key (cli_root cli)) d) \<and>
        (\<forall>n. \<not> dir_exists fs (subkey (subkey (path_key (cli_root cli)) d) n)))"

lemma environment_ready_upd:
  "environment_ready cli km fs \<Longrightarrow> environment_ready cli km (fs\<lparr>gf_files := (gf_files fs)(k \<mapsto> c)\<rparr>)"
  by (simp add: environment_ready_def keys_in_place_upd)

lemma tomls_when_ready:
  assumes "environment_ready cli km fs" and "working_crates gc km ss sc sa"
  defines "root \<equiv> path_key (cli_root cli)"
  shows "generate_server_toml gc (working_os canon) m None (described_generator cli) fs = Returns (Inr (),
      fs\<lparr>gf_files := (gf_files fs)(subkey (subkey root (server_name cli)) (cli_server_prefix cli @ ''config.toml'') \<mapsto>
           ss (server_config_of canon m cli))\<rparr>)" (is ?S)
    and "generate_client_toml gc (working_os canon) (described_generator cli) fs = Returns (Inr (),
      fs\<lparr>gf_files := (gf_files fs)(subkey (subkey root (client_name cli)) ''config.toml'' \<mapsto>
           sc (client_config_of canon cli))\<rparr>)" (is ?C)
    and "generate_ca_toml gc (working_os canon) (described_generator cli) fs = Returns (Inr (),
      fs\<lparr>gf_files := (gf_files fs)(subkey (subkey root (ca_name cli)) (cli_ca_prefix cli @ ''config.toml'') \<mapsto>
           sa (ca_config_of canon cli))\<rparr>)" (is ?A)
proof -
  have k: "keys_in_place cli km fs" and c: "cli_ok cli" using assms(1) by (auto simp: environment_ready_def)
  have n: "plain_name (client_name cli)" "plain_name (server_name cli)" "plain_name (ca_name cli)"
    "plain_name (cli_server_prefix cli @ ''config.toml'')" "plain_name (cli_ca_prefix cli @ ''config.toml'')"
    using c by (auto simp: cli_ok_def intro!: plain_name_append)
  have w: "write_toml (working_os canon) (path_join (path_join (cli_root cli) d) x) (Inr t) fs =
      (Inr (), fs\<lparr>gf_files := (gf_files fs)(subkey (subkey root d) x \<mapsto> t)\<rparr>)"
    if "d \<in> {ca_name cli, server_name cli, client_name cli}" "plain_name x" for d x t
    using that assms(1) n write_toml_working[of x fs "path_join (cli_root cli) d" canon t]
    by (auto simp: environment_ready_def path_key_subkey root_def)
  note g = get_canonical_path_working[of fs _ "FileSystemName _", unfolded FileSystemName.sel, OF key_in_place(1)[OF k c]]
    get_canonical_path_working[of fs _ "FileSystemName _", unfolded FileSystemName.sel, OF key_in_place(2)[OF k c]]
    get_canonical_path_working[of fs _ "FileSystemName _", unfolded FileSystemName.sel, OF key_in_place(3)[OF k c]]
  note defs = described_generator_def prefixed_files_def Let_def step_bind_def env_path_def
  show ?S using assms(2) n
    by (simp add: generate_server_toml_def heuristic_working_threads_Returns outcome_bind_def defs g w
        working_crates_def server_config_of_def)
  show ?C using assms(2)
    by (simp add: generate_client_toml_def DEFAULT_SERVER_IP_PORT_def defs g w working_crates_def client_config_of_def)
  show ?A using assms(2) n
    by (simp add: generate_ca_toml_def defs g w working_crates_def ca_config_of_def)
qed

lemma map_of_rev_distinct: "distinct (map fst xs) \<Longrightarrow> map_of (rev xs) = map_of xs"
  by (rule map_of_eqI) (auto simp: rev_map[symmetric] map_of_eq_Some_iff)

lemma generate_all_from_scratch:
  assumes "cli_ok cli" and "fs_ok fs" and "\<not> key_exists fs (path_key (cli_root cli))"
    and "dir_exists fs (key_parent (path_key (cli_root cli)))" and "working_crates gc km ss sc sa"
  shows "generate_all gc (working_os canon) m (described_generator cli) fs = Returns (Inr (),
    fs\<lparr>gf_dirs := gf_dirs fs \<union> environment_dirs cli,
       gf_files := gf_files fs ++ map_of (environment_files cli km (ss (server_config_of canon m cli))
         (sc (client_config_of canon cli)) (sa (ca_config_of canon cli)))\<rparr>)"
proof -
  let ?fs = "fs\<lparr>gf_dirs := gf_dirs fs \<union> environment_dirs cli,
       gf_files := gf_files fs ++ map_of (rev (environment_keys cli km))\<rparr>"
  have keys: "generate_keys gc = Inr km" using assms(5) by (simp add: working_crates_def)
  have "keys_in_place cli km ?fs"
    by (auto simp: keys_in_place_def dom_map_of_conv_image_fst)
  then have r: "environment_ready cli km ?fs"
    using assms(1) env_dir_exists[of _ cli fs] no_dir_below[OF assms(2,3)] by (simp add: environment_ready_def)
  note t = tomls_when_ready[OF r assms(5), of canon]
    tomls_when_ready[OF environment_ready_upd[OF r] assms(5), of canon, simplified]
    tomls_when_ready[OF environment_ready_upd[OF environment_ready_upd[OF r]] assms(5), of canon, simplified]
  show ?thesis
    unfolding map_of_rev_distinct[OF environment_files_distinct[OF assms(1)], symmetric]
    by (simp add: run_bind_def outcome_bind_def generate_all_def generate_keys_from_scratch[OF assms(1-4) keys] step_map_err_def generate_tomls_def t)
      (simp add: environment_files_def Let_def)
qed

lemma terraform_from_scratch:
  assumes "cli_ok cli" and "fs_ok fs" and "\<not> key_exists fs (path_key (cli_root cli))"
    and "dir_exists fs (key_parent (path_key (cli_root cli)))" and "working_crates gc km ss sc sa"
  shows "terraform_main gc (working_os canon) m (\<lambda>_. None) cli fs = Returns (Inr (),
    fs\<lparr>gf_dirs := gf_dirs fs \<union> environment_dirs cli,
       gf_files := gf_files fs ++ map_of (environment_files cli km (ss (server_config_of canon m cli))
         (sc (client_config_of canon cli)) (sa (ca_config_of canon cli)))\<rparr>)"
  by (simp add: terraform_main_def cli_generator_ok[OF assms(1)] run_bind_def outcome_bind_def step_map_err_def
      generate_all_from_scratch[OF assms])

section \<open>Confinement\<close>

definition below :: "path_key \<Rightarrow> path_key \<Rightarrow> bool" where
  "below r k \<longleftrightarrow> fst k = fst r \<and> (\<exists>rest. snd k = snd r @ rest \<and> ''..'' \<notin> set rest)"

text \<open>What a generator built from any arguments may name: relative, without a way up.\<close>

definition stays_below :: "string \<Rightarrow> bool" where
  "stays_below s \<longleftrightarrow> \<not> path_is_absolute s \<and> ''..'' \<notin> set (split_slash s)"

lemma below_join: "stays_below s \<Longrightarrow> below r (path_key d) \<Longrightarrow> below r (path_key (path_join d s))"
  by (auto simp: below_def stays_below_def path_key_join_relative) (auto simp: path_key_parts)

lemma below_refl: "below k k"
  by (simp add: below_def)

lemma valid_name_stays_below:
  assumes "FileSystemName_new s = Inr n"
  shows "n = FileSystemName s" and "stays_below s" and "hd (split_slash s) \<noteq> []"
proof -
  have v: "n = FileSystemName s" "plain_name (hd (split_slash s))" "list_all (\<lambda>c. c = [] \<or> c = ''.'') (tl (split_slash s))"
    using assms by (auto simp: FileSystemName_new_Inr_iff)
  have h: "hd (split_slash s) \<noteq> []" "hd (split_slash s) \<noteq> ''..''" using v(2) by (auto simp: plain_name_def component_ok_def)
  have "s \<noteq> []" using h(1) by auto
  then have "\<not> path_is_absolute s" using split_slash_head[of s] h(1) by simp
  moreover have "''..'' \<notin> set (split_slash s)"
    using v(3) h(2) by (cases "split_slash s") (auto simp: list_all_iff)
  ultimately show "n = FileSystemName s" and "stays_below s" and "hd (split_slash s) \<noteq> []"
    using v(1) h(1) by (simp_all add: stays_below_def)
qed

lemma valid_name_as_str: "FileSystemName_new s = Inr n \<Longrightarrow> stays_below (as_str n)"
  using valid_name_stays_below[of s n] by simp

lemma stays_below_suffix:
  assumes "stays_below s" and "hd (split_slash s) \<noteq> []" and "component_ok t" and "2 < length t"
  shows "stays_below (s @ t)"
proof -
  have "s \<noteq> []" using assms(2) by auto
  then have "path_is_absolute (s @ t) = path_is_absolute s" by (cases s) (auto simp: path_is_absolute_def)
  moreover have "last (split_slash s) @ t \<noteq> ''..''"
  proof
    assume "last (split_slash s) @ t = ''..''"
    then have "length (last (split_slash s) @ t) = 2" by simp
    with assms(4) show False by simp
  qed
  ultimately show ?thesis
    using assms by (auto simp: stays_below_def split_slash_app split_slash_plain dest: in_set_butlastD)
qed

lemma stays_below_suffixes:
  assumes "stays_below s" and "hd (split_slash s) \<noteq> []"
  shows "stays_below (s @ ''tls_certificate.pem'')" "stays_below (s @ ''tls_private_key.pem'')"
    "stays_below (s @ ''rsa_pub_key.pem'')" "stays_below (s @ ''rsa_priv_key.pem'')" "stays_below (s @ ''config.toml'')"
  using assms by (auto intro!: stays_below_suffix simp: component_ok_def)

lemma AnyServerFiles_default_Inr:
  assumes "AnyServerFiles_default prefix = Returns (Inr files)"
  shows "files = prefixed_files prefix" and "stays_below prefix" and "hd (split_slash prefix) \<noteq> []"
proof -
  obtain n where n: "FileSystemName_new prefix = Inr n"
    using assms by (auto simp: AnyServerFiles_default_def split: sum.splits)
  note v = valid_name_stays_below[OF n]
  have "AnyServerFiles_default prefix = Returns (Inr (prefixed_files prefix))"
    by (simp add: AnyServerFiles_default_def n v(1) FileSystemName_new_plain suffixed_def expect_def outcome_bind_def
        FileSystemName_concat_def prefixed_files_def)
  with assms v show "files = prefixed_files prefix" and "stays_below prefix" and "hd (split_slash prefix) \<noteq> []"
    by simp_all
qed

lemma name_or_default_Returns:
  "name_or_default name d = Returns n \<Longrightarrow> pred_option (stays_below \<circ> as_str) name \<Longrightarrow> stays_below (as_str n)"
  by (auto simp: name_or_default_def expect_def dest: valid_name_as_str split: option.splits sum.splits)

definition builder_below :: "EnvironmentGeneratorBuilder \<Rightarrow> bool" where
  "builder_below eb \<longleftrightarrow> pred_option (stays_below \<circ> as_str) (eb_client_dir eb) \<and>
     pred_option (stays_below \<circ> as_str) (eb_server_dir eb) \<and> pred_option (stays_below \<circ> as_str) (eb_ca_dir eb)"

lemma build_below:
  assumes "EnvironmentGeneratorBuilder_build eb = Returns (Inr env)" and "builder_below eb"
  shows "eg_root_dir env = eb_root_dir eb"
    and "\<And>p. p \<in> {eg_client_dir env, eg_server_dir env, eg_ca_dir env} \<Longrightarrow> below (path_key (eb_root_dir eb)) (path_key p)"
proof -
  obtain c s a where n: "name_or_default (eb_client_dir eb) DEFAULT_CLIENT_ENV_SUBDIR = Returns c"
      "name_or_default (eb_server_dir eb) DEFAULT_SERVER_ENV_SUBDIR = Returns s"
      "name_or_default (eb_ca_dir eb) DEFAULT_CA_ENV_SUBDIR = Returns a"
    and env: "env = \<lparr>eg_client_dir = path_join (eb_root_dir eb) (as_str c), eg_server_dir = path_join (eb_root_dir eb) (as_str s),
      eg_ca_dir = path_join (eb_root_dir eb) (as_str a), eg_root_dir = eb_root_dir eb\<rparr>"
    using assms(1)
    by (auto simp: EnvironmentGeneratorBuilder_build_def outcome_bind_def Let_def split: outcome.splits if_splits)
  have "stays_below (as_str c)" "stays_below (as_str s)" "stays_below (as_str a)"
    using n[THEN name_or_default_Returns] assms(2) by (simp_all add: builder_below_def)
  then show "\<And>p. p \<in> {eg_client_dir env, eg_server_dir env, eg_ca_dir env} \<Longrightarrow> below (path_key (eb_root_dir eb)) (path_key p)"
    using below_join[OF _ below_refl, of _ "eb_root_dir eb"] by (auto simp: env)
  show "eg_root_dir env = eb_root_dir eb" by (simp add: env)
qed

lemma cli_generator_below:
  assumes "cli_generator cli = Returns (Inr gn)"
  shows "p \<in> set (generator_dirs gn) \<Longrightarrow> below (path_key (cli_root cli)) (path_key p)"
    and "(d, n) \<in> set (generator_files gn) \<Longrightarrow> below (path_key (cli_root cli)) (path_key (path_join d (as_str n)))"
proof -
  obtain eb env where eb: "result_bind (with_given_dir InvalidClientDirectory with_client_dir (cli_client_dir cli)
             (from_simulation_dir (cli_root cli))) (\<lambda>eb.
      result_bind (with_given_dir InvalidServerDirectory with_server_dir (cli_server_dir cli) eb)
        (with_given_dir InvalidCaDirectory with_ca_dir (cli_ca_dir cli))) = Inr eb"
    and env: "EnvironmentGeneratorBuilder_build eb = Returns (Inr env)"
    and sf: "AnyServerFiles_default (cli_server_prefix cli) = Returns (Inr (gn_server_files gn))"
    and cf: "AnyServerFiles_default (cli_ca_prefix cli) = Returns (Inr (gn_ca_files gn))"
    and gn: "gn_env gn = env" "gn_client_files gn = \<lparr>cf_toml_file = FileSystemName ''config.toml''\<rparr>"
    using assms
    by (auto simp: cli_generator_def outcome_result_bind_def outcome_bind_def expect_def FileSystemName_new_plain
        new_from_files_def ClientFiles_new_def split: outcome.splits sum.splits if_splits)
  have "builder_below eb" and r: "eb_root_dir eb = cli_root cli"
    using eb
    by (auto dest!: valid_name_as_str simp: result_bind_Inr_iff with_given_dir_def builder_below_def from_simulation_dir_def with_client_dir_def
        with_server_dir_def with_ca_dir_def split: option.splits)
  note b = build_below[OF env this(1), unfolded r]
  have d: "below (path_key (cli_root cli)) (path_key (eg_client_dir env))"
    "below (path_key (cli_root cli)) (path_key (eg_server_dir env))"
    "below (path_key (cli_root cli)) (path_key (eg_ca_dir env))"
    by (rule b(2), simp)+
  note s = AnyServerFiles_default_Inr[OF sf] AnyServerFiles_default_Inr[OF cf]
  show "p \<in> set (generator_dirs gn) \<Longrightarrow> below (path_key (cli_root cli)) (path_key p)"
    using d by (auto simp: generator_dirs_def gn below_refl b(1))
  have c: "stays_below ''config.toml''" by (simp add: stays_below_def path_is_absolute_def)
  note f = stays_below_suffixes[OF s(2,3)] stays_below_suffixes[OF s(5,6)] c
  have "list_all (\<lambda>(d, n). below (path_key (cli_root cli)) (path_key (path_join d (as_str n)))) (generator_files gn)"
    by (simp add: generator_files_def distribution_def Let_def gn s(1,4) prefixed_files_def below_join d f)
  then show "(d, n) \<in> set (generator_files gn) \<Longrightarrow> below (path_key (cli_root cli)) (path_key (path_join d (as_str n)))"
    by (auto simp: list_all_iff)
qed

lemma terraform_main_state:
  assumes "terraform_main gc os m stdout cli fs = Returns (r, fs')"
  shows "fs' = fs \<or> (\<exists>gn e. cli_generator cli = Returns (Inr gn) \<and> generate_all gc os m gn fs = Returns (e, fs'))"
proof (cases "cli_generator cli")
  case Panic
  with assms show ?thesis
    by (auto simp: terraform_main_def run_bind_def outcome_bind_def split: option.splits)
next
  case (Returns g)
  show ?thesis
  proof (cases g)
    case (Inl e)
    with assms Returns show ?thesis
      by (auto simp: terraform_main_def run_bind_def outcome_bind_def split: option.splits)
  next
    case (Inr gn)
    with assms Returns show ?thesis
      by (auto simp: terraform_main_def run_bind_def outcome_bind_def step_map_err_def
          split: option.splits outcome.splits prod.splits sum.splits)
  qed
qed

lemma terraform_keeps_fs_ok:
  assumes "terraform_main gc os m stdout cli fs = Returns (r, fs')" and "fs_ok fs"
  shows "fs_ok fs'"
proof -
  have "fs_ok fs'" if "generate_all gc os m gn fs = Returns (e, fs')" for gn e
    using consistent.generate_all_inv[OF assms(2), of gc os m gn] that by (simp add: consistent.outcome_inv_def)
  with terraform_main_state[OF assms(1)] assms(2) show ?thesis by blast
qed

lemma terraform_unchanged_outside:
  assumes "terraform_main gc os m stdout cli fs = Returns (r, fs')"
  shows "fs' = fs \<or> (\<exists>gn. cli_generator cli = Returns (Inr gn) \<and> unchanged_outside gn fs fs')"
proof -
  have "unchanged_outside gn fs fs'" if "generate_all gc os m gn fs = Returns (e, fs')" for gn e
    using confined.generate_all_inv[of gn fs fs gc os m] that
    by (simp add: confined.outcome_inv_def unchanged_outside_def)
  with terraform_main_state[OF assms] show ?thesis by blast
qed

section \<open>Reading the environment back\<close>

text \<open>The files as the readers of the three programs see them, every read delivering.\<close>

definition utf8_bytes :: "string \<Rightarrow> byte list" where
  "utf8_bytes s = map (\<lambda>c. of_nat (of_char c)) s"

definition gen_view :: "gen_fs \<Rightarrow> filesystem" where
  "gen_view fs p =
     (case gf_files fs (path_key p) of
        None \<Rightarrow> Inl (io_error.IoError NotFound ''No such file or directory'')
      | Some s \<Rightarrow> Inr (\<lparr>of_content = utf8_bytes s, of_plan = []\<rparr>, Inr (of_nat (length s))))"

definition text_ok :: "string \<Rightarrow> bool" where
  "text_ok s \<longleftrightarrow> utf8_valid (utf8_bytes s) \<and> length s < 2 ^ 32"

lemma from_utf8_bytes: "utf8_valid (utf8_bytes s) \<Longrightarrow> from_utf8 e (utf8_bytes s) = Inr s"
  by (simp add: from_utf8_def utf8_bytes_def comp_def unat_of_nat)

lemma path_file_name_key: "path_key q = subkey k n \<Longrightarrow> plain_name n \<Longrightarrow> path_file_name q = Some n"
  by (auto simp: path_file_name_def path_key_parts path_components_def subkey_def Let_def plain_name_def)

lemma path_key_plain: "plain_name n \<Longrightarrow> path_key n = subkey (False, []) n"
  by (auto simp: path_key_parts subkey_def plain_name_def split_slash_plain component_ok_def
      path_is_absolute_def split: list.splits)

lemma path_extension_key: "path_key q = subkey k n \<Longrightarrow> plain_name n \<Longrightarrow> path_extension q = path_extension n"
  by (simp add: path_extension_def path_file_name_key path_file_name_key[OF path_key_plain])

lemma extension_of_name:
  "plain_name n \<Longrightarrow> path_extension n = (let ext = rev (takeWhile (\<lambda>c. c \<noteq> CHR ''.'') (rev n))
    in if length ext + 1 < length n then Some ext else None)"
  by (simp add: path_extension_def path_file_name_key[OF path_key_plain])

lemma read_gen_view:
  assumes "gf_files fs (path_key q) = Some t" and "text_ok t" and "path_extension q = Some ext"
  shows "safe_read ptr32 (\<lambda>_. None) (gen_view fs) q (Some ext) = Inr (utf8_bytes t)"
proof -
  have l: "unat (of_nat (length t) :: u64) = length t"
    using assms(2) by (simp add: text_ok_def unat_of_nat)
  have "gen_view fs q = Inr (\<lparr>of_content = utf8_bytes t, of_plan = []\<rparr>, Inr (of_nat (length t)))"
    by (simp add: gen_view_def assms(1))
  from safe_read_contents[of "gen_view fs" q _ _ "Some ext" "\<lambda>_. None" ptr32, OF this] show ?thesis
    using assms(2,3) l by (simp add: plan_ok_def text_ok_def utf8_bytes_def)
qed

text \<open>A canonical path names the file that the path it was made of names.\<close>

definition canonical :: "(string \<Rightarrow> string) \<Rightarrow> bool" where
  "canonical canon \<longleftrightarrow> (\<forall>p. path_is_absolute p \<longrightarrow> path_key (canon p) = path_key p)"

lemma env_path_key:
  assumes "plain_name d" and "plain_name n"
  shows "path_key (env_path cli d n) = subkey (subkey (path_key (cli_root cli)) d) n"
  using assms by (simp add: env_path_def path_key_subkey)

lemma canonical_env_path:
  assumes "canonical canon" and "path_is_absolute (cli_root cli)" and "plain_name d" and "plain_name n"
  shows "path_key (canon (env_path cli d n)) = subkey (subkey (path_key (cli_root cli)) d) n"
proof -
  have "fst (path_key (env_path cli d n)) = fst (path_key (cli_root cli))"
    using assms by (simp add: env_path_key subkey_def)
  then have "path_is_absolute (env_path cli d n)" using assms(2) by (simp add: path_key_def)
  with assms show ?thesis by (simp add: canonical_def env_path_key)
qed

lemma read_environment:
  assumes "(subkey k n, t) \<in> set E" and "distinct (map fst E)" and "gf_files fs' = gf_files fs ++ map_of E"
    and "path_key q = subkey k n" and "text_ok t" and "path_extension q = Some ext"
  shows "safe_read ptr32 (\<lambda>_. None) (gen_view fs') q (Some ext) = Inr (utf8_bytes t)"
proof (rule read_gen_view[OF _ assms(5,6)])
  show "gf_files fs' (path_key q) = Some t"
    using assms(1-4) by simp
qed

lemma environment_entries:
  assumes "E = environment_files cli km s c a"
  defines "root \<equiv> path_key (cli_root cli)"
  shows "(subkey (subkey root (server_name cli)) (cli_server_prefix cli @ ''tls_private_key.pem''), km_server_key km) \<in> set E"
    "(subkey (subkey root (server_name cli)) (cli_server_prefix cli @ ''tls_certificate.pem''), km_server_cert km) \<in> set E"
    "(subkey (subkey root (server_name cli)) (cli_server_prefix cli @ ''rsa_priv_key.pem''), km_rsa_priv km) \<in> set E"
    "(subkey (subkey root (server_name cli)) (cli_ca_prefix cli @ ''tls_certificate.pem''), km_ca_cert km) \<in> set E"
    "(subkey (subkey root (server_name cli)) (cli_server_prefix cli @ ''config.toml''), s) \<in> set E"
    "(subkey (subkey root (client_name cli)) (cli_ca_prefix cli @ ''tls_certificate.pem''), km_ca_cert km) \<in> set E"
    "(subkey (subkey root (client_name cli)) (cli_server_prefix cli @ ''rsa_pub_key.pem''), km_rsa_pub km) \<in> set E"
    "(subkey (subkey root (client_name cli)) ''config.toml'', c) \<in> set E"
    "(subkey (subkey root (ca_name cli)) (cli_ca_prefix cli @ ''tls_certificate.pem''), km_ca_cert km) \<in> set E"
    "(subkey (subkey root (ca_name cli)) (cli_ca_prefix cli @ ''tls_private_key.pem''), km_ca_key km) \<in> set E"
    "(subkey (subkey root (ca_name cli)) (cli_ca_prefix cli @ ''config.toml''), a) \<in> set E"
  by (simp_all add: assms(1) root_def environment_files_def environment_keys_def Let_def)

text \<open>The keys of one generation belong together.\<close>

lemma generate_keys_Inr:
  assumes "generate_keys gc = Inr km"
  shows "\<exists>sk. gc_rsa_priv_pem gc sk = Inr (km_rsa_priv km) \<and> gc_rsa_pub_pem gc sk = Inr (km_rsa_pub km)"
    and "\<exists>params kp sparams skp. km_ca_key km = gc_key_pem gc kp \<and> gc_self_signed gc params kp = Inr (km_ca_cert km) \<and>
      km_server_key km = gc_key_pem gc skp \<and> gc_signed_by gc sparams skp (gc_issuer gc params kp) = Inr (km_server_cert km)"
  using assms by (clarsimp simp: generate_keys_def Let_def result_bind_Inr_iff, blast)+

definition environment_written ::
    "Cli \<Rightarrow> (string \<Rightarrow> string) \<Rightarrow> machine \<Rightarrow> key_material \<Rightarrow> (Config \<Rightarrow> string) \<Rightarrow> (ClientConfig \<Rightarrow> string)
     \<Rightarrow> (CaConfig \<Rightarrow> string) \<Rightarrow> (path_key \<times> string) list" where
  "environment_written cli canon m km ss sc sa =
     environment_files cli km (ss (server_config_of canon m cli)) (sc (client_config_of canon cli)) (sa (ca_config_of canon cli))"

definition server_finds ::
    "('cert, 'key, 'sk, 'sock) config_env \<Rightarrow> string \<Rightarrow> Config \<Rightarrow> key_material \<Rightarrow> bool" where
  "server_finds ce path conf km \<longleftrightarrow>
     Config_from_file ce path = Inr conf \<and>
     read_config_file ce (ks_tls_cert_path (cf_keys conf)) PEM_EXT = Inr (utf8_bytes (km_server_cert km)) \<and>
     read_config_file ce (ks_tls_priv_path (cf_keys conf)) PEM_EXT = Inr (utf8_bytes (km_server_key km)) \<and>
     read_config_file ce (ks_tss_priv_path (cf_keys conf)) PEM_EXT = Inr (utf8_bytes (km_rsa_priv km)) \<and>
     read_config_file ce (ks_ca_cert_path (cf_keys conf)) PEM_EXT = Inr (utf8_bytes (km_ca_cert km))"

definition client_finds :: "('cert, 'pk) client_env \<Rightarrow> string \<Rightarrow> ClientConfig \<Rightarrow> key_material \<Rightarrow> bool" where
  "client_finds cv path conf km \<longleftrightarrow>
     ClientConfig_from_file cv path = Inr conf \<and>
     client_read cv (kg_ca_cert_path (cg_keys conf)) (Some ''pem'') = Inr (utf8_bytes (km_ca_cert km)) \<and>
     client_read cv (kg_server_rsa_public_key_path (cg_keys conf)) (Some ''pem'') = Inr (utf8_bytes (km_rsa_pub km))"

definition ca_finds :: "ca_env \<Rightarrow> string \<Rightarrow> CaConfig \<Rightarrow> IpAddr \<Rightarrow> key_material \<Rightarrow> bool" where
  "ca_finds cae path conf ip km \<longleftrightarrow>
     CaConfig_from_file cae path = Inr conf \<and>
     convert_to_context cae conf = Inr \<lparr>ca_address = \<lparr>addr_ip = ip, addr_port = DEFAULT_CA_IP_PORT\<rparr>,
       ca_cert_pem = utf8_bytes (km_ca_cert km), ca_key_pem = utf8_bytes (km_ca_key km)\<rparr>"

text \<open>Every file of the environment is read back, under its path and under its canonical path.\<close>

lemma read_back:
  assumes "cli_ok cli" and "path_is_absolute (cli_root cli)" and "canonical canon"
    and "E = environment_files cli km s c a" and "list_all (\<lambda>(k, t). text_ok t) E"
    and "gf_files fs' = gf_files fs ++ map_of E"
    and "(subkey (subkey (path_key (cli_root cli)) d) n, t) \<in> set E"
    and "plain_name d" and "plain_name n" and "path_extension n = Some ext"
  shows "safe_read ptr32 (\<lambda>_. None) (gen_view fs') (canon (env_path cli d n)) (Some ext) = Inr (utf8_bytes t)" (is ?C)
    and "safe_read ptr32 (\<lambda>_. None) (gen_view fs') (env_path cli d n) (Some ext) = Inr (utf8_bytes t)" (is ?P)
proof -
  have t: "text_ok t" using assms(5,7) by (auto simp: list_all_iff)
  note r = read_environment[OF assms(7) environment_files_distinct[OF assms(1), of km s c a, folded assms(4)] assms(6) _ t]
  show ?C using assms by (intro r) (simp_all add: canonical_env_path path_extension_key)
  show ?P using assms by (intro r) (simp_all add: env_path_key path_extension_key)
qed

lemma server_finds_environment:
  assumes "cli_ok cli" and "path_is_absolute (cli_root cli)" and "canonical canon"
    and "E = environment_files cli km toml_text c a" and "list_all (\<lambda>(k, t). text_ok t) E"
    and "gf_files fs' = gf_files fs ++ map_of E"
    and "ce_fs ce = gen_view fs'" and "ce_try_reserve ce = (\<lambda>_. None)"
    and "ce_toml ce toml_text = Inr (server_config_of canon m cli)"
  shows "server_finds ce (env_path cli (server_name cli) (cli_server_prefix cli @ ''config.toml''))
    (server_config_of canon m cli) km"
proof -
  have n: "plain_name (server_name cli)" "plain_name (cli_server_prefix cli)" "plain_name (cli_ca_prefix cli)"
    using assms(1) by (auto simp: cli_ok_def)
  note r = read_back[OF assms(1-6), of "server_name cli"] and e = environment_entries[OF assms(4)]
  have "utf8_valid (utf8_bytes toml_text)"
    using assms(5) e(5) by (auto simp: list_all_iff text_ok_def)
  then show ?thesis
    using n by (simp add: server_finds_def Config_from_file_def read_config_file_def assms(7-9) PEM_EXT_def TOML_EXT_def
        r(2)[OF e(5)] from_utf8_bytes plain_name_append extension_of_name)
      (simp add: server_config_of_def default_server_config_def Let_def r(1)[OF e(1)] r(1)[OF e(2)] r(1)[OF e(3)]
        r(1)[OF e(4)] plain_name_append extension_of_name)
qed

lemma client_finds_environment:
  assumes "cli_ok cli" and "path_is_absolute (cli_root cli)" and "canonical canon"
    and "E = environment_files cli km s toml_text a" and "list_all (\<lambda>(k, t). text_ok t) E"
    and "gf_files fs' = gf_files fs ++ map_of E"
    and "cv_fs cv = gen_view fs'" and "cv_try_reserve cv = (\<lambda>_. None)"
    and "cv_toml cv toml_text = Inr (client_config_of canon cli)"
  shows "client_finds cv (env_path cli (client_name cli) ''config.toml'') (client_config_of canon cli) km"
proof -
  have n: "plain_name (client_name cli)" "plain_name (cli_server_prefix cli)" "plain_name (cli_ca_prefix cli)"
    using assms(1) by (auto simp: cli_ok_def)
  note r = read_back[OF assms(1-6), of "client_name cli"] and e = environment_entries[OF assms(4)]
  have "utf8_valid (utf8_bytes toml_text)"
    using assms(5) e(8) by (auto simp: list_all_iff text_ok_def)
  then show ?thesis
    using n by (simp add: client_finds_def ClientConfig_from_file_def client_read_def assms(7-9)
        r(2)[OF e(8)] from_utf8_bytes plain_name_append extension_of_name)
      (simp add: client_config_of_def default_client_config_def ClientConfig_new_def r(1)[OF e(6)] r(1)[OF e(7)]
        plain_name_append extension_of_name)
qed

lemma ca_finds_environment:
  assumes "cli_ok cli" and "path_is_absolute (cli_root cli)" and "canonical canon"
    and "E = environment_files cli km s c toml_text" and "list_all (\<lambda>(k, t). text_ok t) E"
    and "gf_files fs' = gf_files fs ++ map_of E"
    and "cae_fs cae = gen_view fs'" and "cae_try_reserve cae = (\<lambda>_. None)"
    and "cae_toml cae toml_text = Inr (ca_config_of canon cli)"
    and "cae_parse_ip cae DEFAULT_CA_IP_STR = Inr ip"
  shows "ca_finds cae (env_path cli (ca_name cli) (cli_ca_prefix cli @ ''config.toml'')) (ca_config_of canon cli) ip km"
proof -
  have n: "plain_name (ca_name cli)" "plain_name (cli_ca_prefix cli)"
    using assms(1) by (auto simp: cli_ok_def)
  note r = read_back[OF assms(1-6), of "ca_name cli"] and e = environment_entries[OF assms(4)]
  have "utf8_valid (utf8_bytes toml_text)"
    using assms(5) e(11) by (auto simp: list_all_iff text_ok_def)
  then show ?thesis
    using n by (simp add: ca_finds_def CaConfig_from_file_def convert_to_context_def assms(7-9)
        r(2)[OF e(11)] from_utf8_bytes plain_name_append extension_of_name)
      (simp add: ca_config_of_def default_ca_config_def r(1)[OF e(9)] r(1)[OF e(10)] assms(10)
        DEFAULT_CA_IP_PORT_def plain_name_append extension_of_name)
qed

section \<open>Example instance\<close>

definition example_gen_crates :: "(nat, unit, unit, unit) gen_crates" where
  "example_gen_crates =
     \<lparr>gc_keypair = Inr, gc_key_pem = (\<lambda>i. if i = 0 then ''CA KEY'' else ''TLS KEY''), gc_params_new = (\<lambda>_. Inr ()),
      gc_set_is_ca = id, gc_dn_push = (\<lambda>_ _. id), gc_self_signed = (\<lambda>_ _. Inr ''CA CERT''), gc_issuer = (\<lambda>_ _. ()),
      gc_signed_by = (\<lambda>_ _ _. Inr ''TLS CERT''), gc_rsa_new = (\<lambda>_. Inr ()), gc_rsa_priv_pem = (\<lambda>_. Inr ''RSA KEY''),
      gc_rsa_pub_pem = (\<lambda>_. Inr ''RSA PUB''), gc_server_toml = (\<lambda>_. Inr ''server''),
      gc_client_toml = (\<lambda>_. Inr ''client''), gc_ca_toml = (\<lambda>_. Inr ''ca'')\<rparr>"

definition example_key_material :: key_material where
  "example_key_material =
     \<lparr>km_ca_key = ''CA KEY'', km_ca_cert = ''CA CERT'', km_server_key = ''TLS KEY'', km_server_cert = ''TLS CERT'',
      km_rsa_priv = ''RSA KEY'', km_rsa_pub = ''RSA PUB''\<rparr>"

definition example_cli :: Cli where
  "example_cli = \<lparr>cli_root = ''/sim'', cli_client_dir = None, cli_server_dir = None, cli_ca_dir = None,
     cli_server_prefix = ''server_'', cli_ca_prefix = ''ca_''\<rparr>"

definition example_machine :: machine where
  "example_machine = \<lparr>mc_arch = X86_64 True True, mc_available_parallelism = Some 32\<rparr>"

definition empty_fs :: gen_fs where
  "empty_fs = \<lparr>gf_dirs = {}, gf_files = Map.empty\<rparr>"

lemma example_crates_work:
  "working_crates example_gen_crates example_key_material (\<lambda>_. ''server'') (\<lambda>_. ''client'') (\<lambda>_. ''ca'')"
  by (simp add: working_crates_def generate_keys_def example_gen_crates_def example_key_material_def)

lemma example_names:
  "client_name example_cli = ''client_env''" "server_name example_cli = ''server_env''" "ca_name example_cli = ''ca_env''"
  "cli_root example_cli = ''/sim''" "cli_server_prefix example_cli = ''server_''" "cli_ca_prefix example_cli = ''ca_''"
  by (simp_all add: example_cli_def client_name_def server_name_def ca_name_def name_of_def
      DEFAULT_CLIENT_ENV_SUBDIR_def DEFAULT_SERVER_ENV_SUBDIR_def DEFAULT_CA_ENV_SUBDIR_def)

lemma example_cli_ok: "cli_ok example_cli"
  by (simp add: cli_ok_def example_names plain_name_def component_ok_def)

lemma example_fs:
  "fs_ok empty_fs" "\<not> key_exists empty_fs (path_key (cli_root example_cli))"
  "dir_exists empty_fs (key_parent (path_key (cli_root example_cli)))"
  by (auto simp: fs_ok_def empty_fs_def key_exists_def dir_exists_def key_parent_def example_cli_def path_key_parts)

definition generated_fs :: gen_fs where
  "generated_fs = \<lparr>gf_dirs = environment_dirs example_cli,
     gf_files = map_of (environment_files example_cli example_key_material ''server'' ''client'' ''ca'')\<rparr>"

definition example_server_env :: "(unit, unit, unit, unit) config_env" where
  "example_server_env = (example_env 5)\<lparr>ce_fs := gen_view generated_fs,
     ce_toml := (\<lambda>_. Inr (server_config_of id example_machine example_cli))\<rparr>"

definition example_client_env :: "(unit, unit) client_env" where
  "example_client_env = \<lparr>cv_ptr32 = False, cv_try_reserve = (\<lambda>_. None), cv_fs = gen_view generated_fs,
     cv_utf8_error = (\<lambda>_. []), cv_toml = (\<lambda>_. Inr (client_config_of id example_cli)), cv_parse_ip = (\<lambda>_. Inr (V4 0)),
     cv_certs = (\<lambda>_. []), cv_public_key = (\<lambda>_. Inr ())\<rparr>"

definition example_ca_env :: ca_env where
  "example_ca_env = \<lparr>cae_ptr32 = False, cae_try_reserve = (\<lambda>_. None), cae_fs = gen_view generated_fs,
     cae_utf8_error = (\<lambda>_. []), cae_toml = (\<lambda>_. Inr (ca_config_of id example_cli)), cae_parse_ip = (\<lambda>_. Inr (V4 0))\<rparr>"

lemma example_generated:
  "terraform_main example_gen_crates (working_os id) example_machine (\<lambda>_. None) example_cli empty_fs =
     Returns (Inr (), generated_fs)"
  using terraform_from_scratch[OF example_cli_ok example_fs example_crates_work, of id example_machine]
  by (simp add: empty_fs_def generated_fs_def)

lemma example_texts:
  "list_all (\<lambda>(k, t). text_ok t) (environment_written example_cli id example_machine example_key_material
     (\<lambda>_. ''server'') (\<lambda>_. ''client'') (\<lambda>_. ''ca''))"
  by (simp add: environment_written_def environment_files_def environment_keys_def example_key_material_def Let_def
      text_ok_def utf8_bytes_def)

section \<open>Properties\<close>

text \<open>
  C19. Generation from scratch is complete: when the root directory does not exist yet and its
  parent does, keys can be generated and no file operation fails, the command succeeds and
  afterwards the file system has exactly the four new directories and the eleven files of the
  environment, each with its contents, no two of them under one path; no private key is in
  another directory than its owner's, and the file system is well formed.
\<close>

theorem environment_generated_from_scratch:
  assumes "cli_ok cli" and "fs_ok fs" and "\<not> key_exists fs (path_key (cli_root cli))"
    and "dir_exists fs (key_parent (path_key (cli_root cli)))" and "working_crates gc km ss sc sa"
  shows "\<exists>fs'. terraform_main gc (working_os canon) m (\<lambda>_. None) cli fs = Returns (Inr (), fs') \<and>
    gf_dirs fs' = gf_dirs fs \<union> environment_dirs cli \<and>
    gf_files fs' = gf_files fs ++ map_of (environment_written cli canon m km ss sc sa) \<and>
    distinct (map fst (environment_written cli canon m km ss sc sa)) \<and> fs_ok fs'"
proof -
  let ?fs = "fs\<lparr>gf_dirs := gf_dirs fs \<union> environment_dirs cli,
    gf_files := gf_files fs ++ map_of (environment_written cli canon m km ss sc sa)\<rparr>"
  have t: "terraform_main gc (working_os canon) m (\<lambda>_. None) cli fs = Returns (Inr (), ?fs)"
    unfolding environment_written_def by (rule terraform_from_scratch[OF assms])
  with assms(2) terraform_keeps_fs_ok[OF t] environment_files_distinct[OF assms(1)] show ?thesis by (auto simp: environment_written_def)
qed

theorem environment_generated_from_scratch_witness:
  "\<exists>fs'. terraform_main example_gen_crates (working_os id) example_machine (\<lambda>_. None) example_cli empty_fs =
     Returns (Inr (), fs') \<and> gf_files fs' (True, [''sim'', ''server_env'', ''server_rsa_priv_key.pem'']) = Some ''RSA KEY''"
proof -
  obtain fs' where "terraform_main example_gen_crates (working_os id) example_machine (\<lambda>_. None) example_cli empty_fs =
      Returns (Inr (), fs')"
    and "gf_files fs' = gf_files empty_fs ++ map_of (environment_written example_cli id example_machine example_key_material
      (\<lambda>_. ''server'') (\<lambda>_. ''client'') (\<lambda>_. ''ca''))"
    using environment_generated_from_scratch[OF example_cli_ok example_fs example_crates_work, of id example_machine] by blast
  then show ?thesis
    by (simp add: environment_written_def environment_files_def environment_keys_def Let_def example_key_material_def
        example_names subkey_def path_key_parts path_is_absolute_def)
qed

text \<open>
  C20. The generated environment fits the three programs: the server, the client and the
  authority read back the configuration that was meant for them and find, under the canonical
  paths in it, the keys of one generation. The key the client verifies with is the public half
  of the key the server signs with, and the certificate of the server is issued by the
  authority whose certificate the client trusts; client and server agree on the address.
\<close>

theorem generated_environment_fits_programs:
  assumes "cli_ok cli" and "fs_ok fs" and "\<not> key_exists fs (path_key (cli_root cli))"
    and "dir_exists fs (key_parent (path_key (cli_root cli)))" and "working_crates gc km ss sc sa"
    and "path_is_absolute (cli_root cli)" and "canonical canon"
    and "list_all (\<lambda>(k, t). text_ok t) (environment_written cli canon m km ss sc sa)"
    and "terraform_main gc (working_os canon) m (\<lambda>_. None) cli fs = Returns (r, fs')"
    and "ce_fs ce = gen_view fs'" and "ce_try_reserve ce = (\<lambda>_. None)"
    and "ce_toml ce (ss (server_config_of canon m cli)) = Inr (server_config_of canon m cli)"
    and "cv_fs cv = gen_view fs'" and "cv_try_reserve cv = (\<lambda>_. None)"
    and "cv_toml cv (sc (client_config_of canon cli)) = Inr (client_config_of canon cli)"
    and "cae_fs cae = gen_view fs'" and "cae_try_reserve cae = (\<lambda>_. None)"
    and "cae_toml cae (sa (ca_config_of canon cli)) = Inr (ca_config_of canon cli)"
    and "cae_parse_ip cae DEFAULT_CA_IP_STR = Inr ip"
  shows "server_finds ce (env_path cli (server_name cli) (cli_server_prefix cli @ ''config.toml''))
      (server_config_of canon m cli) km \<and>
    client_finds cv (env_path cli (client_name cli) ''config.toml'') (client_config_of canon cli) km \<and>
    ca_finds cae (env_path cli (ca_name cli) (cli_ca_prefix cli @ ''config.toml'')) (ca_config_of canon cli) ip km \<and>
    (\<exists>sk. gc_rsa_priv_pem gc sk = Inr (km_rsa_priv km) \<and> gc_rsa_pub_pem gc sk = Inr (km_rsa_pub km)) \<and>
    (\<exists>params kp sparams skp. km_ca_key km = gc_key_pem gc kp \<and> gc_self_signed gc params kp = Inr (km_ca_cert km) \<and>
       km_server_key km = gc_key_pem gc skp \<and> gc_signed_by gc sparams skp (gc_issuer gc params kp) = Inr (km_server_cert km)) \<and>
    tg_server_ip (cg_timestamp (client_config_of canon cli)) = nc_ip (cf_network (server_config_of canon m cli)) \<and>
    tg_server_port (cg_timestamp (client_config_of canon cli)) = nc_port (cf_network (server_config_of canon m cli))"
proof -
  have f: "gf_files fs' = gf_files fs ++ map_of (environment_written cli canon m km ss sc sa)"
    using assms(9) terraform_from_scratch[OF assms(1-5), of canon m] by (auto simp: environment_written_def)
  have k: "generate_keys gc = Inr km" using assms(5) by (simp add: working_crates_def)
  note w = environment_written_def[of cli canon m km ss sc sa]
  have "tg_server_ip (cg_timestamp (client_config_of canon cli)) = nc_ip (cf_network (server_config_of canon m cli)) \<and>
    tg_server_port (cg_timestamp (client_config_of canon cli)) = nc_port (cf_network (server_config_of canon m cli))"
    by (simp add: client_config_of_def default_client_config_def ClientConfig_new_def server_config_of_def
        default_server_config_def Let_def)
  with server_finds_environment[OF assms(1,6,7) w assms(8) f assms(10-12)]
    client_finds_environment[OF assms(1,6,7) w assms(8) f assms(13-15)]
    ca_finds_environment[OF assms(1,6,7) w assms(8) f assms(16-19)] generate_keys_Inr[OF k]
  show ?thesis by blast
qed

theorem generated_environment_fits_programs_witness:
  "server_finds example_server_env ''/sim/server_env/server_config.toml'' (server_config_of id example_machine example_cli)
     example_key_material \<and>
   client_finds example_client_env ''/sim/client_env/config.toml'' (client_config_of id example_cli) example_key_material"
  using generated_environment_fits_programs[OF example_cli_ok example_fs example_crates_work _ _ example_texts
      example_generated, of example_server_env example_client_env example_ca_env "V4 0"]
  by (simp add: example_names path_is_absolute_def canonical_def example_server_env_def example_client_env_def
      example_ca_env_def example_env_def env_path_def path_join_def)

text \<open>
  An environment is never generated over something that exists: the command fails with
  \<^verbatim>\<open>AlreadyExists\<close> for the root and leaves the file system as it was.
\<close>

lemma existing_root_left_alone:
  assumes "cli_ok cli" and "key_exists fs (path_key (cli_root cli))" and "cli_root cli \<noteq> []"
    and "generate_keys gc = Inr km" and "os_create_dir os (cli_root cli) = None"
  shows "terraform_main gc os m (\<lambda>_. None) cli fs =
    Returns (Inl (DuringGeneration (KeyGen (KeyGenIo (cli_root cli) (io_error.IoError AlreadyExists ''File exists'')))), fs)"
proof -
  have "create_dir os (cli_root cli) fs = (Inl (io_error.IoError AlreadyExists ''File exists''), fs)"
    using assms by (simp add: create_dir_def)
  then show ?thesis
    by (simp add: terraform_main_def cli_generator_ok[OF assms(1)] run_bind_def outcome_bind_def generate_all_def
        generate_keys_and_distribute_def step_bind_def step_map_err_def assms(4) described_generator_def)
qed

text \<open>
  C30. Whatever the arguments are and whichever operation fails, the command changes nothing
  outside the root directory: every directory or file that differs afterwards lies under the
  root, on a path without a step upwards.
\<close>

theorem terraform_never_leaves_root:
  assumes "terraform_main gc os m stdout cli fs = Returns (r, fs')"
    and "(k \<in> gf_dirs fs') \<noteq> (k \<in> gf_dirs fs) \<or> gf_files fs' k \<noteq> gf_files fs k"
  shows "below (path_key (cli_root cli)) k"
proof -
  obtain gn where g: "cli_generator cli = Returns (Inr gn)" and u: "unchanged_outside gn fs fs'"
    using terraform_unchanged_outside[OF assms(1)] assms(2) by auto
  have "k \<in> path_key ` set (generator_dirs gn) \<or>
      k \<in> (\<lambda>(d, n). path_key (path_join d (as_str n))) ` set (generator_files gn)"
    using u assms(2) unfolding unchanged_outside_def by blast
  with cli_generator_below[OF g] show ?thesis by auto
qed

theorem terraform_never_leaves_root_witness:
  "below (path_key ''/sim'') (True, [''sim'', ''ca_env'', ''ca_tls_private_key.pem''])"
proof -
  have "gf_files generated_fs (True, [''sim'', ''ca_env'', ''ca_tls_private_key.pem'']) = Some ''CA KEY''"
    by (simp add: generated_fs_def environment_files_def environment_keys_def Let_def example_key_material_def
        example_names subkey_def path_key_parts path_is_absolute_def)
  with terraform_never_leaves_root[OF example_generated] show ?thesis
    by (simp add: empty_fs_def example_names)
qed

text \<open>
  The heuristic for the number of threads never panics and respects its limits in either
  order; without limits the generated server has between two and sixteen threads.
\<close>

lemma heuristic_within_limits:
  "\<exists>accelerated n. heuristic_working_threads m thread_limits = Returns (accelerated, n) \<and>
     (case thread_limits of
        None \<Rightarrow> 2 \<le> n \<and> n \<le> 16
      | Some (a, b) \<Rightarrow> min a b \<le> n \<and> n \<le> max a b)"
  by (auto simp: heuristic_working_threads_Returns heuristic_threads_def MIN_THREADS_def MAX_THREADS_def
      split: option.splits)

text \<open>
  C31. Concatenating two file system names gives a valid name exactly when the first one has no
  slash. A name such as \<^verbatim>\<open>a/\<close> is accepted by \<^verbatim>\<open>FileSystemName::new\<close>, and what is appended to it
  ends up in another directory.
\<close>

theorem concat_valid_iff_no_slash:
  assumes "FileSystemName_new s = Inr a" and "FileSystemName_new t = Inr b"
  shows "FileSystemName_new (as_str (FileSystemName_concat a b)) = Inr (FileSystemName_concat a b) \<longleftrightarrow>
    CHR ''/'' \<notin> set s"
proof -
  let ?S = "split_slash s" and ?T = "split_slash t"
  have a: "a = FileSystemName s" "plain_name (hd ?S)" "list_all (\<lambda>c. c = [] \<or> c = ''.'') (tl ?S)"
    and b: "b = FileSystemName t" "plain_name (hd ?T)" "list_all (\<lambda>c. c = [] \<or> c = ''.'') (tl ?T)"
    using assms by (auto simp: FileSystemName_new_Inr_iff)
  have st: "split_slash (s @ t) = butlast ?S @ (last ?S @ hd ?T) # tl ?T" by (rule split_slash_app)
  show ?thesis
  proof (cases "tl ?S = []")
    case True
    then have "?S = [hd ?S]" by (metis list.collapse split_slash_not_Nil)
    then have "split_slash (s @ t) = (hd ?S @ hd ?T) # tl ?T" using st by (metis append_Nil butlast.simps(2) last.simps)
    then show ?thesis
      using a b True split_slash_single[of s]
      by (simp add: FileSystemName_concat_def FileSystemName_new_Inr_iff plain_name_append)
  next
    case False
    then obtain h xs x where S: "?S = h # xs @ [x]"
      by (metis append_butlast_last_id list.collapse split_slash_not_Nil)
    have "hd ?T \<noteq> []" "hd ?T \<noteq> ''.''" using b(2) by (auto simp: plain_name_def component_ok_def)
    moreover have "x = [] \<or> x = ''.''" using a(3) S by simp
    ultimately have "\<not> (x @ hd ?T = [] \<or> x @ hd ?T = ''.'')" by auto
    then have "\<not> list_all (\<lambda>c. c = [] \<or> c = ''.'') (tl (split_slash (s @ t)))" using st S by auto
    then show ?thesis
      using a b False split_slash_single[of s] by (simp add: FileSystemName_concat_def FileSystemName_new_Inr_iff)
  qed
qed

theorem concat_valid_iff_no_slash_witness:
  "FileSystemName_new (as_str (FileSystemName_concat (FileSystemName ''a/'') (FileSystemName ''b''))) =
     Inl (InvalidFileName ''a/b'') \<and>
   FileSystemName_new (as_str (FileSystemName_concat (FileSystemName ''a'') (FileSystemName ''b''))) =
     Inr (FileSystemName ''ab'')"
  using concat_valid_iff_no_slash[of "''a/''" "FileSystemName ''a/''" "''b''" "FileSystemName ''b''"]
    concat_valid_iff_no_slash[of "''a''" "FileSystemName ''a''" "''b''" "FileSystemName ''b''"]
  by (simp add: FileSystemName_concat_def FileSystemName_new_def components_def path_components_def path_is_absolute_def)

end
