(* ===== verification/Handler_Steps.thy ===== *)
theory Handler_Steps
  imports Handler_Invariants
begin

text \<open>
  The connection handler as a machine that makes one access to the shared state per step, so
  that the steps of several connections can be interleaved. A program point holds the inputs
  of the round it is in. The handler of \<open>Connection_Handler\<close> is this machine run to the end
  of each round, with the interference of the round before each access.
\<close>

section \<open>Program points\<close>

datatype 'r pc =
    Guest
  | LoginVerify 'r string string
  | LoginInsert 'r string
  | SignUpRegister 'r string string
  | GuestReply 'r Response "Session option"
  | Member Session
  | SignCharge Session 'r Sha256Hash
  | SignTime Session 'r Sha256Hash
  | SignRecord Session 'r Sha256Hash Timestamp RsaSignature
  | SignRefund Session 'r
  | PurchaseAdd Session 'r u64
  | CountTokens Session 'r
  | ReadHistory Session 'r
  | MemberReply Session 'r Response bool
  | LeaveSession Session "HandlerError + ClosedSessionReason"
  | Ended "HandlerError + ClosedStreamReason"
  | TaskPanicked

text \<open>Requests: what a waiting handler does with what \<^verbatim>\<open>fetch_next_request\<close> returns.\<close>

fun guest_dispatch :: "'sk round \<Rightarrow> Request \<Rightarrow> 'sk round pc" where
  "guest_dispatch rd (Login username password) =
     (case credentials_length_error username password of
        Some reason \<Rightarrow> GuestReply rd (LoginFailed InvalidCredentials) None
      | None \<Rightarrow> LoginVerify rd username password)"
| "guest_dispatch rd (SignUp username password) =
     (case credentials_length_error username password of
        Some reason \<Rightarrow> GuestReply rd (OperationError reason) None
      | None \<Rightarrow> SignUpRegister rd username password)"
| "guest_dispatch rd _ = GuestReply rd NotLoggedIn None"

fun member_dispatch :: "Session \<Rightarrow> 'sk round \<Rightarrow> Request \<Rightarrow> 'sk round pc" where
  "member_dispatch se rd (Login _ _) = MemberReply se rd (LoginFailed LoginError.AlreadyLoggedIn) False"
| "member_dispatch se rd (SignUp _ _) = MemberReply se rd (SignInFailed SignInError.AlreadyLoggedIn) False"
| "member_dispatch se rd LogOut = MemberReply se rd Ok True"
| "member_dispatch se rd (SignHash raw_hash) = SignCharge se rd raw_hash"
| "member_dispatch se rd (PurchaseTokens tokens) = PurchaseAdd se rd tokens"
| "member_dispatch se rd HowManyTokensDoIHave = CountTokens se rd"
| "member_dispatch se rd Request.History = ReadHistory se rd"

fun pc_fetch ::
    "('h, 'sk, 'pk, 'ph) crates \<Rightarrow> SocketAddr \<Rightarrow> 'sk round pc \<Rightarrow> 'sk round \<Rightarrow> 'sk STSServerState \<Rightarrow> 'sk round pc" where
  "pc_fetch c a Guest rd st =
     (case fetch_next_request (c_wincode c) (c_max_frame c) (rd_select rd) a of
        Inl e \<Rightarrow> Ended (Inl (HandlerError.Network e))
      | Inr None \<Rightarrow> Ended (Inr (closed_reason st))
      | Inr (Some request) \<Rightarrow> guest_dispatch rd request)"
| "pc_fetch c a (Member se) rd st =
     (case fetch_next_request (c_wincode c) (c_max_frame c) (rd_select rd) (se_address se) of
        Inl e \<Rightarrow> LeaveSession se (Inl (HandlerError.Network e))
      | Inr None \<Rightarrow> LeaveSession se (Inr (ClosedStream (closed_reason st)))
      | Inr (Some request) \<Rightarrow> member_dispatch se rd request)"
| "pc_fetch c a pc rd st = pc"

text \<open>What an answer of the database or of the signer makes of a request.\<close>

definition answer :: "Session \<Rightarrow> 'sk round \<Rightarrow> HandlerError + Response \<Rightarrow> 'sk round pc" where
  "answer se rd r = (case r of Inl e \<Rightarrow> LeaveSession se (Inl e) | Inr resp \<Rightarrow> MemberReply se rd resp False)"

fun leave :: "HandlerError + ClosedSessionReason \<Rightarrow> 'sk round pc" where
  "leave (Inl e) = Ended (Inl e)"
| "leave (Inr LoggedOut) = Guest"
| "leave (Inr (ClosedStream reason)) = Ended (Inr reason)"

fun pc_step ::
    "('h, 'sk, 'pk, 'ph) crates \<Rightarrow> SocketAddr \<Rightarrow> 'sk round pc \<Rightarrow> 'sk STSServerState
     \<Rightarrow> 'sk round pc \<times> 'sk STSServerState \<times> Response list" where
  "pc_step c a (LoginVerify rd u pw) st =
     (case verify_user_password (c_argon2 c) (rd_sql rd 0) (st_database st) u pw of
        Inr _ \<Rightarrow> LoginInsert rd u
      | Inl (AuthenticationError.InternalDataBase e) \<Rightarrow> Ended (Inl (Domain None (InternalError.Database e)))
      | Inl _ \<Rightarrow> GuestReply rd (LoginFailed InvalidCredentials) None, st, [])"
| "pc_step c a (LoginInsert rd u) st =
     (if u \<notin> st_logged_users st
      then (GuestReply rd Ok (Some (Session_bundle a u)),
            st\<lparr>st_logged_users := insert u (st_logged_users st)\<rparr>, [])
      else (GuestReply rd (LoginFailed LoginError.AlreadyLoggedIn) None, st, []))"
| "pc_step c a (SignUpRegister rd u pw) st =
     (let (result, db) = try_register_user (c_argon2 c) (rd_sql rd 0) (rd_salt rd) (st_database st)
                           u pw (c_show_ip c (addr_ip a))
      in (case result of
            Inr _ \<Rightarrow> GuestReply rd Ok None
          | Inl (RegistrationError.InternalDataBase e) \<Rightarrow> Ended (Inl (Domain None (InternalError.Database e)))
          | Inl (UserAlreadyExists _) \<Rightarrow> GuestReply rd (SignInFailed UsernameAlreadyTaken) None,
          st\<lparr>st_database := db\<rparr>, []))"
| "pc_step c a (GuestReply rd response started) st =
     (case send_response (c_wincode c) a (rd_send rd) response of
        Inl e \<Rightarrow> (Ended (Inl e), st, [])
      | Inr _ \<Rightarrow> (case started of None \<Rightarrow> Guest | Some se \<Rightarrow> Member se, st, [response]))"
| "pc_step c a (SignCharge se rd h) st =
     (case subtract_user_tokens (rd_sql rd 0) (st_database st) (se_username se) 1 of
        (Inr _, db) \<Rightarrow> (SignTime se rd h, st\<lparr>st_database := db\<rparr>, [])
      | (Inl e, db) \<Rightarrow>
          (answer se rd (case e of
             InsufficientTokens \<Rightarrow> Inr NotEnoughTokens
           | SubtractTokensError.UserDoesNotExist \<Rightarrow>
               Inl (Domain (Some (se_username se)) UserShouldExistButWasNotFound)
           | SubtractTokensError.InternalDataBase e \<Rightarrow>
               Inl (Domain (Some (se_username se)) (InternalError.Database e))),
           st\<lparr>st_database := db\<rparr>, []))"
| "pc_step c a (SignTime se rd h) st =
     (case duration_since_epoch (time_now (st_time_oracle st) (rd_now rd)) of
        None \<Rightarrow> LeaveSession se (Inl (Domain (Some (se_username se)) ClockStaggered))
      | Some ts \<Rightarrow>
          (let timestamp = Timestamp_new (of_nat ts)
           in case generate_timestamp_signature (c_crypto c) (rd_spawn rd) (st_signer st)
                     (st_signing_key st) h timestamp of
                Panic \<Rightarrow> TaskPanicked
              | Returns (Inr sign) \<Rightarrow> SignRecord se rd h timestamp sign
              | Returns (Inl _) \<Rightarrow> SignRefund se rd), st, [])"
| "pc_step c a (SignRecord se rd h timestamp sign) st =
     (let (result, db) = add_user_record (rd_sql rd 1) (st_database st) (se_username se) timestamp sign
      in (answer se rd (case result of
            Inl AddRecordError.UserDoesNotExist \<Rightarrow>
              Inl (Domain (Some (se_username se)) UserShouldExistButWasNotFound)
          | Inl (AddRecordError.InternalDataBase e) \<Rightarrow>
              Inl (Domain (Some (se_username se)) (InternalError.Database e))
          | Inr _ \<Rightarrow> Inr (Token h sign timestamp)),
          st\<lparr>st_database := db\<rparr>, []))"
| "pc_step c a (SignRefund se rd) st =
     (let (_, db) = add_user_tokens (rd_sql rd 1) (st_database st) (se_username se) 1
      in (MemberReply se rd (OperationError ''Error while performing the operation.'') False,
          st\<lparr>st_database := db\<rparr>, []))"
| "pc_step c a (PurchaseAdd se rd tokens) st =
     (let (result, db) = add_user_tokens (rd_sql rd 0) (st_database st) (se_username se) tokens
      in (answer se rd (case result of
            Inr new_token_count \<Rightarrow> Inr (TokenCount new_token_count)
          | Inl TokenOverflow \<Rightarrow> Inr TokenAmountTooHigh
          | Inl AddTokensError.UserDoesNotExist \<Rightarrow>
              Inl (Domain (Some (se_username se)) UserShouldExistButWasNotFound)
          | Inl (AddTokensError.InternalDataBase e) \<Rightarrow>
              Inl (Domain (Some (se_username se)) (InternalError.Database e))),
          st\<lparr>st_database := db\<rparr>, []))"
| "pc_step c a (CountTokens se rd) st =
     (answer se rd (case get_user_tokens (rd_sql rd 0) (st_database st) (se_username se) of
        Inr n_tokens \<Rightarrow> Inr (TokenCount n_tokens)
      | Inl GetTokensError.UserDoesNotExist \<Rightarrow>
          Inl (Domain (Some (se_username se)) UserShouldExistButWasNotFound)
      | Inl (TokenIntegrityCheckViolated user amount) \<Rightarrow>
          Inl (Domain (Some (se_username se)) (IntegrityViolation
            (''invalid token amount for user '' @ user @ '': '' @ show_int (sint amount))))
      | Inl (GetTokensError.InternalDataBase e) \<Rightarrow>
          Inl (Domain (Some (se_username se)) (InternalError.Database e))), st, [])"
| "pc_step c a (ReadHistory se rd) st =
     (answer se rd (case get_user_history (c_hex c) (rd_sql rd 0) (st_database st) (se_username se) of
        Inr history \<Rightarrow> Inr (Response.History history)
      | Inl UserHistoryError.UserDoesNotExist \<Rightarrow>
          Inl (Domain (Some (se_username se)) UserShouldExistButWasNotFound)
      | Inl (TimestampIntegrityViolated token) \<Rightarrow>
          Inl (Domain (Some (se_username se)) (IntegrityViolation (''invalid timestamp of '' @ token)))
      | Inl (HashIntegrityViolated hash) \<Rightarrow>
          Inl (Domain (Some (se_username se)) (IntegrityViolation (''invalid hash: '' @ hash)))
      | Inl (UserHistoryError.InternalDataBase e) \<Rightarrow>
          Inl (Domain (Some (se_username se)) (InternalError.Database e))), st, [])"
| "pc_step c a (MemberReply se rd response has_to_logout) st =
     (case send_response (c_wincode c) (se_address se) (rd_send rd) response of
        Inl e \<Rightarrow> (LeaveSession se (Inl e), st, [])
      | Inr _ \<Rightarrow> (if has_to_logout then LeaveSession se (Inr LoggedOut) else Member se, st, [response]))"
| "pc_step c a (LeaveSession se r) st = (leave r, logged_users_remove (se_username se) st, [])"
| "pc_step c a pc st = (pc, st, [])"

text \<open>
  \<open>weight\<close>: a bound on the steps until the handler waits or has ended. \<open>access\<close>: the number
  under which a round lists the interference before the access.
\<close>

fun weight :: "'sk round pc \<Rightarrow> nat" where
  "weight Guest = 2"
| "weight (LoginVerify _ _ _) = 7"
| "weight (LoginInsert _ _) = 6"
| "weight (SignUpRegister _ _ _) = 6"
| "weight (GuestReply _ _ _) = 5"
| "weight (Member _) = 4"
| "weight (SignCharge _ _ _) = 8"
| "weight (SignTime _ _ _) = 7"
| "weight (SignRecord _ _ _ _ _) = 6"
| "weight (SignRefund _ _) = 6"
| "weight (PurchaseAdd _ _ _) = 6"
| "weight (CountTokens _ _) = 6"
| "weight (ReadHistory _ _) = 6"
| "weight (MemberReply _ _ _ _) = 5"
| "weight (LeaveSession _ _) = 3"
| "weight (Ended _) = 1"
| "weight TaskPanicked = 1"

fun waits :: "'sk round pc \<Rightarrow> bool" where
  "waits Guest = True"
| "waits (Member _) = True"
| "waits _ = False"

fun over :: "'sk round pc \<Rightarrow> bool" where
  "over (Ended _) = True"
| "over TaskPanicked = True"
| "over _ = False"

fun access :: "'sk round pc \<Rightarrow> nat option" where
  "access (LoginVerify _ _ _) = Some 1"
| "access (LoginInsert _ _) = Some 2"
| "access (SignUpRegister _ _ _) = Some 1"
| "access (GuestReply _ _ _) = Some 4"
| "access (SignCharge _ _ _) = Some 1"
| "access (SignTime _ _ _) = Some 2"
| "access (SignRecord _ _ _ _ _) = Some 3"
| "access (SignRefund _ _) = Some 3"
| "access (PurchaseAdd _ _ _) = Some 1"
| "access (CountTokens _ _) = Some 1"
| "access (ReadHistory _ _) = Some 1"
| "access (MemberReply _ _ _ _) = Some 4"
| "access (LeaveSession _ _) = Some 5"
| "access _ = None"

definition interfere :: "'sk round \<Rightarrow> 'sk round pc \<Rightarrow> 'sk STSServerState \<Rightarrow> 'sk STSServerState" where
  "interfere rd pc st = (case access pc of Some i \<Rightarrow> rd_env rd i st | None \<Rightarrow> st)"

lemma pc_step_weight: "\<not> waits pc \<Longrightarrow> \<not> over pc \<Longrightarrow> weight (fst (pc_step c a pc st)) < weight pc"
proof (cases pc)
  case (LeaveSession se r)
  then show ?thesis by (cases "(c, a, pc, st)" rule: pc_step.cases; cases r rule: leave.cases) simp_all
qed (auto simp: answer_def Let_def split: sum.splits option.splits prod.splits outcome.splits
    AuthenticationError.splits RegistrationError.splits)

section \<open>Running the machine alone\<close>

text \<open>A round: the machine steps until it waits or is over; then the rounds in turn.\<close>

function settle ::
    "('h, 'sk, 'pk, 'ph) crates \<Rightarrow> SocketAddr \<Rightarrow> 'sk round \<Rightarrow> 'sk round pc \<Rightarrow> 'sk STSServerState
     \<Rightarrow> 'sk round pc \<times> 'sk STSServerState \<times> Response list" where
  "settle c a rd pc st =
     (if waits pc \<or> over pc then (pc, st, [])
      else let (pc1, st1, sent1) = pc_step c a pc (interfere rd pc st);
               (pc2, st2, sent2) = settle c a rd pc1 st1
           in (pc2, st2, sent1 @ sent2))"
  by pat_completeness auto
termination
proof (relation "measure (\<lambda>(c, a, rd, pc, st). weight pc)")
  fix c :: "('h, 'sk, 'pk, 'ph) crates" and a rd pc st x pc1 y st1 sent1
  assume "\<not> (waits pc \<or> over pc)" "x = pc_step c a pc (interfere rd pc st)" "(pc1, y) = x" "(st1, sent1) = y"
  then show "((c, a, rd, pc1, st1), (c, a, rd, pc, st)) \<in> measure (\<lambda>(c, a, rd, pc, st). weight pc)"
    using pc_step_weight[of pc c a "interfere rd pc st"] by (metis case_prod_conv de_Morgan_disj fst_conv in_measure)
qed simp

declare settle.simps [simp del]

fun run_result :: "'sk round pc \<Rightarrow> 'sk round list \<Rightarrow> (HandlerError + ClosedStreamReason, 'sk round) run" where
  "run_result (Ended r) rest = Finished r rest"
| "run_result TaskPanicked rest = Panicked"
| "run_result _ rest = Waiting"

fun conn_run ::
    "('h, 'sk, 'pk, 'ph) crates \<Rightarrow> SocketAddr \<Rightarrow> 'sk round list \<Rightarrow> 'sk round pc \<Rightarrow> 'sk STSServerState
     \<Rightarrow> (HandlerError + ClosedStreamReason, 'sk round) run \<times> 'sk STSServerState \<times> Response list" where
  "conn_run c a [] pc st = (run_result pc [], st, [])"
| "conn_run c a (rd # rds) pc st =
     (if over pc then (run_result pc (rd # rds), st, [])
      else let st0 = rd_env rd 0 st;
               (pc1, st1, sent1) = settle c a rd (pc_fetch c a pc rd st0) st0;
               (result, st2, sent2) = conn_run c a rds pc1 st1
           in (result, st2, sent1 @ sent2))"

section \<open>The machine is the handler\<close>

lemma settle_stop [simp]: "waits pc \<or> over pc \<Longrightarrow> settle c a rd pc st = (pc, st, [])"
  by (subst settle.simps) simp

lemma settle_go:
  "\<not> waits pc \<Longrightarrow> \<not> over pc \<Longrightarrow> settle c a rd pc st =
     (let (pc1, st1, sent1) = pc_step c a pc (interfere rd pc st);
          (pc2, st2, sent2) = settle c a rd pc1 st1
      in (pc2, st2, sent1 @ sent2))"
  by (subst settle.simps) simp

lemma over_run [simp]: "over pc \<Longrightarrow> conn_run c a rds pc st = (run_result pc rds, st, [])"
  by (cases rds) simp_all

lemma settle_MemberReply:
  "settle c a rd (MemberReply se rd response out) st =
     (case send_response (c_wincode c) (se_address se) (rd_send rd) response of
        Inl e \<Rightarrow> (Ended (Inl e), logged_users_remove (se_username se) (rd_env rd 5 (rd_env rd 4 st)), [])
      | Inr _ \<Rightarrow> if out then (Guest, logged_users_remove (se_username se) (rd_env rd 5 (rd_env rd 4 st)), [response])
                else (Member se, rd_env rd 4 st, [response]))"
  by (simp add: settle_go interfere_def split: sum.split)

lemma settle_LeaveSession:
  "settle c a rd (LeaveSession se r) st = (leave r, logged_users_remove (se_username se) (rd_env rd 5 st), [])"
  by (cases r rule: leave.cases) (simp_all add: settle_go interfere_def)

definition member_outcome ::
    "('h, 'sk, 'pk, 'ph) crates \<Rightarrow> SocketAddr \<Rightarrow> 'sk round \<Rightarrow> Session
     \<Rightarrow> (HandlerError + Response \<times> bool) outcome \<times> 'sk STSServerState
     \<Rightarrow> 'sk round pc \<times> 'sk STSServerState \<times> Response list" where
  "member_outcome c a rd se q =
     (case q of
        (Panic, st) \<Rightarrow> (TaskPanicked, st, [])
      | (Returns (Inl e), st) \<Rightarrow> settle c a rd (LeaveSession se (Inl e)) st
      | (Returns (Inr (response, out)), st) \<Rightarrow> settle c a rd (MemberReply se rd response out) st)"

lemma settle_answer:
  "settle c a rd (answer se rd r) st = member_outcome c a rd se (Returns (map_sum id (\<lambda>x. (x, False)) r), st)"
  by (cases r) (simp_all only: answer_def member_outcome_def sum.case map_sum.simps id_apply
      prod.case outcome.case)

fun replies :: "'sk round pc \<Rightarrow> bool" where
  "replies (GuestReply _ _ _) = True"
| "replies (MemberReply _ _ _ _) = True"
| "replies _ = False"

lemma pc_step_silent: "\<not> replies pc \<Longrightarrow> snd (snd (pc_step c a pc st)) = []"
  by (cases pc) (auto simp: Let_def split: prod.splits sum.splits)

lemma settle_access:
  assumes "\<not> waits pc" and "\<not> over pc" and "\<not> replies pc"
  shows "settle c a rd pc st = settle c a rd (fst (pc_step c a pc (interfere rd pc st)))
    (fst (snd (pc_step c a pc (interfere rd pc st))))"
  using settle_go[OF assms(1,2), of c a rd st] pc_step_silent[OF assms(3), of c a "interfere rd pc st"]
  by (simp add: split_beta)

lemma settle_SignRecord:
  "settle c a rd (SignRecord se rd h ts sign) st =
     (let u = se_username se; st = rd_env rd 3 st;
          (result, db) = add_user_record (rd_sql rd 1) (st_database st) u ts sign
      in member_outcome c a rd se
           (Returns (case result of
              Inl AddRecordError.UserDoesNotExist \<Rightarrow> Inl (Domain (Some u) UserShouldExistButWasNotFound)
            | Inl (AddRecordError.InternalDataBase e) \<Rightarrow> Inl (Domain (Some u) (InternalError.Database e))
            | Inr _ \<Rightarrow> Inr (Token h sign ts, False)),
            st\<lparr>st_database := db\<rparr>))"
  by (simp add: settle_access interfere_def Let_def split_beta settle_answer
      split: sum.split AddRecordError.split)

lemma settle_SignRefund:
  "settle c a rd (SignRefund se rd) st =
     (let st = rd_env rd 3 st;
          (_, db) = add_user_tokens (rd_sql rd 1) (st_database st) (se_username se) 1
      in settle c a rd (MemberReply se rd (OperationError ''Error while performing the operation.'') False)
           (st\<lparr>st_database := db\<rparr>))"
  by (simp add: settle_access[of "SignRefund se rd"] interfere_def Let_def split_beta)

lemma settle_SignTime:
  "settle c a rd (SignTime se rd h) st =
     settle c a rd (fst (pc_step c a (SignTime se rd h) (rd_env rd 2 st))) (rd_env rd 2 st)"
  by (simp add: settle_access[of "SignTime se rd h"] interfere_def)

lemma settle_SignHash:
  "settle c a rd (SignCharge se rd h) st = member_outcome c a rd se (session_sign_hash c se rd st h)"
proof -
  obtain r db where
    q: "subtract_user_tokens (rd_sql rd 0) (st_database (rd_env rd 1 st)) (se_username se) 1 = (r, db)"
    by fastforce
  show ?thesis
  proof (cases r)
    case (Inl e)
    with q show ?thesis
      by (simp add: settle_access[of "SignCharge se rd h"] interfere_def settle_answer
          session_sign_hash_def split: SubtractTokensError.split)
  next
    case (Inr x)
    with q have "settle c a rd (SignCharge se rd h) st =
        settle c a rd (SignTime se rd h) ((rd_env rd 1 st)\<lparr>st_database := db\<rparr>)"
      by (simp add: settle_access[of "SignCharge se rd h"] interfere_def)
    with Inr q show ?thesis
      by (simp add: settle_SignTime settle_SignRecord settle_SignRefund session_sign_hash_def
          member_outcome_def Let_def split_beta
          split: option.split outcome.split sum.split AddRecordError.split)
  qed
qed

lemma settle_member:
  "settle c a rd (member_dispatch se rd req) st = member_outcome c a rd se (session_request c se rd st req)"
proof (cases req)
  case (PurchaseTokens n)
  then show ?thesis
    by (simp add: settle_access[of "PurchaseAdd se rd n"] interfere_def Let_def split_beta settle_answer
        session_purchase_def split: sum.split AddTokensError.split)
next
  case HowManyTokensDoIHave
  then show ?thesis
    by (simp add: settle_access[of "CountTokens se rd"] interfere_def settle_answer
        session_token_count_def split: sum.split GetTokensError.split)
next
  case History
  then show ?thesis
    by (simp add: settle_access[of "ReadHistory se rd"] interfere_def settle_answer
        session_history_def split: sum.split UserHistoryError.split)
qed (simp_all add: settle_SignHash member_outcome_def)

definition guest_outcome ::
    "('h, 'sk, 'pk, 'ph) crates \<Rightarrow> SocketAddr \<Rightarrow> 'sk round
     \<Rightarrow> (HandlerError + Response \<times> Session option) \<times> 'sk STSServerState
     \<Rightarrow> 'sk round pc \<times> 'sk STSServerState \<times> Response list" where
  "guest_outcome c a rd q =
     (case q of
        (Inl e, st) \<Rightarrow> (Ended (Inl e), st, [])
      | (Inr (response, started), st) \<Rightarrow> settle c a rd (GuestReply rd response started) st)"

lemma settle_GuestReply:
  "settle c a rd (GuestReply rd response started) st =
     (case send_response (c_wincode c) a (rd_send rd) response of
        Inl e \<Rightarrow> (Ended (Inl e), rd_env rd 4 st, [])
      | Inr _ \<Rightarrow> (case started of None \<Rightarrow> Guest | Some se \<Rightarrow> Member se, rd_env rd 4 st, [response]))"
  by (simp add: settle_go interfere_def split: sum.split option.split)

lemma settle_guest:
  "settle c a rd (guest_dispatch rd req) st = guest_outcome c a rd (untrusted_request c a rd st req)"
proof (cases req)
  case (Login u pw)
  then show ?thesis
    by (simp add: settle_access[of "LoginVerify rd u pw"] settle_access[of "LoginInsert rd u"] interfere_def
        guest_outcome_def untrusted_login_def Let_def split: option.split sum.split AuthenticationError.split)
next
  case (SignUp u pw)
  then show ?thesis
    by (simp add: settle_access[of "SignUpRegister rd u pw"] interfere_def guest_outcome_def
        untrusted_sign_up_def Let_def split_beta split: option.split sum.split RegistrationError.split)
qed (simp_all add: guest_outcome_def)

definition after_session ::
    "('h, 'sk, 'pk, 'ph) crates \<Rightarrow> SocketAddr \<Rightarrow> Session
     \<Rightarrow> (HandlerError + ClosedSessionReason, 'sk round) run \<times> 'sk STSServerState \<times> Response list
     \<Rightarrow> (HandlerError + ClosedStreamReason, 'sk round) run \<times> 'sk STSServerState \<times> Response list" where
  "after_session c a se q =
     (case q of
        (Waiting, st, sent) \<Rightarrow> (Waiting, st, sent)
      | (Panicked, st, sent) \<Rightarrow> (Panicked, st, sent)
      | (Finished r rest, st, sent) \<Rightarrow>
          (let (result, st, sent') = conn_run c a rest (leave r) (logged_users_remove (se_username se) st)
           in (result, st, sent @ sent')))"

lemma conn_run_Member:
  "conn_run c a rds (Member se) st = after_session c a se (session_handler c se rds st)"
proof (induction rds arbitrary: st)
  case (Cons rd rds)
  show ?case
    by (auto simp: Let_def split_beta settle_member settle_LeaveSession settle_MemberReply Cons.IH
        member_outcome_def after_session_def
        split: sum.split option.split outcome.split run.split prod.split)
qed (simp add: after_session_def)

lemma conn_run_handler: "conn_run c a rds Guest st = conn_handler_core c a rds st"
proof (induction "length rds" arbitrary: rds st rule: less_induct)
  case less
  show ?case
  proof (cases rds)
    case (Cons rd rds')
    have IH: "conn_run c a rds' Guest st' = conn_handler_core c a rds' st'" for st'
      using less Cons by simp
    have IH': "conn_run c a rest Guest st3 = conn_handler_core c a rest st3"
      if "session_handler c se rds' st1 = (Finished r rest, st2, sent)" for se st1 r rest st2 sent st3
      using less Cons session_handler_rest[OF that] by simp
    show ?thesis
      unfolding Cons
      by (auto simp: Let_def settle_guest settle_GuestReply IH IH' conn_run_Member guest_outcome_def
          after_session_def split: sum.split option.split run.split prod.split ClosedSessionReason.split)
  qed simp
qed

section \<open>Properties\<close>


end
