(* ===== verification/Server_Run.thy ===== *)
theory Server_Run
  imports Handler_Steps Server
begin

text \<open>
  The running server, \<^verbatim>\<open>run\<close>, \<^verbatim>\<open>run_with_signal\<close> and \<^verbatim>\<open>accept_loop\<close> of
  \<^verbatim>\<open>server/src/server.rs\<close>, with all its tasks: the accept loop, one task per accepted
  connection, the clock worker and the listener for the shutdown signal. A step of the system
  is one step of one task; the tasks are interleaved in every possible way. A step has a label
  that says which task moves and what it gets from outside.
\<close>

section \<open>System\<close>

datatype 'sk conn_task = Handshaking | Serving "'sk round pc" | TaskDone

datatype accept_phase = Binding | Accepting | Draining | Stopped "STSServerRunError + unit"

record 'sk system =
  sy_state :: "'sk STSServerState"
  sy_tasks :: "(SocketAddr \<times> 'sk conn_task) list"
  sy_phase :: accept_phase
  sy_worker :: bool
  sy_signal :: bool

datatype 'sk label =
    Bound
  | BindFails io_error
  | AcceptsConnection SocketAddr
  | AcceptError io_error
  | AcceptBreaks
  | HandshakeOk nat
  | HandshakeError nat io_error
  | Fetches nat "'sk round"
  | Accesses nat
  | Exits nat
  | ClockSets i64
  | ClockFails
  | ClockPanics
  | SignalArrives
  | TrackerDone

text \<open>
  \<^verbatim>\<open>run_with_signal\<close> spawns the worker, if there is one, and the listener, and enters the accept
  loop, which binds first. Both kinds of server run the same way.
\<close>

definition run_with_signal :: "('tls, 'sk, 'sock) STSServerInstance \<Rightarrow> 'sk system" where
  "run_with_signal inst =
     \<lparr>sy_state = si_state inst, sy_tasks = [], sy_phase = Binding,
      sy_worker = (si_time_oracle_worker inst \<noteq> None), sy_signal = True\<rparr>"

fun STSServer_run :: "('tls, 'sk, 'sock) STSServer \<Rightarrow> 'sk system" where
  "STSServer_run (Accelerated server) = run_with_signal server"
| "STSServer_run (Slow server) = run_with_signal server"

text \<open>The token is shared by all tasks. A task that ends cancels it when the network is down.\<close>

definition cancel :: "'sk STSServerState \<Rightarrow> 'sk STSServerState" where
  "cancel st = st\<lparr>st_cancel_token := True\<rparr>"

fun task_exit :: "'sk round pc \<Rightarrow> 'sk STSServerState \<Rightarrow> 'sk STSServerState" where
  "task_exit (Ended (Inl (HandlerError.Network ServerNetworkDown))) st = cancel st"
| "task_exit _ st = st"

definition task_at :: "'sk system \<Rightarrow> nat \<Rightarrow> 'sk conn_task" where
  "task_at s i = snd (sy_tasks s ! i)"

definition address_at :: "'sk system \<Rightarrow> nat \<Rightarrow> SocketAddr" where
  "address_at s i = fst (sy_tasks s ! i)"

definition set_task :: "nat \<Rightarrow> 'sk conn_task \<Rightarrow> 'sk STSServerState \<Rightarrow> 'sk system \<Rightarrow> 'sk system" where
  "set_task i t st s = s\<lparr>sy_state := st, sy_tasks := (sy_tasks s)[i := (address_at s i, t)]\<rparr>"

fun stopped :: "accept_phase \<Rightarrow> bool" where
  "stopped (Stopped _) = True"
| "stopped _ = False"

inductive run_step ::
    "('h, 'sk, 'pk, 'ph) crates \<Rightarrow> SocketAddr \<Rightarrow> 'sk system \<Rightarrow> 'sk label \<Rightarrow> 'sk system \<Rightarrow> bool"
  for c address where
  bound: "sy_phase s = Binding \<Longrightarrow> run_step c address s Bound (s\<lparr>sy_phase := Accepting\<rparr>)"
| bind_fails: "sy_phase s = Binding \<Longrightarrow>
    run_step c address s (BindFails e) (s\<lparr>sy_phase := Stopped (Inl (bind_error address e))\<rparr>)"
| accepts: "sy_phase s = Accepting \<Longrightarrow>
    run_step c address s (AcceptsConnection a) (s\<lparr>sy_tasks := sy_tasks s @ [(a, Handshaking)]\<rparr>)"
| accept_error: "sy_phase s = Accepting \<Longrightarrow> run_step c address s (AcceptError e) s"
| accept_breaks: "sy_phase s = Accepting \<Longrightarrow> st_cancel_token (sy_state s) \<Longrightarrow>
    run_step c address s AcceptBreaks (s\<lparr>sy_phase := Draining\<rparr>)"
| handshake_ok: "i < length (sy_tasks s) \<Longrightarrow> task_at s i = Handshaking \<Longrightarrow>
    run_step c address s (HandshakeOk i) (set_task i (Serving Guest) (sy_state s) s)"
| handshake_error: "i < length (sy_tasks s) \<Longrightarrow> task_at s i = Handshaking \<Longrightarrow>
    run_step c address s (HandshakeError i e) (set_task i TaskDone (sy_state s) s)"
| fetches: "i < length (sy_tasks s) \<Longrightarrow> task_at s i = Serving pc \<Longrightarrow> waits pc \<Longrightarrow>
    rd_select rd = Cancelled \<longrightarrow> st_cancel_token (sy_state s) \<Longrightarrow>
    run_step c address s (Fetches i rd)
      (set_task i (Serving (pc_fetch c (address_at s i) pc rd (sy_state s))) (sy_state s) s)"
| accesses: "i < length (sy_tasks s) \<Longrightarrow> task_at s i = Serving pc \<Longrightarrow> \<not> waits pc \<Longrightarrow> \<not> over pc \<Longrightarrow>
    pc_step c (address_at s i) pc (sy_state s) = (pc', st', sent) \<Longrightarrow>
    run_step c address s (Accesses i) (set_task i (Serving pc') st' s)"
| exits: "i < length (sy_tasks s) \<Longrightarrow> task_at s i = Serving pc \<Longrightarrow> over pc \<Longrightarrow>
    run_step c address s (Exits i) (set_task i TaskDone (task_exit pc (sy_state s)) s)"
| clock_sets: "sy_worker s \<Longrightarrow> \<not> stopped (sy_phase s) \<Longrightarrow> run_step c address s (ClockSets n)
    (s\<lparr>sy_state := (sy_state s)\<lparr>st_time_oracle := \<lparr>offset_nanos = n\<rparr>\<rparr>\<rparr>)"
| clock_fails: "sy_worker s \<Longrightarrow> \<not> stopped (sy_phase s) \<Longrightarrow>
    run_step c address s ClockFails (s\<lparr>sy_state := cancel (sy_state s), sy_worker := False\<rparr>)"
| clock_panics: "sy_worker s \<Longrightarrow> \<not> stopped (sy_phase s) \<Longrightarrow>
    run_step c address s ClockPanics (s\<lparr>sy_worker := False\<rparr>)"
| signal_arrives: "sy_signal s \<Longrightarrow> \<not> stopped (sy_phase s) \<Longrightarrow>
    run_step c address s SignalArrives (s\<lparr>sy_state := cancel (sy_state s), sy_signal := False\<rparr>)"
| tracker_done: "sy_phase s = Draining \<Longrightarrow> \<forall>t \<in> set (sy_tasks s). snd t = TaskDone \<Longrightarrow>
    run_step c address s TrackerDone (s\<lparr>sy_phase := Stopped (Inr ())\<rparr>)"

definition sys_step :: "('h, 'sk, 'pk, 'ph) crates \<Rightarrow> SocketAddr \<Rightarrow> 'sk system \<Rightarrow> 'sk system \<Rightarrow> bool" where
  "sys_step c address s t \<longleftrightarrow> (\<exists>l. run_step c address s l t)"

section \<open>Who holds a session\<close>

fun owner :: "'sk round pc \<Rightarrow> string option" where
  "owner (GuestReply _ _ (Some se)) = Some (se_username se)"
| "owner (Member se) = Some (se_username se)"
| "owner (SignCharge se _ _) = Some (se_username se)"
| "owner (SignTime se _ _) = Some (se_username se)"
| "owner (SignRecord se _ _ _ _) = Some (se_username se)"
| "owner (SignRefund se _) = Some (se_username se)"
| "owner (PurchaseAdd se _ _) = Some (se_username se)"
| "owner (CountTokens se _) = Some (se_username se)"
| "owner (ReadHistory se _) = Some (se_username se)"
| "owner (MemberReply se _ _ _) = Some (se_username se)"
| "owner (LeaveSession se _) = Some (se_username se)"
| "owner _ = None"

fun task_owner :: "'sk conn_task \<Rightarrow> string option" where
  "task_owner (Serving pc) = owner pc"
| "task_owner _ = None"

definition owners :: "'sk system \<Rightarrow> string option list" where
  "owners s = map (task_owner \<circ> snd) (sy_tasks s)"

text \<open>
  \<open>held\<close>: no user is held twice, and whoever is held is logged in. \<open>own_change\<close>: what a step may
  do with what its task holds and with the logged users.
\<close>

definition held :: "string option list \<Rightarrow> string set \<Rightarrow> bool" where
  "held os L \<longleftrightarrow>
     (\<forall>i j u. i < length os \<longrightarrow> j < length os \<longrightarrow> os ! i = Some u \<longrightarrow> os ! j = Some u \<longrightarrow> i = j) \<and>
     (\<forall>u. Some u \<in> set os \<longrightarrow> u \<in> L)"

definition own_change :: "string option \<Rightarrow> string option \<Rightarrow> string set \<Rightarrow> string set \<Rightarrow> bool" where
  "own_change x y L L' \<longleftrightarrow> (y = x \<or> y = None) \<and> L' = L \<or>
     (\<exists>u. x = None \<and> y = Some u \<and> u \<notin> L \<and> L' = insert u L) \<or>
     (\<exists>u. x = Some u \<and> y = None \<and> L' = L - {u})"

lemma held_update:
  assumes "held os L" and "i < length os" and "own_change (os ! i) y L L'"
  shows "held (os[i := y]) L'"
proof -
  have excl: "j = k" if "j < length os" "k < length os" "os ! j = Some u" "os ! k = Some u" for j k u
    using assms(1) that unfolding held_def by blast
  have log: "u \<in> L" if "j < length os" "os ! j = Some u" for j u
    using assms(1) that unfolding held_def by (metis nth_mem)
  have L': "u \<in> L'" if "j < length os" "j \<noteq> i" "os ! j = Some u" for j u
    using assms(3) log[OF that(1,3)] excl[OF that(1) assms(2) that(3)] that(2)
    unfolding own_change_def by auto
  have new: "y = os ! i \<or> y = None \<or> (\<exists>u. y = Some u \<and> u \<notin> L)" using assms(3) unfolding own_change_def by auto
  have yL: "u \<in> L'" if "y = Some u" for u
    using assms(2,3) log[OF assms(2)] that unfolding own_change_def by auto
  have other: "j = i" if "j < length os" "os ! j = Some u" "y = Some u" for j u
    using new that log[OF that(1,2)] excl[OF that(1) assms(2) that(2)] by auto
  show ?thesis
    unfolding held_def
  proof (intro conjI allI impI)
    fix j k u
    assume jk: "j < length (os[i := y])" "k < length (os[i := y])"
      and u: "os[i := y] ! j = Some u" "os[i := y] ! k = Some u"
    show "j = k"
    proof (cases "j = i \<or> k = i")
      case True
      then have "y = Some u" using jk u by (auto simp: nth_list_update)
      then have "j = i" "k = i" using jk u by (metis length_list_update nth_list_update_neq other)+
      then show ?thesis by simp
    next
      case False
      then show ?thesis using jk u by (metis excl length_list_update nth_list_update_neq)
    qed
  next
    fix u
    assume "Some u \<in> set (os[i := y])"
    then obtain j where "j < length os" "os[i := y] ! j = Some u" by (auto simp: in_set_conv_nth)
    then show "u \<in> L'" using L'[of j u] yL by (cases "j = i") auto
  qed
qed

section \<open>What a program point knows\<close>

text \<open>
  A login in progress is for a user that exists; a signature about to be recorded was made with
  the key of the server; a token about to be sent is also in the history of its user.
\<close>

definition issued :: "('h, 'sk, 'pk, 'ph) crates \<Rightarrow> 'sk STSServerState \<Rightarrow> Sha256Hash \<Rightarrow> Timestamp \<Rightarrow> RsaSignature \<Rightarrow> bool" where
  "issued c st h ts sign \<longleftrightarrow> sign_with_timestamp (c_crypto c) (st_signing_key st) h ts = Returns (Inr sign)"

fun reply_ok :: "('h, 'sk, 'pk, 'ph) crates \<Rightarrow> 'sk STSServerState \<Rightarrow> string \<Rightarrow> Response \<Rightarrow> bool" where
  "reply_ok c st u (Token h sign ts) \<longleftrightarrow> issued c st h ts sign \<and>
     \<lparr>hr_sign = sign, hr_timestamp = ts\<rparr> \<in> user_records (st_database st) u"
| "reply_ok c st u _ \<longleftrightarrow> True"

fun pc_ok :: "('h, 'sk, 'pk, 'ph) crates \<Rightarrow> 'sk STSServerState \<Rightarrow> 'sk round pc \<Rightarrow> bool" where
  "pc_ok c st (LoginInsert rd u) \<longleftrightarrow> find_user (st_database st) u \<noteq> None"
| "pc_ok c st (SignRecord se rd h ts sign) \<longleftrightarrow> issued c st h ts sign"
| "pc_ok c st (MemberReply se rd response out) \<longleftrightarrow> reply_ok c st (se_username se) response"
| "pc_ok c st _ \<longleftrightarrow> True"

lemma db_step_history:
  assumes "db_step ar db db'" and "db_inv db"
  shows "\<exists>hs. db_history db' = db_history db @ hs"
  using assms(1)
proof (cases rule: db_step.cases)
  case (register io salt username pw ip)
  with try_register_user_effect[of ar io salt db username pw ip] show ?thesis by auto
next
  case (credit io username n)
  with add_user_tokens_effect[OF assms(2), of io username n] show ?thesis by auto
next
  case (charge io username n)
  with subtract_user_tokens_effect[OF assms(2), of io username n] show ?thesis by auto
next
  case (log sign io username ts)
  then show ?thesis
    using add_user_record_ok_iff[of io db username ts sign "()" db'] add_user_record_Inl[of io db username ts sign _ db']
    by (cases "add_user_record io db username ts sign"; cases "fst (add_user_record io db username ts sign)") auto
qed

lemma acts_records:
  assumes "(server_act c)\<^sup>*\<^sup>* s t" and "server_inv s"
  shows "user_records (st_database s) u \<subseteq> user_records (st_database t) u"
  using assms
proof (induction rule: rtranclp_induct)
  case (step y z)
  have inv: "server_inv y" using acts_inv[OF step(1) step(4)] .
  have "user_records (st_database y) u \<subseteq> user_records (st_database z) u"
    using step(2)
  proof (cases rule: server_act.cases)
    case (act_database db)
    have "db_inv (st_database y)" using inv by (simp add: server_inv_def)
    from db_step_history[OF act_database(2) this] act_database(1) show ?thesis
      by (auto simp: user_records_def)
  qed (simp_all add: logged_users_remove_def)
  with step.IH[OF step(4)] show ?case by blast
qed simp

lemma reply_ok_acts:
  assumes "(server_act c)\<^sup>*\<^sup>* st st'" and "server_inv st" and "reply_ok c st u r"
  shows "reply_ok c st' u r"
  using assms acts_key[OF assms(1)] acts_records[OF assms(1,2), of u]
  by (cases r) (auto simp: issued_def)

lemma pc_ok_acts:
  assumes "(server_act c)\<^sup>*\<^sup>* st st'" and "server_inv st" and "pc_ok c st pc"
  shows "pc_ok c st' pc"
  using assms acts_key[OF assms(1)] acts_find_user[OF assms(1,2)] reply_ok_acts[OF assms(1,2)]
  by (cases pc) (auto simp: issued_def)

section \<open>Steps of one connection\<close>

lemma issued_signature_wf: "issued c st h ts sign \<Longrightarrow> wf_signature sign"
  unfolding issued_def by (rule sign_with_timestamp_wf)

lemma pc_fetch_owner [simp]: "owner (pc_fetch c a pc rd st) = owner pc"
proof (cases "(c, a, pc, rd, st)" rule: pc_fetch.cases)
  case (1 c' a' rd' st')
  have "owner (guest_dispatch rd req) = None" for req
    by (cases "(rd, req)" rule: guest_dispatch.cases) (auto split: option.split)
  with 1 show ?thesis by (auto split: sum.split option.split)
next
  case (2 c' a' se rd' st')
  have "owner (member_dispatch se rd req) = Some (se_username se)" for req
    by (cases req) auto
  with 2 show ?thesis by (auto split: sum.split option.split)
qed auto

lemma pc_fetch_ok: "pc_ok c st pc \<Longrightarrow> pc_ok c st (pc_fetch c a pc rd st)"
proof (cases "(c, a, pc, rd, st)" rule: pc_fetch.cases)
  case (1 c' a' rd' st')
  have "pc_ok c st (guest_dispatch rd req)" for req
    by (cases "(rd, req)" rule: guest_dispatch.cases) (auto split: option.split)
  with 1 show ?thesis by (auto split: sum.split option.split)
next
  case (2 c' a' se rd' st')
  have "pc_ok c st (member_dispatch se rd req)" for req
    by (cases req) auto
  with 2 show ?thesis by (auto split: sum.split option.split)
qed auto

lemma owner_answer [simp]: "owner (answer se rd r) = Some (se_username se)"
  by (simp add: answer_def split: sum.split)

lemma owner_leave [simp]: "owner (leave r) = None"
  by (cases r rule: leave.cases) simp_all

lemma pc_step_owner:
  assumes "pc_step c a pc st = (pc', st', sent)"
  shows "own_change (owner pc) (owner pc') (st_logged_users st) (st_logged_users st')"
  using assms
  by (cases pc)
    (auto simp: own_change_def Let_def logged_users_remove_def Session_bundle_def
      split: sum.splits option.splits prod.splits if_splits outcome.splits
        AuthenticationError.splits RegistrationError.splits)

lemma pc_step_acts:
  assumes "pc_step c a pc st = (pc', st', sent)" and "server_inv st" and "pc_ok c st pc"
  shows "(server_act c)\<^sup>*\<^sup>* st st'"
proof (cases pc)
  case (LoginInsert rd u)
  then show ?thesis using assms by (auto split: if_splits intro: act_login)
next
  case (SignRecord se rd h ts sign)
  then show ?thesis using assms
    by (auto simp: Let_def split: prod.splits intro: acts_log issued_signature_wf)
next
  case (LeaveSession se r)
  then show ?thesis using assms by (auto intro: acts_logout)
qed (use assms(1) in \<open>auto simp: Let_def split: prod.splits sum.splits
      intro: acts_charge acts_credit acts_register\<close>)

lemma answer_ok: "(\<And>resp. r = Inr resp \<Longrightarrow> reply_ok c st (se_username se) resp) \<Longrightarrow> pc_ok c st (answer se rd r)"
  by (cases r) (simp_all add: answer_def)

lemma leave_ok [simp]: "pc_ok c st (leave r)"
  by (cases r rule: leave.cases) simp_all

lemma SignRecord_ok:
  assumes "issued c st h ts sign" and "add_user_record io (st_database st) (se_username se) ts sign = (Inr x, db)"
  shows "reply_ok c (st\<lparr>st_database := db\<rparr>) (se_username se) (Token h sign ts)"
  using assms add_user_record_recorded[OF assms(2) issued_signature_wf[OF assms(1)]] by (simp add: issued_def)

lemma SignTime_ok:
  "generate_timestamp_signature (c_crypto c) spawn (st_signer st) (st_signing_key st) h ts = Returns (Inr sign) \<Longrightarrow>
   issued c st h ts sign"
  unfolding issued_def by (rule any_signer.gen_sound)

lemma pc_step_ok:
  assumes "pc_step c a pc st = (pc', st', sent)" and "pc_ok c st pc"
  shows "pc_ok c st' pc'"
proof (cases pc)
  case (SignRecord se rd h ts sign)
  then show ?thesis using assms
    by (auto simp: Let_def split: prod.splits sum.splits AddRecordError.splits
        intro!: answer_ok SignRecord_ok simp del: reply_ok.simps)
next
  case (SignTime se rd h)
  then show ?thesis using assms
    by (auto simp: Let_def split: option.splits outcome.splits sum.splits intro: SignTime_ok)
qed (use assms in \<open>auto simp: Let_def split: prod.splits sum.splits option.splits if_splits
      AuthenticationError.splits RegistrationError.splits SubtractTokensError.splits AddTokensError.splits
      GetTokensError.splits UserHistoryError.splits dest: verify_user_password_Inr intro!: answer_ok\<close>)

section \<open>The invariant of the system\<close>

fun task_ok :: "('h, 'sk, 'pk, 'ph) crates \<Rightarrow> 'sk STSServerState \<Rightarrow> 'sk conn_task \<Rightarrow> bool" where
  "task_ok c st (Serving pc) = pc_ok c st pc"
| "task_ok c st _ = True"

definition sys_inv :: "('h, 'sk, 'pk, 'ph) crates \<Rightarrow> 'sk system \<Rightarrow> bool" where
  "sys_inv c s \<longleftrightarrow> server_inv (sy_state s) \<and> (\<forall>t \<in> set (sy_tasks s). task_ok c (sy_state s) (snd t)) \<and>
     held (owners s) (st_logged_users (sy_state s))"

definition sys_init :: "'sk system \<Rightarrow> bool" where
  "sys_init s \<longleftrightarrow> initial_state (sy_state s) \<and> sy_tasks s = [] \<and> sy_phase s = Binding"

lemma task_ok_acts:
  "(server_act c)\<^sup>*\<^sup>* st st' \<Longrightarrow> server_inv st \<Longrightarrow> task_ok c st t \<Longrightarrow> task_ok c st' t"
  by (cases t) (auto intro: pc_ok_acts)

lemma task_at_ok: "sys_inv c s \<Longrightarrow> i < length (sy_tasks s) \<Longrightarrow> task_ok c (sy_state s) (task_at s i)"
  by (simp add: sys_inv_def task_at_def)

lemma owners_nth: "i < length (sy_tasks s) \<Longrightarrow> owners s ! i = task_owner (task_at s i)"
  by (simp add: owners_def task_at_def)

lemma sys_inv_task:
  assumes "sys_inv c s" and "i < length (sy_tasks s)" and "(server_act c)\<^sup>*\<^sup>* (sy_state s) st'"
    and "task_ok c st' t" and "own_change (task_owner (task_at s i)) (task_owner t) (st_logged_users (sy_state s)) (st_logged_users st')"
  shows "sys_inv c (set_task i t st' s)"
proof -
  note inv = assms(1)[unfolded sys_inv_def]
  have "held (owners (set_task i t st' s)) (st_logged_users st')"
    using held_update[of "owners s" "st_logged_users (sy_state s)" i] inv assms(2,5)
    by (simp add: owners_nth) (simp add: owners_def set_task_def map_update)
  moreover have "task_ok c st' (snd x)" if "x \<in> set ((sy_tasks s)[i := (address_at s i, t)])" for x
    using that set_update_subset_insert[of "sy_tasks s" i] inv assms(4) task_ok_acts[OF assms(3)] by fastforce
  ultimately show ?thesis
    using acts_inv[OF assms(3)] inv by (simp add: sys_inv_def set_task_def)
qed

lemma sys_inv_shared:
  assumes "sys_inv c s" and "(server_act c)\<^sup>*\<^sup>* (sy_state s) (sy_state s')" and "sy_tasks s' = sy_tasks s"
    and "st_logged_users (sy_state s') = st_logged_users (sy_state s)"
  shows "sys_inv c s'"
  using assms acts_inv[OF assms(2)] task_ok_acts[OF assms(2)] by (simp add: sys_inv_def owners_def)

lemma cancel_acts: "(server_act c)\<^sup>*\<^sup>* st (cancel st)"
  unfolding cancel_def by (rule r_into_rtranclp) (rule act_cancel)

lemma task_exit_acts: "(server_act c)\<^sup>*\<^sup>* st (task_exit pc st)"
  by (cases "(pc, st)" rule: task_exit.cases) (simp_all add: cancel_acts)

lemma cancel_logged [simp]: "st_logged_users (cancel st) = st_logged_users st"
  by (simp add: cancel_def)

lemma task_exit_logged [simp]: "st_logged_users (task_exit pc st) = st_logged_users st"
  by (cases "(pc, st)" rule: task_exit.cases) simp_all

lemma run_step_acts:
  assumes "run_step c address s l s'" and "sys_inv c s"
  shows "(server_act c)\<^sup>*\<^sup>* (sy_state s) (sy_state s')"
  using assms(1)
proof (cases rule: run_step.cases)
  case (accesses i pc pc' st' sent)
  have "pc_ok c (sy_state s) pc" using task_at_ok[OF assms(2) accesses(3)] accesses(4) by simp
  then show ?thesis using pc_step_acts[OF accesses(7)] assms(2) accesses(2) by (simp add: sys_inv_def set_task_def)
qed (auto simp: set_task_def cancel_acts task_exit_acts intro: act_sync)

lemma run_step_inv:
  assumes "run_step c address s l s'" and "sys_inv c s"
  shows "sys_inv c s'"
  using assms(1)
proof (cases rule: run_step.cases)
  case (accepts a)
  have "held (owners s @ [None]) L" if "held (owners s) L" for L
    using that by (auto simp: held_def nth_append less_Suc_eq)
  then show ?thesis using accepts assms(2) by (auto simp: sys_inv_def owners_def)
next
  case (accesses i pc pc' st' sent)
  note ok = task_at_ok[OF assms(2) accesses(3)] accesses(4)
  show ?thesis
    using run_step_acts[OF assms] ok pc_step_ok[OF accesses(7)] pc_step_owner[OF accesses(7)]
    unfolding accesses(2) by (intro sys_inv_task[OF assms(2) accesses(3)]) (simp_all add: set_task_def)
next
  case (fetches i pc rd)
  note ok = task_at_ok[OF assms(2) fetches(3)] fetches(4)
  show ?thesis
    using ok unfolding fetches(2)
    by (intro sys_inv_task[OF assms(2) fetches(3)]) (simp_all add: pc_fetch_ok own_change_def)
next
  case (handshake_ok i)
  show ?thesis
    using handshake_ok(4) unfolding handshake_ok(2)
    by (intro sys_inv_task[OF assms(2) handshake_ok(3)]) (simp_all add: own_change_def)
next
  case (handshake_error i e)
  show ?thesis
    using handshake_error(4) unfolding handshake_error(2)
    by (intro sys_inv_task[OF assms(2) handshake_error(3)]) (simp_all add: own_change_def)
next
  case (exits i pc)
  show ?thesis
    using exits(4) unfolding exits(2)
    by (intro sys_inv_task[OF assms(2) exits(3)]) (simp_all add: own_change_def task_exit_acts)
qed (rule sys_inv_shared[OF assms(2) run_step_acts[OF assms]]; simp)+

interpretation run_sys: invariant_system sys_init "sys_step c address" "sys_inv c" for c address
proof unfold_locales
  show "sys_inv c s" if "sys_init s" for s
    using that by (simp add: sys_init_def initial_state_def sys_inv_def server_inv_def held_def owners_def)
  show "sys_inv c t" if "sys_step c address s t" "sys_inv c s" for s t
    using that by (auto simp: sys_step_def intro: run_step_inv)
qed

end
