(* ===== verification/Server_Run_Properties.thy ===== *)
theory Server_Run_Properties
  imports Server_Run
begin

text \<open>
  What holds in every interleaving of the tasks of a running server: sessions are exclusive,
  tokens are genuine and paid for, the shared state changes by the actions of \<open>server_act\<close>
  only; and how a cancelled server comes to its end.
\<close>

section \<open>Accounts\<close>

text \<open>
  What a user has had so far: the tokens left, the signatures in the history, and the charges of
  requests that are still being signed. \<open>buys\<close>: the amount that a step of a connection asks for.
\<close>

definition tokens_of :: "string \<Rightarrow> ServerDb \<Rightarrow> nat" where
  "tokens_of u db = (case balance db u of None \<Rightarrow> 0 | Some b \<Rightarrow> b)"

definition signed_of :: "string \<Rightarrow> ServerDb \<Rightarrow> nat" where
  "signed_of u db = length (filter (\<lambda>h. h_username h = u) (db_history db))"

fun pending_of :: "string \<Rightarrow> 'sk round pc \<Rightarrow> nat" where
  "pending_of u (SignTime se _ _) = of_bool (se_username se = u)"
| "pending_of u (SignRecord se _ _ _ _) = of_bool (se_username se = u)"
| "pending_of u (SignRefund se _) = of_bool (se_username se = u)"
| "pending_of u _ = 0"

fun task_pending :: "string \<Rightarrow> 'sk conn_task \<Rightarrow> nat" where
  "task_pending u (Serving pc) = pending_of u pc"
| "task_pending u _ = 0"

definition account :: "string \<Rightarrow> 'sk system \<Rightarrow> nat" where
  "account u s = tokens_of u (st_database (sy_state s)) + signed_of u (st_database (sy_state s)) +
     (\<Sum>t\<leftarrow>sy_tasks s. task_pending u (snd t))"

fun buys :: "string \<Rightarrow> 'sk conn_task \<Rightarrow> nat" where
  "buys u (Serving (PurchaseAdd se _ n)) = (if se_username se = u then unat n else 0)"
| "buys u _ = 0"

fun purchase :: "string \<Rightarrow> 'sk system \<Rightarrow> 'sk label \<Rightarrow> nat" where
  "purchase u s (Accesses i) = buys u (task_at s i)"
| "purchase u s _ = 0"

text \<open>Runs, with the sum of what a user asked to buy.\<close>

inductive buying_run ::
    "('h, 'sk, 'pk, 'ph) crates \<Rightarrow> SocketAddr \<Rightarrow> string \<Rightarrow> 'sk system \<Rightarrow> nat \<Rightarrow> 'sk system \<Rightarrow> bool"
  for c address u where
  start: "buying_run c address u s 0 s"
| further: "buying_run c address u s n s' \<Longrightarrow> run_step c address s' l s'' \<Longrightarrow>
    buying_run c address u s (n + purchase u s' l) s''"

lemma tokens_set_tokens:
  "tokens_of u (set_tokens v k db) =
     (if u = v then (if find_user db u = None then 0 else unat k) else tokens_of u db)"
  by (auto simp: tokens_of_def balance_def find_user_set_tokens split: option.split)

lemma charge_account:
  assumes "db_inv db" and "subtract_user_tokens io db v 1 = (r, db')"
  shows "tokens_of u db' + of_bool (v = u \<and> \<not> isl r) = tokens_of u db \<and> signed_of u db' = signed_of u db"
proof (cases r)
  case (Inl e)
  then show ?thesis using subtract_user_tokens_Inl[of io db v 1 e db'] assms(2) by simp
next
  case (Inr k)
  then obtain x where x: "find_user db v = Some x" "db' = set_tokens v k db"
    using subtract_user_tokens_ok[OF assms(1)] assms(2) by metis
  then obtain b where b: "balance db v = Some b" by (simp add: balance_def)
  note one = charge_one[OF assms(1) assms(2)[unfolded Inr] b]
  show ?thesis
    using one b x Inr by (auto simp: tokens_of_def signed_of_def)
qed

lemma credit_account:
  assumes "db_inv db" and "add_user_tokens io db v n = (r, db')"
  shows "tokens_of u db' \<le> tokens_of u db + (if v = u then unat n else 0) \<and> signed_of u db' = signed_of u db"
proof (cases r)
  case (Inl e)
  then show ?thesis using add_user_tokens_Inl[of io db v n e db'] assms(2) by simp
next
  case (Inr k)
  then obtain x where x: "find_user db v = Some x" "k = u_available_tokens x + n" "db' = set_tokens v k db"
    using add_user_tokens_ok[OF assms(1)] assms(2) by metis
  have "unat k \<le> unat (u_available_tokens x) + unat n"
    using x(2) by (simp add: unat_word_ariths)
  with x show ?thesis
    by (auto simp: tokens_set_tokens signed_of_def) (simp add: tokens_of_def balance_def)
qed

lemma log_account:
  assumes "add_user_record io db v ts sign = (r, db')"
  shows "tokens_of u db' = tokens_of u db \<and> signed_of u db' \<le> signed_of u db + of_bool (v = u)"
proof -
  have "balance db' = balance db" using add_user_record_balance[of io db v ts sign] assms by simp
  then show ?thesis
    using assms add_user_record_ok_iff[of io db v ts sign _ db'] add_user_record_Inl[of io db v ts sign _ db']
    by (cases r) (auto simp: tokens_of_def signed_of_def)
qed

lemma register_account:
  assumes "try_register_user ar io salt db v pw ip = (r, db')"
  shows "tokens_of u db' = tokens_of u db \<and> signed_of u db' = signed_of u db"
proof -
  have "db' = db \<or> (\<exists>h. find_user db v = None \<and> db' = db\<lparr>db_users := db_users db @
      [\<lparr>u_username = v, u_password_hash = h, u_available_tokens = 0, u_registered_from_ip = ip\<rparr>]\<rparr>)"
    using try_register_user_effect[of ar io salt db v pw ip] assms by simp
  then show ?thesis
  proof (elim disjE exE conjE)
    fix h
    assume "find_user db v = None" and db': "db' = db\<lparr>db_users := db_users db @
      [\<lparr>u_username = v, u_password_hash = h, u_available_tokens = 0, u_registered_from_ip = ip\<rparr>]\<rparr>"
    then have "tokens_of u db' = tokens_of u db"
      by (cases "u = v"; cases "find_user db u") (simp_all add: tokens_of_def balance_def find_user_append)
    with db' show ?thesis by (simp add: signed_of_def)
  qed simp
qed

lemma pending_answer [simp]: "pending_of u (answer se rd r) = 0"
  by (simp add: answer_def split: sum.split)

lemma pending_leave [simp]: "pending_of u (leave r) = 0"
  by (cases r rule: leave.cases) simp_all

lemma pending_fetch [simp]: "waits pc \<Longrightarrow> pending_of u (pc_fetch c a pc rd st) = 0"
proof -
  have g: "pending_of u (guest_dispatch rd req) = 0" for req
    by (cases "(rd, req)" rule: guest_dispatch.cases) (auto split: option.split)
  have m: "pending_of u (member_dispatch se rd req) = 0" for se req by (cases req) auto
  show "waits pc \<Longrightarrow> ?thesis" by (cases pc) (auto simp: g m split: sum.split option.split)
qed

lemma pc_step_account:
  assumes "pc_step c a pc st = (pc', st', sent)" and "db_inv (st_database st)"
  shows "tokens_of u (st_database st') + signed_of u (st_database st') + pending_of u pc' \<le>
    tokens_of u (st_database st) + signed_of u (st_database st) + pending_of u pc + buys u (Serving pc)"
proof (cases pc)
  case (SignCharge se rd h)
  obtain r db where q: "subtract_user_tokens (rd_sql rd 0) (st_database st) (se_username se) 1 = (r, db)"
    by fastforce
  show ?thesis
    using charge_account[OF assms(2) q, of u] assms(1) q SignCharge by (cases r) auto
next
  case (SignRecord se rd h ts sign)
  obtain r db where q: "add_user_record (rd_sql rd 1) (st_database st) (se_username se) ts sign = (r, db)"
    by fastforce
  show ?thesis using log_account[OF q, of u] assms(1) q SignRecord by auto
next
  case (SignRefund se rd)
  obtain r db where q: "add_user_tokens (rd_sql rd 1) (st_database st) (se_username se) 1 = (r, db)"
    by fastforce
  show ?thesis using credit_account[OF assms(2) q, of u] assms(1) q SignRefund by auto
next
  case (PurchaseAdd se rd n)
  obtain r db where q: "add_user_tokens (rd_sql rd 0) (st_database st) (se_username se) n = (r, db)"
    by fastforce
  show ?thesis using credit_account[OF assms(2) q, of u] assms(1) q PurchaseAdd by auto
next
  case (SignUpRegister rd v pw)
  obtain r db where
    q: "try_register_user (c_argon2 c) (rd_sql rd 0) (rd_salt rd) (st_database st) v pw (c_show_ip c (addr_ip a)) = (r, db)"
    by fastforce
  show ?thesis
    using register_account[OF q, of u] assms(1) q SignUpRegister
    by (auto split: sum.splits RegistrationError.splits)
qed (use assms(1) in \<open>auto simp: Let_def logged_users_remove_def
      split: sum.splits option.splits if_splits outcome.splits AuthenticationError.splits\<close>)

lemma sum_list_update_le:
  fixes f :: "'a \<Rightarrow> nat"
  assumes "i < length xs" and "a + f y \<le> b + f (xs ! i)"
  shows "a + (\<Sum>x\<leftarrow>xs[i := y]. f x) \<le> b + (\<Sum>x\<leftarrow>xs. f x)"
  using assms
proof (induction xs arbitrary: i)
  case (Cons x xs)
  then show ?case by (cases i) fastforce+
qed simp

lemma set_task_account:
  assumes "i < length (sy_tasks s)"
    and "tokens_of u (st_database st) + signed_of u (st_database st) + task_pending u t \<le>
      tokens_of u (st_database (sy_state s)) + signed_of u (st_database (sy_state s)) +
      task_pending u (task_at s i) + n"
  shows "account u (set_task i t st s) \<le> account u s + n"
proof -
  let ?f = "\<lambda>t. task_pending u (snd t)"
  have "tokens_of u (st_database st) + signed_of u (st_database st) + ?f (address_at s i, t) \<le>
      tokens_of u (st_database (sy_state s)) + signed_of u (st_database (sy_state s)) + n + ?f (sy_tasks s ! i)"
    using assms(2) by (simp add: task_at_def)
  from sum_list_update_le[where f="?f", OF assms(1) this] show ?thesis
    by (simp add: account_def set_task_def)
qed

lemma task_exit_database [simp]: "st_database (task_exit pc st) = st_database st"
  by (cases "(pc, st)" rule: task_exit.cases) (simp_all add: cancel_def)

lemma run_step_account:
  assumes "run_step c address s l s'" and "sys_inv c s"
  shows "account u s' \<le> account u s + purchase u s l"
  using assms(1)
proof (cases rule: run_step.cases)
  case (accepts a)
  then show ?thesis by (simp add: account_def)
next
  case (accesses i pc pc' st' sent)
  have "db_inv (st_database (sy_state s))" using assms(2) by (simp add: sys_inv_def server_inv_def)
  from pc_step_account[OF accesses(7) this] show ?thesis
    unfolding accesses(1,2) by (intro set_task_account[OF accesses(3)]) (simp add: accesses(4))
next
  case (fetches i pc rd)
  then show ?thesis using set_task_account[OF fetches(3), of u "sy_state s" "Serving (pc_fetch c (address_at s i) pc rd (sy_state s))" 0] by simp
next
  case (handshake_ok i)
  then show ?thesis using set_task_account[OF handshake_ok(3), of u "sy_state s" "Serving Guest" 0] by simp
next
  case (handshake_error i e)
  then show ?thesis using set_task_account[OF handshake_error(3), of u "sy_state s" TaskDone 0] by simp
next
  case (exits i pc)
  then show ?thesis using set_task_account[OF exits(3), of u "task_exit pc (sy_state s)" TaskDone 0] by simp
qed (simp_all add: account_def cancel_def)

lemma buying_run_steps: "buying_run c address u s n s' \<Longrightarrow> (sys_step c address)\<^sup>*\<^sup>* s s'"
  by (induction rule: buying_run.induct)
    (auto simp: sys_step_def intro: rtranclp.rtrancl_into_rtrancl)

lemma buying_run_account:
  assumes "buying_run c address u s n s'" and "sys_inv c s"
  shows "account u s' \<le> account u s + n"
  using assms
proof (induction rule: buying_run.induct)
  case (further s n s' l s'')
  have "sys_inv c s'" using run_sys.steps_inv[OF buying_run_steps[OF further(1)] further(4)] .
  from run_step_account[OF further(2) this, of u] further.IH[OF further(4)] show ?case by simp
qed simp

section \<open>Shutdown\<close>

text \<open>
  The steps a server makes on its own: no new connection, no handshake, no frame, no signal. Of
  the waits only those end that see the cancellation.
\<close>

fun own_step :: "'sk label \<Rightarrow> bool" where
  "own_step AcceptBreaks = True"
| "own_step (Fetches i rd) = (rd_select rd = Cancelled)"
| "own_step (Accesses i) = True"
| "own_step (Exits i) = True"
| "own_step TrackerDone = True"
| "own_step _ = False"

definition shutdown_step :: "('h, 'sk, 'pk, 'ph) crates \<Rightarrow> SocketAddr \<Rightarrow> 'sk system \<Rightarrow> 'sk system \<Rightarrow> bool" where
  "shutdown_step c address s t \<longleftrightarrow> (\<exists>l. own_step l \<and> run_step c address s l t)"

fun task_weight :: "'sk conn_task \<Rightarrow> nat" where
  "task_weight (Serving pc) = weight pc"
| "task_weight _ = 0"

fun phase_weight :: "accept_phase \<Rightarrow> nat" where
  "phase_weight Accepting = 2"
| "phase_weight Draining = 1"
| "phase_weight _ = 0"

definition sys_weight :: "'sk system \<Rightarrow> nat" where
  "sys_weight s = phase_weight (sy_phase s) + (\<Sum>t\<leftarrow>sy_tasks s. task_weight (snd t))"

definition cancelled :: "'sk system \<Rightarrow> bool" where
  "cancelled s \<longleftrightarrow> st_cancel_token (sy_state s) \<and> sy_phase s \<in> {Accepting, Draining, Stopped (Inr ())} \<and>
     (\<forall>t \<in> set (sy_tasks s). snd t \<noteq> Handshaking)"

lemma shutdown_stepI: "run_step c address s l t \<Longrightarrow> own_step l \<Longrightarrow> shutdown_step c address s t"
  unfolding shutdown_step_def by blast

lemma set_task_weight:
  assumes "i < length (sy_tasks s)" and "task_weight t < task_weight (task_at s i)"
  shows "sys_weight (set_task i t st s) < sys_weight s"
proof -
  let ?f = "\<lambda>t. task_weight (snd t)"
  have "Suc 0 + ?f (address_at s i, t) \<le> 0 + ?f (sy_tasks s ! i)" using assms(2) by (simp add: task_at_def)
  from sum_list_update_le[where f="?f", OF assms(1) this] show ?thesis
    by (simp add: sys_weight_def set_task_def)
qed

lemma cancelled_fetch_weight:
  "waits pc \<Longrightarrow> rd_select rd = Cancelled \<Longrightarrow> weight (pc_fetch c a pc rd st) < weight pc"
  by (cases pc) (simp_all add: fetch_next_request_def)

lemma shutdown_step_weight: "shutdown_step c address s s' \<Longrightarrow> sys_weight s' < sys_weight s"
proof -
  assume "shutdown_step c address s s'"
  then obtain l where l: "own_step l" "run_step c address s l s'" by (auto simp: shutdown_step_def)
  from l(2) show ?thesis
  proof (cases rule: run_step.cases)
    case (fetches i pc rd)
    with l(1) show ?thesis by (auto intro!: set_task_weight cancelled_fetch_weight)
  next
    case (accesses i pc pc' st' sent)
    then show ?thesis using pc_step_weight[of pc c "address_at s i" "sy_state s"]
      by (auto intro!: set_task_weight)
  next
    case (exits i pc)
    then show ?thesis by (cases pc) (auto intro!: set_task_weight)
  qed (use l(1) in \<open>auto simp: sys_weight_def\<close>)
qed

lemma weight_le: "weight pc \<le> 8"
  by (cases pc) simp_all

lemma sys_weight_le: "sys_weight s \<le> 2 + 8 * length (sy_tasks s)"
proof -
  have "task_weight t \<le> 8" for t :: "'a conn_task" by (cases t) (simp_all add: weight_le)
  then have "(\<Sum>t\<leftarrow>ts. task_weight (snd t)) \<le> 8 * length ts" for ts :: "(SocketAddr \<times> 'a conn_task) list"
    by (induction ts) (simp_all add: add_mono)
  moreover have "phase_weight p \<le> 2" for p by (cases p) simp_all
  ultimately show ?thesis unfolding sys_weight_def by (meson add_mono)
qed

lemma pc_step_token: "pc_step c a pc st = (pc', st', sent) \<Longrightarrow> st_cancel_token st' = st_cancel_token st"
  by (cases pc) (auto simp: Let_def logged_users_remove_def split: prod.splits sum.splits if_splits)

lemma task_exit_token: "st_cancel_token st \<Longrightarrow> st_cancel_token (task_exit pc st)"
  by (cases "(pc, st)" rule: task_exit.cases) (simp_all add: cancel_def)

lemma set_task_cancelled:
  "cancelled s \<Longrightarrow> t \<noteq> Handshaking \<Longrightarrow> st_cancel_token st \<Longrightarrow> cancelled (set_task i t st s)"
  by (auto simp: cancelled_def set_task_def dest!: set_update_subset_insert[THEN subsetD])

lemma shutdown_step_cancelled:
  assumes "shutdown_step c address s s'" and "cancelled s"
  shows "cancelled s'"
proof -
  obtain l where l: "own_step l" "run_step c address s l s'" using assms(1) by (auto simp: shutdown_step_def)
  have tok: "st_cancel_token (sy_state s)" using assms(2) by (simp add: cancelled_def)
  from l(2) show ?thesis
  proof (cases rule: run_step.cases)
    case (fetches i pc rd)
    then show ?thesis using assms(2) tok by (simp add: set_task_cancelled)
  next
    case (accesses i pc pc' st' sent)
    then show ?thesis using assms(2) tok pc_step_token[OF accesses(7)] by (simp add: set_task_cancelled)
  next
    case (exits i pc)
    then show ?thesis using assms(2) tok by (simp add: set_task_cancelled task_exit_token)
  qed (use l(1) assms(2) in \<open>auto simp: cancelled_def\<close>)
qed

lemma serving_moves:
  fixes s :: "'sk system"
  assumes "i < length (sy_tasks s)" and "task_at s i = Serving pc" and "st_cancel_token (sy_state s)"
  shows "\<exists>t. shutdown_step c address s t"
proof -
  obtain pc' st' sent where p: "pc_step c (address_at s i) pc (sy_state s) = (pc', st', sent)" by (rule prod_cases3)
  define rd where "rd = (undefined :: 'sk round)\<lparr>rd_select := Cancelled\<rparr>"
  have rd: "rd_select rd = Cancelled" by (simp add: rd_def)
  consider "waits pc" | "over pc" | "\<not> waits pc" "\<not> over pc" by blast
  then show ?thesis
    unfolding shutdown_step_def
  proof cases
    case 1
    then show "\<exists>t l. own_step l \<and> run_step c address s l t"
      using run_step.fetches[OF assms(1,2), of rd] rd assms(3) by (metis own_step.simps(2))
  next
    case 2
    then show "\<exists>t l. own_step l \<and> run_step c address s l t"
      using run_step.exits[OF assms(1,2)] by (metis own_step.simps(4))
  next
    case 3
    then show "\<exists>t l. own_step l \<and> run_step c address s l t"
      using run_step.accesses[OF assms(1,2) _ _ p] by (metis own_step.simps(3))
  qed
qed

lemma cancelled_moves:
  assumes "cancelled s"
  shows "sy_phase s = Stopped (Inr ()) \<or> (\<exists>t. shutdown_step c address s t)"
proof -
  have tok: "st_cancel_token (sy_state s)" and hs: "\<forall>t \<in> set (sy_tasks s). snd t \<noteq> Handshaking"
    using assms by (simp_all add: cancelled_def)
  consider "sy_phase s = Stopped (Inr ())" | "sy_phase s = Accepting" | "sy_phase s = Draining"
    using assms unfolding cancelled_def by auto
  then show ?thesis
  proof cases
    case 2
    then show ?thesis
      using run_step.accept_breaks[OF 2 tok] by (metis own_step.simps(1) shutdown_step_def)
  next
    case 3
    show ?thesis
    proof (cases "\<forall>t \<in> set (sy_tasks s). snd t = TaskDone")
      case True
      then show ?thesis
        using run_step.tracker_done[OF 3 True] by (metis own_step.simps(5) shutdown_step_def)
    next
      case False
      then obtain i where "i < length (sy_tasks s)" "task_at s i \<noteq> TaskDone"
        by (auto simp: in_set_conv_nth task_at_def)
      moreover have "task_at s i \<noteq> Handshaking" using hs calculation(1) by (simp add: task_at_def)
      ultimately obtain pc where "task_at s i = Serving pc" by (cases "task_at s i") auto
      with \<open>i < length (sy_tasks s)\<close> tok show ?thesis using serving_moves by blast
    qed
  qed simp
qed

lemma shutdown_steps_bound:
  "(shutdown_step c address ^^ k) s s' \<Longrightarrow> k + sys_weight s' \<le> sys_weight s"
proof (induction k arbitrary: s')
  case (Suc k)
  then obtain t where "(shutdown_step c address ^^ k) s t" "shutdown_step c address t s'" by auto
  with Suc.IH[of t] shutdown_step_weight[of c address t s'] show ?case by simp
qed simp

lemma shutdown_steps_cancelled:
  "(shutdown_step c address ^^ k) s s' \<Longrightarrow> cancelled s \<Longrightarrow> cancelled s'"
proof (induction k arbitrary: s')
  case (Suc k)
  then obtain t where "(shutdown_step c address ^^ k) s t" "shutdown_step c address t s'" by auto
  with Suc.IH[of t] Suc.prems(2) show ?case by (blast intro: shutdown_step_cancelled)
qed simp

text \<open>A task that never leaves its handshake. \<open>stalled_step\<close>: every step but the end of it.\<close>

definition stalled_step ::
    "('h, 'sk, 'pk, 'ph) crates \<Rightarrow> SocketAddr \<Rightarrow> nat \<Rightarrow> 'sk system \<Rightarrow> 'sk system \<Rightarrow> bool" where
  "stalled_step c address i s t \<longleftrightarrow>
     (\<exists>l. l \<noteq> HandshakeOk i \<and> (\<forall>e. l \<noteq> HandshakeError i e) \<and> run_step c address s l t)"

definition stalled :: "nat \<Rightarrow> 'sk system \<Rightarrow> bool" where
  "stalled i s \<longleftrightarrow> i < length (sy_tasks s) \<and> task_at s i = Handshaking \<and> sy_phase s \<noteq> Stopped (Inr ())"

lemma stalled_step_stalled:
  assumes "stalled_step c address i s s'" and "stalled i s"
  shows "stalled i s'"
proof -
  obtain l where l: "l \<noteq> HandshakeOk i" "\<forall>e. l \<noteq> HandshakeError i e" "run_step c address s l s'"
    using assms(1) by (auto simp: stalled_step_def)
  have i: "i < length (sy_tasks s)" "task_at s i = Handshaking" using assms(2) by (simp_all add: stalled_def)
  from l(3) show ?thesis
  proof (cases rule: run_step.cases)
    case tracker_done
    then have "snd (sy_tasks s ! i) = TaskDone" using i(1) nth_mem by blast
    with i(2) show ?thesis by (simp add: task_at_def)
  qed (use l(1,2) i assms(2) in \<open>auto simp: stalled_def task_at_def set_task_def nth_append nth_list_update\<close>)
qed

lemma stalled_steps:
  "(stalled_step c address i)\<^sup>*\<^sup>* s s' \<Longrightarrow> stalled i s \<Longrightarrow> stalled i s'"
  by (induction rule: rtranclp_induct) (auto intro: stalled_step_stalled)

section \<open>Example run\<close>

text \<open>One client connects, logs in and has a hash signed; a second one is in its handshake.\<close>

definition fresh_system :: "'sk STSServerState \<Rightarrow> 'sk system" where
  "fresh_system st = \<lparr>sy_state = st, sy_tasks = [], sy_phase = Binding, sy_worker = False, sy_signal = True\<rparr>"

definition solo :: "'sk round pc \<Rightarrow> 'sk STSServerState \<Rightarrow> 'sk system" where
  "solo pc st = \<lparr>sy_state = st, sy_tasks = [(peer, Serving pc)], sy_phase = Accepting,
     sy_worker = False, sy_signal = True\<rparr>"

definition alice_logged :: "unit STSServerState" where
  "alice_logged = (alice_state 1)\<lparr>st_logged_users := {''alice''}\<rparr>"

definition alice_done :: "unit STSServerState" where
  "alice_done = alice_signed_state\<lparr>st_logged_users := {''alice''}\<rparr>"

abbreviation login_round :: "unit round" where
  "login_round \<equiv> plain_round (Login ''alice'' ''pw'') None"

abbreviation hash_round :: "unit round" where
  "hash_round \<equiv> plain_round (SignHash alice_hash) None"

abbreviation alice_token :: Response where
  "alice_token \<equiv> Token alice_hash alice_signature (Timestamp 9)"

lemma solo_access:
  assumes "pc_step c peer pc st = (pc', st', sent)" and "\<not> waits pc" and "\<not> over pc"
  shows "run_step c a (solo pc st) (Accesses 0) (solo pc' st')"
  using run_step.accesses[of 0 "solo pc st" pc c pc' st' sent a] assms
  by (simp add: solo_def task_at_def address_at_def set_task_def)

lemma solo_fetch:
  assumes "waits pc" and "rd_select rd \<noteq> Cancelled"
  shows "run_step c a (solo pc st) (Fetches 0 rd) (solo (pc_fetch c peer pc rd st) st)"
  using run_step.fetches[of 0 "solo pc st" pc rd c a] assms
  by (simp add: solo_def task_at_def address_at_def set_task_def)

lemma solo_task [simp]: "task_at (solo pc st) 0 = Serving pc"
  by (simp add: solo_def task_at_def)

lemma solo_start: "buying_run c a u (fresh_system st) 0 (solo Guest st)"
proof -
  let ?s = "fresh_system st"
  let ?s1 = "?s\<lparr>sy_phase := Accepting\<rparr>" and ?s2 = "?s\<lparr>sy_phase := Accepting, sy_tasks := [(peer, Handshaking)]\<rparr>"
  have 1: "run_step c a ?s Bound ?s1" by (rule run_step.bound) (simp add: fresh_system_def)
  have 2: "run_step c a ?s1 (AcceptsConnection peer) ?s2"
    using run_step.accepts[of ?s1 c a peer] by (simp add: fresh_system_def)
  have 3: "run_step c a ?s2 (HandshakeOk 0) (solo Guest st)"
    using run_step.handshake_ok[of 0 ?s2 c a]
    by (simp add: task_at_def address_at_def set_task_def fresh_system_def solo_def)
  from buying_run.further[OF buying_run.further[OF buying_run.further[OF buying_run.start 1] 2] 3]
  show ?thesis by simp
qed

lemma alice_login_steps:
  "pc_fetch plain_crates peer Guest login_round st = LoginVerify login_round ''alice'' ''pw''"
  "pc_step plain_crates peer (LoginVerify login_round ''alice'' ''pw'') (alice_state 1) =
     (LoginInsert login_round ''alice'', alice_state 1, [])"
  "pc_step plain_crates peer (LoginInsert login_round ''alice'') (alice_state 1) =
     (GuestReply login_round Ok (Some alice_session), alice_logged, [])"
  "pc_step plain_crates peer (GuestReply login_round Ok (Some alice_session)) alice_logged =
     (Member alice_session, alice_logged, [Ok])"
proof -
  have env: "rd_sql login_round = (\<lambda>_. no_fault)" "rd_send login_round = None"
    by (simp_all add: plain_round_def)
  show "pc_fetch plain_crates peer Guest login_round st = LoginVerify login_round ''alice'' ''pw''"
    by (simp add: plain_fetch_login credentials_length_error_def is_username_length_valid_def
        is_password_length_valid_def MAX_USERNAME_LEN_def MAX_PASSWORD_LEN_def)
  show "pc_step plain_crates peer (LoginVerify login_round ''alice'' ''pw'') (alice_state 1) =
     (LoginInsert login_round ''alice'', alice_state 1, [])"
    by (simp add: env) (simp add: plain_crates_def alice_state_def alice_verifies)
  show "pc_step plain_crates peer (LoginInsert login_round ''alice'') (alice_state 1) =
     (GuestReply login_round Ok (Some alice_session), alice_logged, [])"
    by (simp add: alice_logged_def alice_state_def Session_bundle_def alice_session_def)
  show "pc_step plain_crates peer (GuestReply login_round Ok (Some alice_session)) alice_logged =
     (Member alice_session, alice_logged, [Ok])"
    by (simp add: env plain_send)
qed

lemma alice_sign_steps:
  "pc_fetch plain_crates peer (Member alice_session) hash_round st = SignCharge alice_session hash_round alice_hash"
  "pc_step plain_crates peer (SignCharge alice_session hash_round alice_hash) alice_logged =
     (SignTime alice_session hash_round alice_hash, alice_logged\<lparr>st_database := alice_db 0\<rparr>, [])"
  "pc_step plain_crates peer (SignTime alice_session hash_round alice_hash) (alice_logged\<lparr>st_database := alice_db 0\<rparr>) =
     (SignRecord alice_session hash_round alice_hash (Timestamp 9) alice_signature,
      alice_logged\<lparr>st_database := alice_db 0\<rparr>, [])"
  "pc_step plain_crates peer (SignRecord alice_session hash_round alice_hash (Timestamp 9) alice_signature)
     (alice_logged\<lparr>st_database := alice_db 0\<rparr>) =
     (MemberReply alice_session hash_round alice_token False, alice_done, [])"
proof -
  have env: "rd_sql hash_round = (\<lambda>_. no_fault)" "rd_now hash_round = 9" "rd_spawn hash_round = None"
    by (simp_all add: plain_round_def)
  have "wf_hash alice_hash" by (simp add: wf_hash_def alice_hash_def)
  then show "pc_fetch plain_crates peer (Member alice_session) hash_round st = SignCharge alice_session hash_round alice_hash"
    using plain_request_roundtrip[of "SignHash alice_hash"]
    by (simp add: fetch_next_request_def plain_crates_def plain_wincode_def plain_round_def Request_deserialize_def)
  show "pc_step plain_crates peer (SignCharge alice_session hash_round alice_hash) alice_logged =
     (SignTime alice_session hash_round alice_hash, alice_logged\<lparr>st_database := alice_db 0\<rparr>, [])"
    by (simp add: env alice_logged_def alice_state_def alice_session_def alice_charge)
  show "pc_step plain_crates peer (SignTime alice_session hash_round alice_hash) (alice_logged\<lparr>st_database := alice_db 0\<rparr>) =
     (SignRecord alice_session hash_round alice_hash (Timestamp 9) alice_signature,
      alice_logged\<lparr>st_database := alice_db 0\<rparr>, [])"
    by (simp add: env alice_logged_def alice_state_def plain_crates_def time_now_eq system_time_ok_def NANOS_def
        duration_since_epoch_def Timestamp_new_def slow_plain_signs del: generate_timestamp_signature.simps)
  show "pc_step plain_crates peer (SignRecord alice_session hash_round alice_hash (Timestamp 9) alice_signature)
     (alice_logged\<lparr>st_database := alice_db 0\<rparr>) =
     (MemberReply alice_session hash_round alice_token False, alice_done, [])"
    by (simp add: env alice_logged_def alice_done_def alice_signed_state_def alice_state_def alice_session_def
        alice_records answer_def)
qed

lemma alice_run:
  "buying_run plain_crates a u (fresh_system (alice_state 1)) 0
     (solo (MemberReply alice_session hash_round alice_token False) alice_done)"
proof -
  have f: "run_step plain_crates a (solo pc st) (Fetches 0 rd) (solo pc' st)"
    if "waits pc" "rd = login_round \<or> rd = hash_round" "pc_fetch plain_crates peer pc rd st = pc'" for pc st rd pc'
  proof -
    have "rd_select rd \<noteq> Cancelled" using that(2) by (auto simp: plain_round_def)
    from solo_fetch[OF that(1) this, of plain_crates a st] that(3) show ?thesis by simp
  qed
  have fetch: "buying_run plain_crates a u (fresh_system (alice_state 1)) 0 (solo pc' st)"
    if "buying_run plain_crates a u (fresh_system (alice_state 1)) 0 (solo pc st)" "waits pc"
      "rd = login_round \<or> rd = hash_round" "pc_fetch plain_crates peer pc rd st = pc'" for pc st rd pc'
    using buying_run.further[OF that(1) f[OF that(2,3,4)]] by simp
  have acc: "buying_run plain_crates a u (fresh_system (alice_state 1)) 0 (solo pc' st')"
    if "buying_run plain_crates a u (fresh_system (alice_state 1)) 0 (solo pc st)"
      "pc_step plain_crates peer pc st = (pc', st', sent)" "\<not> waits pc" "\<not> over pc" "buys u (Serving pc) = 0"
    for pc st pc' st' sent
    using buying_run.further[OF that(1) solo_access[OF that(2,3,4)]] that(5) by simp
  note login = acc[OF acc[OF acc[OF fetch[OF solo_start _ _ alice_login_steps(1)] alice_login_steps(2)]
        alice_login_steps(3)] alice_login_steps(4)]
  show ?thesis
    by (rule acc[OF acc[OF acc[OF fetch[OF login _ _ alice_sign_steps(1)] alice_sign_steps(2)]
          alice_sign_steps(3)] alice_sign_steps(4)]) simp_all
qed

lemma fresh_alice: "sys_init (fresh_system (alice_state 1))"
  by (simp add: sys_init_def fresh_system_def initial_state_def alice_state_def alice_db_inv)

lemma built_system_init:
  assumes "build_from_context bi ctx d = (Returns (Inr server), d')"
    and "server = Slow inst \<or> server = Accelerated inst" and "db_inv (st_database (si_state inst))"
  shows "sys_init (STSServer_run server) \<and> sy_state (STSServer_run server) = si_state inst"
  using built_instance[OF assms(1,2)] assms(2,3)
  by (auto simp: sys_init_def initial_state_def run_with_signal_def)

lemma sys_steps_acts:
  assumes "(sys_step c address)\<^sup>*\<^sup>* s s'" and "sys_inv c s"
  shows "(server_act c)\<^sup>*\<^sup>* (sy_state s) (sy_state s')"
  using assms
proof (induction rule: rtranclp_induct)
  case (step t t')
  have "sys_inv c t" using run_sys.steps_inv[OF step(1,4)] .
  then have "(server_act c)\<^sup>*\<^sup>* (sy_state t) (sy_state t')"
    using step(2) by (auto simp: sys_step_def intro: run_step_acts)
  with step.IH[OF step(4)] show ?case by simp
qed simp

section \<open>Properties\<close>

text \<open>
  C5. However the tasks of a running server are interleaved, a user has at most one session: when
  a connection is in a session of a user, that user exists and is logged in, and no other
  connection is in a session of the same user.
\<close>

theorem interleaved_sessions_are_exclusive:
  assumes "sys_init s" and "(sys_step c address)\<^sup>*\<^sup>* s s'"
    and "i < length (sy_tasks s')" and "task_owner (task_at s' i) = Some u"
  shows "u \<in> st_logged_users (sy_state s') \<and> find_user (st_database (sy_state s')) u \<noteq> None \<and>
    (\<forall>j < length (sy_tasks s'). j \<noteq> i \<longrightarrow> task_owner (task_at s' j) \<noteq> Some u)"
proof -
  have inv: "server_inv (sy_state s')" "held (owners s') (st_logged_users (sy_state s'))"
    using run_sys.reachable_inv[OF assms(1,2)] by (simp_all add: sys_inv_def)
  have len: "length (owners s') = length (sy_tasks s')" by (simp add: owners_def)
  have own: "owners s' ! i = Some u" using owners_nth[OF assms(3)] assms(4) by simp
  then have "Some u \<in> set (owners s')" using assms(3) len by (metis nth_mem)
  then have log: "u \<in> st_logged_users (sy_state s')" using inv(2) by (simp add: held_def)
  have "j = i" if "j < length (sy_tasks s')" "task_owner (task_at s' j) = Some u" for j
    using inv(2) own that assms(3) len owners_nth[OF that(1)] unfolding held_def by metis
  with log inv(1) show ?thesis by (auto simp: server_inv_def)
qed

theorem interleaved_sessions_are_exclusive_witness:
  "task_owner (task_at (solo (MemberReply alice_session hash_round alice_token False) alice_done) 0) = Some ''alice'' \<and>
   ''alice'' \<in> st_logged_users alice_done \<and> find_user (st_database alice_done) ''alice'' \<noteq> None"
  using interleaved_sessions_are_exclusive[OF fresh_alice buying_run_steps[OF alice_run], of 0 "''alice''"]
  by (simp add: alice_session_def) (simp add: solo_def)

text \<open>
  C4. However the tasks are interleaved, every signature was paid for: what is in a user's history,
  plus the tokens left, plus the charges of requests still being signed, is at most what it was
  at the start plus what the user asked to buy since.
\<close>

theorem signatures_are_paid_for:
  assumes "sys_init s" and "buying_run c address u s n s'"
  shows "signed_of u (st_database (sy_state s')) + tokens_of u (st_database (sy_state s')) +
      (\<Sum>t\<leftarrow>sy_tasks s'. task_pending u (snd t)) \<le>
    signed_of u (st_database (sy_state s)) + tokens_of u (st_database (sy_state s)) + n"
proof -
  have "sys_inv c s" using assms(1) by (rule run_sys.init_inv)
  from buying_run_account[OF assms(2) this] assms(1) show ?thesis
    by (simp add: account_def sys_init_def)
qed

theorem signatures_are_paid_for_witness:
  "buying_run plain_crates peer ''alice'' (fresh_system (alice_state 1)) 0
     (solo (MemberReply alice_session hash_round alice_token False) alice_done) \<and>
   signed_of ''alice'' (st_database alice_done) = 1 \<and> tokens_of ''alice'' (st_database alice_done) = 0"
proof -
  have "signed_of ''alice'' (st_database alice_done) = 1"
    by (simp add: signed_of_def alice_done_def alice_signed_state_def alice_signed_db_def)
  moreover have "signed_of ''alice'' (alice_db 1) = 0 \<and> tokens_of ''alice'' (alice_db 1) = 1"
    by (simp add: signed_of_def alice_no_history tokens_of_def balance_def find_alice alice_tokens)
  ultimately show ?thesis
    using signatures_are_paid_for[OF fresh_alice alice_run[of peer "''alice''"]] alice_run[of peer "''alice''"]
    by (simp add: fresh_system_def solo_def alice_state_def)
qed

text \<open>
  C10. However the tasks are interleaved, a token on its way to a client is genuine: its signature
  verifies under the public key of the server for the hash and the timestamp in it, and it is in
  the history of the user of that session.
\<close>

theorem interleaved_tokens_are_genuine:
  assumes "sys_init s" and "(sys_step c address)\<^sup>*\<^sup>* s s'"
    and "rsa_correct (c_crypto c) (st_signing_key (sy_state s)) pk" and "i < length (sy_tasks s')"
    and "task_at s' i = Serving (MemberReply se rd (Token h sign ts) out)"
  shows "verify_timestamp_signature (c_crypto c) pk h ts sign = Inr () \<and>
    \<lparr>hr_sign = sign, hr_timestamp = ts\<rparr> \<in> user_records (st_database (sy_state s')) (se_username se)"
proof -
  have "reply_ok c (sy_state s') (se_username se) (Token h sign ts)"
    using task_at_ok[OF run_sys.reachable_inv[OF assms(1,2)] assms(4)] assms(5) by simp
  moreover have "st_signing_key (sy_state s') = st_signing_key (sy_state s)"
    using acts_key[OF sys_steps_acts[OF assms(2) run_sys.init_inv[OF assms(1)]]] by simp
  ultimately show ?thesis using sign_then_verify[OF assms(3)] by (simp add: issued_def)
qed

theorem interleaved_tokens_are_genuine_witness:
  "verify_timestamp_signature plain_crypto () alice_hash (Timestamp 9) alice_signature = Inr () \<and>
   \<lparr>hr_sign = alice_signature, hr_timestamp = Timestamp 9\<rparr> \<in> user_records (st_database alice_done) ''alice''"
proof -
  have c: "c_crypto plain_crates = plain_crypto" by (simp add: plain_crates_def)
  show ?thesis
    using interleaved_tokens_are_genuine[OF fresh_alice buying_run_steps[OF alice_run], of "()" 0 alice_session
        hash_round alice_hash alice_signature "Timestamp 9" False] plain_crypto_correct
    by (simp add: c alice_session_def) (simp add: solo_def fresh_system_def alice_state_def)
qed

text \<open>
  C8. A server that was built and runs, with all its tasks interleaved, changes the shared state
  only by the actions of \<open>server_act\<close>, the interference under which the handler was verified; so its
  database and its logged users stay consistent and its signing key stays the configured one.
\<close>

theorem running_server_refines_actions:
  assumes "build_from_context bi ctx d = (Returns (Inr server), d')"
    and "server = Slow inst \<or> server = Accelerated inst" and "db_inv (st_database (si_state inst))"
    and "(sys_step c (si_address inst))\<^sup>*\<^sup>* (STSServer_run server) s"
  shows "(server_act c)\<^sup>*\<^sup>* (si_state inst) (sy_state s) \<and> server_inv (sy_state s) \<and>
    st_signing_key (sy_state s) = kc_tss_priv (sc_key_context ctx)"
proof -
  have init: "sys_init (STSServer_run server)" "sy_state (STSServer_run server) = si_state inst"
    using built_system_init[OF assms(1-3)] by simp_all
  have a: "(server_act c)\<^sup>*\<^sup>* (si_state inst) (sy_state s)"
    using sys_steps_acts[OF assms(4) run_sys.init_inv[OF init(1)]] init(2) by simp
  have "server_inv (sy_state s)"
    using run_sys.reachable_inv[OF init(1) assms(4)] by (simp add: sys_inv_def)
  with a acts_key[OF a] built_instance[OF assms(1,2)] show ?thesis by simp
qed

theorem running_server_refines_actions_witness:
  "server_inv (sy_state (solo Guest (si_state example_server)))"
proof -
  have fs: "STSServer_run (Slow example_server) = fresh_system (si_state example_server)"
    by (simp add: run_with_signal_def fresh_system_def example_server_def)
  have run: "(sys_step plain_crates (si_address example_server))\<^sup>*\<^sup>* (STSServer_run (Slow example_server))
      (solo Guest (si_state example_server))"
    unfolding fs by (rule buying_run_steps[OF solo_start])
  have "db_inv (st_database (si_state example_server))"
    by (simp add: example_server_def db_inv_def empty_db_def)
  then show ?thesis
    using running_server_refines_actions[OF example_build[of empty_disk] disjI1[OF refl] _ run] by simp
qed



text \<open>
  C32. One client that connects and never finishes its TLS handshake keeps the server from shutting
  down: whatever else happens, signal and cancellation included, as long as that handshake neither
  succeeds nor fails the server does not return.
\<close>

theorem stalled_handshake_blocks_shutdown:
  assumes "i < length (sy_tasks s)" and "task_at s i = Handshaking" and "sy_phase s = Accepting"
    and "(stalled_step c address i)\<^sup>*\<^sup>* s s'"
  shows "task_at s' i = Handshaking \<and> sy_phase s' \<noteq> Stopped (Inr ())"
  using stalled_steps[OF assms(4)] assms(1-3) by (simp add: stalled_def)

theorem stalled_handshake_blocks_shutdown_witness:
  "\<exists>s s'. sy_tasks s = [(peer, Handshaking)] \<and> (stalled_step plain_crates peer 0)\<^sup>*\<^sup>* s s' \<and>
     st_cancel_token (sy_state s') \<and> sy_phase s' = Draining \<and> task_at s' 0 = Handshaking"
proof -
  let ?s = "(fresh_system (alice_state 1))\<lparr>sy_phase := Accepting, sy_tasks := [(peer, Handshaking)]\<rparr>"
  let ?s1 = "?s\<lparr>sy_state := cancel (alice_state 1), sy_signal := False\<rparr>"
  have "run_step plain_crates peer ?s SignalArrives ?s1"
    using run_step.signal_arrives[of ?s plain_crates peer] by (simp add: fresh_system_def)
  then have 1: "stalled_step plain_crates peer 0 ?s ?s1" by (auto simp: stalled_step_def)
  have "run_step plain_crates peer ?s1 AcceptBreaks (?s1\<lparr>sy_phase := Draining\<rparr>)"
    by (rule run_step.accept_breaks) (simp_all add: cancel_def)
  then have 2: "stalled_step plain_crates peer 0 ?s1 (?s1\<lparr>sy_phase := Draining\<rparr>)" by (auto simp: stalled_step_def)
  have run: "(stalled_step plain_crates peer 0)\<^sup>*\<^sup>* ?s (?s1\<lparr>sy_phase := Draining\<rparr>)" using 1 2 by simp
  have "task_at (?s1\<lparr>sy_phase := Draining\<rparr>) 0 = Handshaking"
    using stalled_handshake_blocks_shutdown[OF _ _ _ run] by (simp add: task_at_def)
  with run show ?thesis by (intro exI[of _ ?s] exI[of _ "?s1\<lparr>sy_phase := Draining\<rparr>"]) (simp add: cancel_def)
qed

end
