(* ===== verification/Programs.thy ===== *)
theory Programs
  imports Client_Cli Terraform_Properties Server_Run_Properties
begin

text \<open>
  The entry points of the programs: \<^verbatim>\<open>certification_authority/src/main.rs\<close>, \<^verbatim>\<open>server/src/main.rs\<close>
  with its two modes and \<^verbatim>\<open>client_cli/src/main.rs\<close> around its menu. The arguments are what clap has
  parsed.
\<close>

section \<open>Certification authority\<close>

datatype ca_main_error =
    ReadingCaConfiguration CaConfigError
  | BuildingCaContext ContextConversionError
  | CaStopped SmallServerRunError

definition ca_main ::
    "ca_env \<Rightarrow> ('kp, 'iss, 'csr, 'cert) ca_crates \<Rightarrow> io_error option \<Rightarrow> string \<Rightarrow> ca_accept list
     \<Rightarrow> (ca_main_error + unit) option \<times> ((ClientHandlingError + unit) option \<times> byte list list) list" where
  "ca_main cae g binding config_path evs =
     (case CaConfig_from_file cae config_path of
        Inl e \<Rightarrow> (Some (Inl (ReadingCaConfiguration e)), [])
      | Inr config \<Rightarrow>
     (case convert_to_context cae config of
        Inl e \<Rightarrow> (Some (Inl (BuildingCaContext e)), [])
      | Inr ca_context \<Rightarrow>
     (case ca_run g binding ca_context evs of
        (r, tasks) \<Rightarrow> (map_option (map_err CaStopped) r, tasks))))"

section \<open>Rekey mode of the server\<close>

record RekeyClientManager =
  rm_server_ip :: IpAddr
  rm_organization_name :: DnValue
  rm_server_name :: DnValue
  rm_output :: string
  rm_address :: SocketAddr

text \<open>\<open>runtime\<close> is the failure of creating the runtime.\<close>

definition RekeyClientManager_build ::
    "io_error option \<Rightarrow> IpAddr \<Rightarrow> DnValue \<Rightarrow> DnValue \<Rightarrow> string \<Rightarrow> SocketAddr \<Rightarrow> io_error + RekeyClientManager" where
  "RekeyClientManager_build runtime server_ip organization_dn server_dn output address =
     (case runtime of
        Some e \<Rightarrow> Inl e
      | None \<Rightarrow> Inr \<lparr>rm_server_ip = server_ip, rm_organization_name = organization_dn,
                      rm_server_name = server_dn, rm_output = output, rm_address = address\<rparr>)"

datatype rekey_main_error = StartingRekeyManager io_error | PerformingRekey RekeyClientManagerError

text \<open>\<open>connecting\<close> is the failure of the connection to an address.\<close>

definition rekey_main ::
    "('kp, 'params) rekey_crates \<Rightarrow> ('k, 'iss, 'csr, 'cert) ca_crates \<Rightarrow> io_error option \<Rightarrow> (SocketAddr \<Rightarrow> io_error option)
     \<Rightarrow> ca_link \<Rightarrow> write_outcome \<Rightarrow> SocketAddr \<Rightarrow> IpAddr \<Rightarrow> DnValue \<Rightarrow> DnValue \<Rightarrow> string \<Rightarrow> files
     \<Rightarrow> (rekey_main_error + unit) \<times> files" where
  "rekey_main rg g runtime connecting link wr address server_ip organization_dn server_dn output fs =
     (case RekeyClientManager_build runtime server_ip organization_dn server_dn output address of
        Inl e \<Rightarrow> (Inl (StartingRekeyManager e), fs)
      | Inr manager \<Rightarrow>
          (case rekey rg g (connecting (rm_address manager)) link wr
                  \<lparr>rk_server_ip = rm_server_ip manager, rk_organization_name = rm_organization_name manager,
                   rk_server_name = rm_server_name manager, rk_output = rm_output manager\<rparr> fs of
             (r, fs) \<Rightarrow> (map_err PerformingRekey r, fs)))"

section \<open>Main of the server\<close>

datatype Mode =
    ModeConfig string
  | ModeRekey SocketAddr IpAddr DnValue DnValue string

record ServerCli =
  cli_mode :: Mode

datatype server_main_error =
    StartingServer start_error
  | RunningServer STSServerRunError
  | Rekeying rekey_main_error

text \<open>
  What \<^verbatim>\<open>main\<close> comes to: it returns, it runs a server (whose steps are those of \<open>run_step\<close>), or it
  panics while the server is built.
\<close>

datatype 'sk server_main_state =
    MainReturns "server_main_error + unit"
  | MainRuns SocketAddr "'sk system"
  | MainPanics

fun STSServer_address :: "('tls, 'sk, 'sock) STSServer \<Rightarrow> SocketAddr" where
  "STSServer_address (Accelerated server) = si_address server"
| "STSServer_address (Slow server) = si_address server"

definition server_main ::
    "('cert, 'key, 'sk, 'sock) config_env \<Rightarrow> ('cert, 'key, 'tls) build_inputs
     \<Rightarrow> ('kp, 'params) rekey_crates \<Rightarrow> ('k, 'iss, 'csr, 'c) ca_crates \<Rightarrow> io_error option
     \<Rightarrow> (SocketAddr \<Rightarrow> io_error option) \<Rightarrow> ca_link \<Rightarrow> write_outcome \<Rightarrow> ServerCli \<Rightarrow> disk \<Rightarrow> files
     \<Rightarrow> 'sk server_main_state \<times> disk \<times> files" where
  "server_main ce bi rg g runtime connecting link wr cli d fs =
     (case cli_mode cli of
        ModeConfig config_path \<Rightarrow>
          (case start_from_config ce bi config_path d of
             (Panic, d) \<Rightarrow> (MainPanics, d, fs)
           | (Returns (Inl e), d) \<Rightarrow> (MainReturns (Inl (StartingServer e)), d, fs)
           | (Returns (Inr server), d) \<Rightarrow> (MainRuns (STSServer_address server) (STSServer_run server), d, fs))
      | ModeRekey address server_ip organization_dn server_dn output \<Rightarrow>
          (case rekey_main rg g runtime connecting link wr address server_ip organization_dn server_dn output fs of
             (r, fs) \<Rightarrow> (MainReturns (map_err Rekeying r), d, fs)))"

text \<open>The result of \<^verbatim>\<open>server.run()\<close> once the system has stopped.\<close>

definition server_main_end :: "'sk system \<Rightarrow> (server_main_error + unit) option" where
  "server_main_end s = (case sy_phase s of Stopped r \<Rightarrow> Some (map_err RunningServer r) | _ \<Rightarrow> None)"

section \<open>Main of the client\<close>

datatype client_start_error =
    ReadingClientConfiguration ClientConfigError
  | ParsingClientConfiguration ClientContextConversionError
  | Connecting ClientError

definition client_start ::
    "('cert, 'pk) client_env \<Rightarrow> ('cert, 'root, 'name) tls_inputs \<Rightarrow> string \<Rightarrow> client_start_error + 'pk STSSClient" where
  "client_start cv ti config_path =
     result_bind (map_err ReadingClientConfiguration (ClientConfig_from_file cv config_path)) (\<lambda>config.
     result_bind (map_err ParsingClientConfiguration (to_client_context cv config)) (\<lambda>client_context.
     map_err Connecting (connect_from_context ti client_context)))"

text \<open>\<^verbatim>\<open>close\<close> shuts the TLS stream down; \<open>shutdown\<close> is the failure of that.\<close>

definition STSSClient_close :: "io_error option \<Rightarrow> 'pk STSSClient \<Rightarrow> io_error + unit" where
  "STSSClient_close shutdown client = (case shutdown of Some e \<Rightarrow> Inl e | None \<Rightarrow> Inr ())"

datatype client_line =
    ConnectionEstablished
  | MenuLine cli_msg
  | ClientClosed
  | ErrorClosingClient io_error

text \<open>The menu is left by its last entry or by a prompt that fails.\<close>

definition leaves_menu :: "cli_round \<Rightarrow> bool" where
  "leaves_menu rd \<longleftrightarrow> in_choice rd = None \<or> in_choice rd = Some ''Exit''"

text \<open>The result (\<open>None\<close> while the menu goes on), what was printed, and the files.\<close>

definition client_main ::
    "('cert, 'pk) client_env \<Rightarrow> ('cert, 'root, 'name) tls_inputs \<Rightarrow> ('h, 'sk, 'pk, 'dt) cli_env \<Rightarrow> io_error option
     \<Rightarrow> string \<Rightarrow> cli_round list \<Rightarrow> cli_files
     \<Rightarrow> ((client_start_error + unit) option \<times> client_line list \<times> cli_files) outcome" where
  "client_main cv ti env shutdown config_path rds files =
     (case client_start cv ti config_path of
        Inl e \<Rightarrow> Returns (Some (Inl e), [], files)
      | Inr client \<Rightarrow>
     (case cli_loop (env\<lparr>env_client := client\<rparr>) rds \<lparr>is_logged_in = False, cli_files = files\<rparr> of
        Panic \<Rightarrow> Panic
      | Returns (msgs, st) \<Rightarrow>
          (let printed = ConnectionEstablished # map MenuLine msgs
           in if list_ex leaves_menu rds
              then Returns (Some (Inr ()),
                     printed @ [case STSSClient_close shutdown client of
                                  Inr _ \<Rightarrow> ClientClosed
                                | Inl e \<Rightarrow> ErrorClosingClient e],
                     cli_files st)
              else Returns (None, printed, cli_files st))))"

section \<open>Lemmas\<close>

text \<open>The rounds after the one that leaves the menu are not used.\<close>

lemma cli_loop_leaves:
  assumes "leaves_menu rd"
  shows "cli_loop env (rds @ rd # rest) st = cli_loop env (rds @ [rd]) st"
proof (induction rds arbitrary: st)
  case Nil
  then show ?case using assms by (auto simp: cli_step_def leaves_menu_def)
next
  case (Cons r rds)
  then show ?case by (simp split: outcome.split prod.split)
qed

lemma client_main_exit:
  assumes "leaves_menu rd"
  shows "client_main cv ti env shutdown path (rds @ rd # rest) files =
    client_main cv ti env shutdown path (rds @ [rd]) files"
proof (cases "client_start cv ti path")
  case (Inr client)
  have "cli_loop (env\<lparr>env_client := client\<rparr>) (rds @ rd # rest) st =
      cli_loop (env\<lparr>env_client := client\<rparr>) (rds @ [rd]) st" for st
    by (rule cli_loop_leaves[OF assms])
  note eq = this[of "\<lparr>is_logged_in = False, cli_files = files\<rparr>"]
  have ex: "list_ex leaves_menu (rds @ rd # rest) = list_ex leaves_menu (rds @ [rd])" using assms by simp
  show ?thesis unfolding client_main_def Inr sum.case eq ex by (rule refl)
qed (simp add: client_main_def)

text \<open>
  A failure to close the stream does not make the client fail: once the menu is left, \<^verbatim>\<open>main\<close>
  returns \<^verbatim>\<open>Ok\<close>.
\<close>

lemma client_main_returns_ok:
  assumes "client_main cv ti env shutdown path rds files = Returns (Some r, printed, files')"
    and "client_start cv ti path = Inr client"
  shows "r = Inr () \<and> list_ex leaves_menu rds \<and>
    last printed = (case shutdown of None \<Rightarrow> ClientClosed | Some e \<Rightarrow> ErrorClosingClient e)"
  using assms
  by (auto simp: client_main_def STSSClient_close_def Let_def split: outcome.splits prod.splits if_splits option.splits)


text \<open>A started client verifies with the key of the file its configuration names.\<close>

lemma client_start_configured:
  assumes "client_start cv ti path = Inr client"
  obtains conf bytes where "ClientConfig_from_file cv path = Inr conf"
    and "client_read cv (kg_server_rsa_public_key_path (cg_keys conf)) (Some ''pem'') = Inr bytes"
    and "cv_public_key cv (map (\<lambda>b. char_of (unat b)) bytes) = Inr (cl_server_rsa_public_key client)"
proof -
  obtain conf ctx where c: "ClientConfig_from_file cv path = Inr conf" "to_client_context cv conf = Inr ctx"
    "connect_from_context ti ctx = Inr client"
    using assms by (auto simp: client_start_def result_bind_Inr_iff)
  from connected_with_configured_key(1)[OF c(2,3)] c(1) that show thesis by blast
qed

text \<open>
  In a generated environment the client uses the public key of the generation, and the
  authority runs with its certificate and key.
\<close>

lemma client_start_generated:
  assumes "client_finds cv path conf km" and "client_start cv ti path = Inr client"
  shows "cv_public_key cv (km_rsa_pub km) = Inr (cl_server_rsa_public_key client)"
proof -
  have m: "map (\<lambda>b. char_of (unat b)) (utf8_bytes (km_rsa_pub km)) = km_rsa_pub km"
    by (simp add: utf8_bytes_def comp_def unat_of_nat)
  from assms(2) obtain conf' bytes where c: "ClientConfig_from_file cv path = Inr conf'"
    "client_read cv (kg_server_rsa_public_key_path (cg_keys conf')) (Some ''pem'') = Inr bytes"
    "cv_public_key cv (map (\<lambda>b. char_of (unat b)) bytes) = Inr (cl_server_rsa_public_key client)"
    by (rule client_start_configured)
  have "bytes = utf8_bytes (km_rsa_pub km)" using c(1,2) assms(1) by (simp add: client_finds_def)
  with c(3) m show ?thesis by (simp only:)
qed

lemma ca_main_generated:
  assumes "ca_finds cae path conf ip km"
  shows "ca_main cae g None path (CaAccepted [Frame message None, EndOfStream] # evs) =
    (let ctx = \<lparr>ca_address = \<lparr>addr_ip = ip, addr_port = DEFAULT_CA_IP_PORT\<rparr>,
                ca_cert_pem = utf8_bytes (km_ca_cert km), ca_key_pem = utf8_bytes (km_ca_key km)\<rparr>;
         (r, tasks) = ca_loop g ctx evs
     in (map_option (map_err CaStopped) r, handle_client g ctx [Frame message None, EndOfStream] # tasks))"
  using assms by (simp add: ca_finds_def ca_main_def ca_run_def Let_def split: prod.splits)

text \<open>
  The configuration mode: what runs is a system that starts in its initial state, on the address
  of the server, so everything shown of running servers holds of it.
\<close>

lemma server_main_runs:
  assumes "server_main ce bi rg g runtime connecting link wr cli d fs = (MainRuns a s, d', fs')"
  obtains path server where "cli_mode cli = ModeConfig path"
    and "start_from_config ce bi path d = (Returns (Inr server), d')"
    and "s = STSServer_run server" and "a = STSServer_address server" and "fs' = fs"
  using assms
  by (auto simp: server_main_def split: Mode.splits outcome.splits prod.splits sum.splits)

text \<open>
  A server that \<^verbatim>\<open>main\<close> runs signs, in every state it reaches, with the key that its configuration
  names, and keeps the database it opened consistent.
\<close>

lemma server_main_consistent:
  assumes "server_main ce bi rg g runtime connecting link wr cli d fs = (MainRuns a s, d', fs')"
    and "db_inv (st_database (sy_state s))" and "(sys_step c a)\<^sup>*\<^sup>* s s'"
  shows "\<exists>path conf ctx. cli_mode cli = ModeConfig path \<and> Config_from_file ce path = Inr conf \<and>
    to_server_context ce conf = Inr ctx \<and> server_inv (sy_state s') \<and>
    st_signing_key (sy_state s') = kc_tss_priv (sc_key_context ctx)"
proof -
  obtain path server where m: "cli_mode cli = ModeConfig path"
    "start_from_config ce bi path d = (Returns (Inr server), d')" "s = STSServer_run server"
    by (rule server_main_runs[OF assms(1)])
  obtain conf ctx where k: "Config_from_file ce path = Inr conf" "to_server_context ce conf = Inr ctx"
    "build_from_context bi ctx d = (Returns (Inr server), d')" by (rule started_from_context[OF m(2)])
  obtain inst where i: "server = Slow inst \<or> server = Accelerated inst" by (cases server) auto
  have st: "sy_state s = si_state inst" using m(3) i by (auto simp: run_with_signal_def)
  have init: "sys_init s" using built_system_init[OF k(3) i] assms(2) st m(3) by simp
  have "server_inv (sy_state s')" using run_sys.reachable_inv[OF init assms(3)] by (simp add: sys_inv_def)
  moreover have "st_signing_key (sy_state s') = st_signing_key (si_state inst)"
    using acts_key[OF sys_steps_acts[OF assms(3) run_sys.init_inv[OF init]]] st by simp
  ultimately show ?thesis using m(1) k built_instance[OF k(3) i] by auto
qed

end
