(* ===== verification/Server_Composition.thy ===== *)
theory Server_Composition
  imports Server_Run_Properties
begin

text \<open>
  Runs of the server given by the list of their labels, and what one connection sees of such a
  run: the part of a run that belongs to one connection is a run of \<open>conn_handler\<close>, on the
  rounds the connection fetched, with the steps of all other tasks as the interference between
  its accesses. So what is proved of the handler under interference holds for every connection
  of the running server.
\<close>

section \<open>Executable steps\<close>

fun task_done :: "'sk conn_task \<Rightarrow> bool" where
  "task_done TaskDone = True"
| "task_done _ = False"

fun run_next ::
    "('h, 'sk, 'pk, 'ph) crates \<Rightarrow> SocketAddr \<Rightarrow> 'sk label \<Rightarrow> 'sk system \<Rightarrow> 'sk system option" where
  "run_next c address Bound s =
     (case sy_phase s of Binding \<Rightarrow> Some (s\<lparr>sy_phase := Accepting\<rparr>) | _ \<Rightarrow> None)"
| "run_next c address (BindFails e) s =
     (case sy_phase s of Binding \<Rightarrow> Some (s\<lparr>sy_phase := Stopped (Inl (bind_error address e))\<rparr>) | _ \<Rightarrow> None)"
| "run_next c address (AcceptsConnection a) s =
     (case sy_phase s of Accepting \<Rightarrow> Some (s\<lparr>sy_tasks := sy_tasks s @ [(a, Handshaking)]\<rparr>) | _ \<Rightarrow> None)"
| "run_next c address (AcceptError e) s = (case sy_phase s of Accepting \<Rightarrow> Some s | _ \<Rightarrow> None)"
| "run_next c address AcceptBreaks s =
     (case sy_phase s of
        Accepting \<Rightarrow> if st_cancel_token (sy_state s) then Some (s\<lparr>sy_phase := Draining\<rparr>) else None
      | _ \<Rightarrow> None)"
| "run_next c address (HandshakeOk i) s =
     (if i < length (sy_tasks s)
      then case task_at s i of
             Handshaking \<Rightarrow> Some (set_task i (Serving Guest) (sy_state s) s)
           | _ \<Rightarrow> None
      else None)"
| "run_next c address (HandshakeError i e) s =
     (if i < length (sy_tasks s)
      then case task_at s i of
             Handshaking \<Rightarrow> Some (set_task i TaskDone (sy_state s) s)
           | _ \<Rightarrow> None
      else None)"
| "run_next c address (Fetches i rd) s =
     (if i < length (sy_tasks s)
      then case task_at s i of
             Serving pc \<Rightarrow>
               if waits pc \<and> (rd_select rd = Cancelled \<longrightarrow> st_cancel_token (sy_state s))
               then Some (set_task i (Serving (pc_fetch c (address_at s i) pc rd (sy_state s))) (sy_state s) s)
               else None
           | _ \<Rightarrow> None
      else None)"
| "run_next c address (Accesses i) s =
     (if i < length (sy_tasks s)
      then case task_at s i of
             Serving pc \<Rightarrow>
               if waits pc \<or> over pc then None
               else let (pc', st', sent) = pc_step c (address_at s i) pc (sy_state s)
                    in Some (set_task i (Serving pc') st' s)
           | _ \<Rightarrow> None
      else None)"
| "run_next c address (Exits i) s =
     (if i < length (sy_tasks s)
      then case task_at s i of
             Serving pc \<Rightarrow> if over pc then Some (set_task i TaskDone (task_exit pc (sy_state s)) s) else None
           | _ \<Rightarrow> None
      else None)"
| "run_next c address (ClockSets n) s =
     (if sy_worker s \<and> \<not> stopped (sy_phase s)
      then Some (s\<lparr>sy_state := (sy_state s)\<lparr>st_time_oracle := \<lparr>offset_nanos = n\<rparr>\<rparr>\<rparr>) else None)"
| "run_next c address ClockFails s =
     (if sy_worker s \<and> \<not> stopped (sy_phase s)
      then Some (s\<lparr>sy_state := cancel (sy_state s), sy_worker := False\<rparr>) else None)"
| "run_next c address ClockPanics s =
     (if sy_worker s \<and> \<not> stopped (sy_phase s) then Some (s\<lparr>sy_worker := False\<rparr>) else None)"
| "run_next c address SignalArrives s =
     (if sy_signal s \<and> \<not> stopped (sy_phase s)
      then Some (s\<lparr>sy_state := cancel (sy_state s), sy_signal := False\<rparr>) else None)"
| "run_next c address TrackerDone s =
     (case sy_phase s of
        Draining \<Rightarrow> if list_all (task_done \<circ> snd) (sy_tasks s) then Some (s\<lparr>sy_phase := Stopped (Inr ())\<rparr>) else None
      | _ \<Rightarrow> None)"

fun run_labels ::
    "('h, 'sk, 'pk, 'ph) crates \<Rightarrow> SocketAddr \<Rightarrow> 'sk label list \<Rightarrow> 'sk system \<Rightarrow> 'sk system option" where
  "run_labels c address [] s = Some s"
| "run_labels c address (l # ls) s =
     (case run_next c address l s of None \<Rightarrow> None | Some s' \<Rightarrow> run_labels c address ls s')"

lemma task_done_iff: "task_done t \<longleftrightarrow> t = TaskDone"
  by (cases t) simp_all

lemma run_next_sound: "run_next c address l s = Some t \<Longrightarrow> run_step c address s l t"
  by (cases l) (auto simp: task_done_iff list_all_iff Let_def
      split: accept_phase.splits if_splits conn_task.splits prod.splits intro: run_step.intros)

lemma run_next_complete: "run_step c address s l t \<Longrightarrow> run_next c address l s = Some t"
  by (induction rule: run_step.induct) (auto simp: task_done_iff list_all_iff)

lemma run_step_iff: "run_step c address s l t \<longleftrightarrow> run_next c address l s = Some t"
  using run_next_sound run_next_complete by blast

lemma run_labels_steps: "run_labels c address ls s = Some t \<Longrightarrow> (sys_step c address)\<^sup>*\<^sup>* s t"
proof (induction ls arbitrary: s)
  case (Cons l ls)
  from Cons.prems obtain u where u: "run_next c address l s = Some u" "run_labels c address ls u = Some t"
    by (auto split: option.splits)
  have "sys_step c address s u" using run_next_sound[OF u(1)] by (auto simp: sys_step_def)
  with Cons.IH[OF u(2)] show ?case by (meson converse_rtranclp_into_rtranclp)
qed simp

lemma steps_run_labels: "(sys_step c address)\<^sup>*\<^sup>* s t \<Longrightarrow> \<exists>ls. run_labels c address ls s = Some t"
proof (induction rule: converse_rtranclp_induct)
  case base
  have "run_labels c address [] t = Some t" by simp
  then show ?case by blast
next
  case (step s u)
  then obtain l ls where "run_next c address l s = Some u" "run_labels c address ls u = Some t"
    by (auto simp: sys_step_def run_step_iff)
  then have "run_labels c address (l # ls) s = Some t" by simp
  then show ?case by blast
qed

section \<open>Interference as a parameter of the rounds\<close>

text \<open>
  A program point holds the inputs of its round; the interference of the round plays no role in
  the steps. \<open>next_access\<close> numbers the accesses of a round, in the order they are made.
\<close>

definition with_env ::
    "(nat \<Rightarrow> 'sk STSServerState \<Rightarrow> 'sk STSServerState) \<Rightarrow> 'sk round \<Rightarrow> 'sk round" where
  "with_env e rd = rd\<lparr>rd_env := e\<rparr>"

definition same_inputs :: "'sk round list \<Rightarrow> 'sk round list \<Rightarrow> bool" where
  "same_inputs rds rds' \<longleftrightarrow> map (with_env (\<lambda>i st. st)) rds = map (with_env (\<lambda>i st. st)) rds'"

definition next_access :: "'sk round pc \<Rightarrow> nat" where
  "next_access pc = (case access pc of Some i \<Rightarrow> i | None \<Rightarrow> 6)"

lemma with_env_simps [simp]:
  "rd_env (with_env e rd) = e" "rd_select (with_env e rd) = rd_select rd" "rd_sql (with_env e rd) = rd_sql rd"
  "rd_salt (with_env e rd) = rd_salt rd" "rd_now (with_env e rd) = rd_now rd"
  "rd_spawn (with_env e rd) = rd_spawn rd" "rd_send (with_env e rd) = rd_send rd"
  "with_env e' (with_env e rd) = with_env e' rd"
  by (simp_all add: with_env_def)

lemma map_pc_stop [simp]: "waits pc \<or> over pc \<Longrightarrow> map_pc f pc = pc"
  by (cases pc) auto

lemma waits_map [simp]: "waits (map_pc f pc) = waits pc" and over_map [simp]: "over (map_pc f pc) = over pc"
  by (cases pc; simp)+

lemma access_map [simp]: "access (map_pc f pc) = access pc"
  by (cases pc) simp_all

lemma leave_map [simp]: "map_pc f (leave r) = leave r"
  by (cases r rule: leave.cases) simp_all

lemma answer_map [simp]: "map_pc f (answer se rd r) = answer se (f rd) r"
  by (simp add: answer_def split: sum.split)

lemma guest_dispatch_map: "map_pc f (guest_dispatch rd req) = guest_dispatch (f rd) req"
  by (cases "(rd, req)" rule: guest_dispatch.cases) (auto split: option.split)

lemma member_dispatch_map: "map_pc f (member_dispatch se rd req) = member_dispatch se (f rd) req"
  by (cases req) simp_all

lemma pc_fetch_map:
  assumes "waits pc"
  shows "pc_fetch c a pc (with_env e rd) st = map_pc (with_env e) (pc_fetch c a pc rd st)"
  using assms by (cases pc) (auto simp: guest_dispatch_map member_dispatch_map split: sum.split option.split)

lemma pc_step_map:
  "pc_step c a (map_pc (with_env e) pc) st =
     (let (pc', st', sent) = pc_step c a pc st in (map_pc (with_env e) pc', st', sent))"
  by (cases pc) (auto simp: Let_def split: sum.split option.split prod.split outcome.split
      AuthenticationError.split RegistrationError.split)

lemma next_access_answer [simp]: "4 \<le> next_access (answer se rd r)"
  by (simp add: answer_def next_access_def split: sum.split)

lemma next_access_leave [simp]: "next_access (leave r) = 6"
  by (cases r rule: leave.cases) (simp_all add: next_access_def)

lemma next_access_less:
  "\<not> waits pc \<Longrightarrow> \<not> over pc \<Longrightarrow> pc_step c a pc st = (pc', st', sent) \<Longrightarrow> next_access pc < next_access pc'"
  by (cases pc) (auto simp: Let_def next_access_def[of "LoginVerify _ _ _"] next_access_def[of "LoginInsert _ _"]
      next_access_def[of "SignUpRegister _ _ _"] next_access_def[of "GuestReply _ _ _"]
      next_access_def[of "SignCharge _ _ _"] next_access_def[of "SignTime _ _ _"]
      next_access_def[of "SignRecord _ _ _ _ _"] next_access_def[of "SignRefund _ _"]
      next_access_def[of "PurchaseAdd _ _ _"] next_access_def[of "CountTokens _ _"]
      next_access_def[of "ReadHistory _ _"] next_access_def[of "MemberReply _ _ _ _"]
      next_access_def[of "LeaveSession _ _"] next_access_def[of "Ended _"] next_access_def[of TaskPanicked]
      next_access_def[of Guest] next_access_def[of "Member _"] less_le_trans[OF _ next_access_answer]
      split: sum.splits option.splits prod.splits outcome.splits if_splits
        AuthenticationError.splits RegistrationError.splits)

lemma next_access_pos: "0 < next_access pc"
  by (cases pc) (simp_all add: next_access_def)

lemma settle_env: "rd_env rd = rd_env rd' \<Longrightarrow> settle c a rd pc st = settle c a rd' pc st"
proof (induction c a rd pc st rule: settle.induct)
  case (1 c a rd pc st)
  show ?case
  proof (cases "waits pc \<or> over pc")
    case False
    obtain pc1 st1 sent1 where p: "pc_step c a pc (interfere rd pc st) = (pc1, st1, sent1)"
      by (metis prod_cases3)
    moreover have "interfere rd' pc st = interfere rd pc st" using 1(2) by (simp add: interfere_def split: option.split)
    moreover note 1(1)[OF False refl p[symmetric] refl 1(2)]
    ultimately show ?thesis using False by (simp add: settle_go)
  qed simp
qed

section \<open>Moves of one connection\<close>

text \<open>
  A move of a connection: other tasks act, and then the connection fetches a request or makes
  one access. The rounds fetched and the responses sent are collected.
\<close>

type_synonym 'sk conn_state = "'sk round pc \<times> 'sk STSServerState \<times> 'sk round list \<times> Response list"

inductive task_move ::
    "('h, 'sk, 'pk, 'ph) crates \<Rightarrow> SocketAddr \<Rightarrow> 'sk conn_state \<Rightarrow> 'sk conn_state \<Rightarrow> bool"
  for c a where
  move_fetch: "waits pc \<Longrightarrow> (server_act c)\<^sup>*\<^sup>* st st0 \<Longrightarrow>
    task_move c a (pc, st, rds, out) (pc_fetch c a pc rd st0, st0, rds @ [rd], out)"
| move_access: "\<not> waits pc \<Longrightarrow> \<not> over pc \<Longrightarrow> (server_act c)\<^sup>*\<^sup>* st st0 \<Longrightarrow>
    pc_step c a pc st0 = (pc', st', sent) \<Longrightarrow>
    task_move c a (pc, st, rds, out) (pc', st', rds, out @ sent)"

inductive_cases task_moveE [consumes 1, case_names fetch access]: "task_move c a (pc, st, rds, out) t"

text \<open>
  \<open>resume\<close>: the handler from any program point, to the end of its round under the interference
  of \<open>rd\<close> and then through further rounds. \<open>acting\<close>: an interference by actions of the server.
\<close>

definition resume ::
    "('h, 'sk, 'pk, 'ph) crates \<Rightarrow> SocketAddr \<Rightarrow> 'sk round \<Rightarrow> 'sk round list \<Rightarrow> 'sk round pc \<Rightarrow> 'sk STSServerState
     \<Rightarrow> (HandlerError + ClosedStreamReason, 'sk round) run \<times> 'sk STSServerState \<times> Response list" where
  "resume c a rd rds pc st =
     (let (pc1, st1, sent1) = settle c a rd (map_pc (with_env (rd_env rd)) pc) st;
          (result, st2, sent2) = conn_run c a rds pc1 st1
      in (result, st2, sent1 @ sent2))"

definition acting ::
    "('h, 'sk, 'pk, 'ph) crates \<Rightarrow> (nat \<Rightarrow> 'sk STSServerState \<Rightarrow> 'sk STSServerState) \<Rightarrow> bool" where
  "acting c e \<longleftrightarrow> (\<forall>i st. (server_act c)\<^sup>*\<^sup>* st (e i st))"

definition act_at ::
    "nat \<Rightarrow> 'sk STSServerState \<Rightarrow> 'sk STSServerState \<Rightarrow> (nat \<Rightarrow> 'sk STSServerState \<Rightarrow> 'sk STSServerState)
     \<Rightarrow> nat \<Rightarrow> 'sk STSServerState \<Rightarrow> 'sk STSServerState" where
  "act_at i st st0 e = e(i := (\<lambda>s. if s = st then st0 else s))"

lemma act_at_simps [simp]: "act_at i st st0 e i st = st0" "j \<noteq> i \<Longrightarrow> act_at i st st0 e j = e j"
  by (simp_all add: act_at_def)

lemma acting_act_at: "acting c e \<Longrightarrow> (server_act c)\<^sup>*\<^sup>* st st0 \<Longrightarrow> acting c (act_at i st st0 e)"
  by (simp add: acting_def act_at_def)

lemma env_ok_with_env: "env_ok c (with_env e rd) \<longleftrightarrow> acting c e"
  by (simp add: env_ok_def acting_def)

lemma resume_waits: "waits pc \<or> over pc \<Longrightarrow> resume c a rd rds pc st = conn_run c a rds pc st"
  by (simp add: resume_def split_beta)

lemma resume_fetch:
  assumes "waits pc" and "rd_env rd' = act_at 0 st st0 e"
    and "resume c a rd' rds (pc_fetch c a pc rd st0) st0 = (r, st', sent)"
  shows "conn_run c a (with_env (act_at 0 st st0 e) rd # rds) pc st = (r, st', sent)"
proof -
  have "\<not> over pc" using assms(1) by (cases pc) auto
  then show ?thesis
    using assms(3) settle_env[of rd' "with_env (act_at 0 st st0 e) rd" c a] assms(1,2)
    by (simp add: resume_def pc_fetch_map)
qed

lemma resume_access:
  assumes "\<not> waits pc" and "\<not> over pc" and "pc_step c a pc st0 = (pc1, st1, sent1)"
    and "rd_env rd (next_access pc) st = st0"
    and "resume c a rd rds pc1 st1 = (r, st', sent)"
  shows "resume c a rd rds pc st = (r, st', sent1 @ sent)"
proof -
  have "access pc \<noteq> None" using assms(1,2) by (cases pc) auto
  then have "interfere rd (map_pc (with_env (rd_env rd)) pc) st = st0"
    using assms(4) by (auto simp: interfere_def next_access_def)
  then have "settle c a rd (map_pc (with_env (rd_env rd)) pc) st =
      (let (pc2, st2, sent2) = settle c a rd (map_pc (with_env (rd_env rd)) pc1) st1 in (pc2, st2, sent1 @ sent2))"
    using settle_go[of "map_pc (with_env (rd_env rd)) pc" c a rd st] assms(1-3) by (simp add: pc_step_map)
  with assms(5) show ?thesis by (auto simp: resume_def Let_def split: prod.splits)
qed

text \<open>
  Moves up to a program point where the handler waits or has ended are a run of the handler,
  with an interference that agrees with what happened before each access.
\<close>

lemma moves_resume:
  assumes "(task_move c a)\<^sup>*\<^sup>* (pc, st, rs, out) (pc', st', rs', out')" and "waits pc' \<or> over pc'"
  shows "\<exists>e rds sent. acting c e \<and> (\<forall>rd \<in> set rds. env_ok c rd) \<and>
    (\<exists>rs1. rs' = rs @ rs1 \<and> same_inputs rds rs1) \<and> out' = out @ sent \<and>
    (\<forall>rd. (\<forall>i \<ge> next_access pc. rd_env rd i = e i) \<longrightarrow>
       resume c a rd rds pc st = (run_result pc' [], st', sent))"
  using assms(1)
proof (induction "(pc, st, rs, out)" arbitrary: pc st rs out rule: converse_rtranclp_induct)
  case base
  have "resume c a rd [] pc' st' = (run_result pc' [], st', [])" for rd
    using assms(2) by (simp add: resume_waits)
  then show ?case
    by (intro exI[of _ "\<lambda>i st. st"] exI[of _ "[]"]) (auto simp: acting_def same_inputs_def)
next
  case (step y)
  from step(1) show ?case
  proof (cases rule: task_moveE)
    case (fetch st0 rd)
    from step(3)[OF fetch(1)] obtain e rds sent rs1 where
      e: "acting c e" "\<forall>rd \<in> set rds. env_ok c rd" "rs' = (rs @ [rd]) @ rs1" "same_inputs rds rs1" "out' = out @ sent"
      and run: "\<forall>rd'. (\<forall>i \<ge> next_access (pc_fetch c a pc rd st0). rd_env rd' i = e i) \<longrightarrow>
        resume c a rd' rds (pc_fetch c a pc rd st0) st0 = (run_result pc' [], st', sent)"
      by blast
    let ?e = "act_at 0 st st0 e"
    have "\<forall>i \<ge> next_access (pc_fetch c a pc rd st0). rd_env (with_env ?e rd) i = e i"
      using next_access_pos[of "pc_fetch c a pc rd st0"] by simp
    then have "resume c a (with_env ?e rd) rds (pc_fetch c a pc rd st0) st0 = (run_result pc' [], st', sent)"
      using run by blast
    then have "conn_run c a (with_env ?e rd # rds) pc st = (run_result pc' [], st', sent)"
      by (rule resume_fetch[OF fetch(2) with_env_simps(1)])
    then have "resume c a rd' (with_env ?e rd # rds) pc st = (run_result pc' [], st', sent)" for rd'
      using fetch(2) by (simp add: resume_waits)
    moreover have "acting c ?e" using e(1) fetch(3) by (rule acting_act_at)
    moreover from this have "\<forall>x \<in> set (with_env ?e rd # rds). env_ok c x"
      using e(2) by (simp add: env_ok_with_env)
    moreover have "same_inputs (with_env ?e rd # rds) (rd # rs1)" using e(4) by (simp add: same_inputs_def)
    moreover have "rs' = rs @ rd # rs1" using e(3) by simp
    ultimately show ?thesis using e(5) by blast
  next
    case (access st0 pc1 st1 sent1)
    from step(3)[OF access(1)] obtain e rds sent where
      e: "acting c e" "\<forall>rd \<in> set rds. env_ok c rd" "\<exists>rs1. rs' = rs @ rs1 \<and> same_inputs rds rs1"
        "out' = (out @ sent1) @ sent"
      and run: "\<forall>rd'. (\<forall>i \<ge> next_access pc1. rd_env rd' i = e i) \<longrightarrow>
        resume c a rd' rds pc1 st1 = (run_result pc' [], st', sent)"
      by blast
    let ?e = "act_at (next_access pc) st st0 e"
    have "resume c a rd' rds pc st = (run_result pc' [], st', sent1 @ sent)"
      if rd': "\<forall>i \<ge> next_access pc. rd_env rd' i = ?e i" for rd'
    proof (rule resume_access[OF access(2,3,5)])
      show "rd_env rd' (next_access pc) st = st0" using rd' by simp
      have "\<forall>i \<ge> next_access pc1. rd_env rd' i = e i"
        using rd' next_access_less[OF access(2,3,5)] by simp
      with run show "resume c a rd' rds pc1 st1 = (run_result pc' [], st', sent)" by blast
    qed
    moreover have "acting c ?e" using e(1) access(4) by (rule acting_act_at)
    moreover have "out' = out @ (sent1 @ sent)" using e(4) by simp
    ultimately show ?thesis using e(2,3) by blast
  qed
qed

lemma moves_run_handler:
  fixes c :: "('h, 'sk, 'pk, 'ph) crates"
  assumes "(task_move c a)\<^sup>*\<^sup>* (Guest, st, [], []) (pc', st', rs, out)" and "waits pc' \<or> over pc'"
  shows "\<exists>rds. (\<forall>rd \<in> set rds. env_ok c rd) \<and> same_inputs rds rs \<and>
    conn_handler c a rds st = (run_result pc' [], st', out)"
proof -
  from moves_resume[OF assms] obtain e rds sent rs1 where
    rds: "\<forall>rd \<in> set rds. env_ok c rd" "out = [] @ sent"
    and run: "\<forall>rd. (\<forall>i \<ge> next_access (Guest :: 'sk round pc). rd_env rd i = e i) \<longrightarrow>
      resume c a rd rds Guest st = (run_result pc' [], st', sent)"
    and rs: "rs = [] @ rs1" "same_inputs rds rs1"
    by blast
  have "resume c a (with_env e undefined) rds Guest st = (run_result pc' [], st', sent)"
    using run[rule_format, of "with_env e undefined"] by simp
  then have "conn_handler c a rds st = (run_result pc' [], st', out)"
    using rds(2) by (simp add: resume_waits conn_handler_def conn_run_handler)
  with rds(1) rs show ?thesis by auto
qed

section \<open>The part of a run that belongs to a connection\<close>

fun rounds_of :: "nat \<Rightarrow> 'sk label list \<Rightarrow> 'sk round list" where
  "rounds_of i [] = []"
| "rounds_of i (Fetches j rd # ls) = (if j = i then rd # rounds_of i ls else rounds_of i ls)"
| "rounds_of i (l # ls) = rounds_of i ls"

text \<open>The responses a connection sent.\<close>

fun sent_now :: "('h, 'sk, 'pk, 'ph) crates \<Rightarrow> nat \<Rightarrow> 'sk label \<Rightarrow> 'sk system \<Rightarrow> Response list" where
  "sent_now c i (Accesses j) s =
     (case task_at s i of
        Serving pc \<Rightarrow> if j = i then snd (snd (pc_step c (address_at s i) pc (sy_state s))) else []
      | _ \<Rightarrow> [])"
| "sent_now c i l s = []"

fun sent_by ::
    "('h, 'sk, 'pk, 'ph) crates \<Rightarrow> SocketAddr \<Rightarrow> nat \<Rightarrow> 'sk label list \<Rightarrow> 'sk system \<Rightarrow> Response list" where
  "sent_by c address i [] s = []"
| "sent_by c address i (l # ls) s =
     sent_now c i l s @ (case run_next c address l s of None \<Rightarrow> [] | Some s' \<Rightarrow> sent_by c address i ls s')"

lemma rounds_of_Cons: "rounds_of i (l # ls) = rounds_of i [l] @ rounds_of i ls"
  by (cases l) simp_all

lemma set_task_at:
  "i < length (sy_tasks s) \<Longrightarrow> task_at (set_task j t st s) i = (if j = i then t else task_at s i)"
  "address_at (set_task j t st s) i = address_at s i"
  "length (sy_tasks (set_task j t st s)) = length (sy_tasks s)" "sy_state (set_task j t st s) = st"
  by (auto simp: task_at_def address_at_def set_task_def nth_list_update)
    (metis fst_conv list_update_beyond not_le nth_list_update_eq nth_list_update_neq)

lemma task_at_more [simp]:
  "i < length (sy_tasks s) \<Longrightarrow> task_at (s\<lparr>sy_tasks := sy_tasks s @ ts\<rparr>) i = task_at s i"
  "i < length (sy_tasks s) \<Longrightarrow> address_at (s\<lparr>sy_tasks := sy_tasks s @ ts\<rparr>) i = address_at s i"
  "task_at (s\<lparr>sy_phase := p\<rparr>) i = task_at s i" "address_at (s\<lparr>sy_phase := p\<rparr>) i = address_at s i"
  "task_at (s\<lparr>sy_state := st\<rparr>) i = task_at s i" "address_at (s\<lparr>sy_state := st\<rparr>) i = address_at s i"
  "task_at (s\<lparr>sy_state := st, sy_worker := w\<rparr>) i = task_at s i"
  "address_at (s\<lparr>sy_state := st, sy_worker := w\<rparr>) i = address_at s i"
  "task_at (s\<lparr>sy_worker := w\<rparr>) i = task_at s i" "address_at (s\<lparr>sy_worker := w\<rparr>) i = address_at s i"
  "task_at (s\<lparr>sy_state := st, sy_signal := w\<rparr>) i = task_at s i"
  "address_at (s\<lparr>sy_state := st, sy_signal := w\<rparr>) i = address_at s i"
  by (simp_all add: task_at_def address_at_def nth_append)

lemma run_next_task:
  assumes "run_next c address l s = Some s'" and "i < length (sy_tasks s)"
  shows "i < length (sy_tasks s')" and "address_at s' i = address_at s i"
  using assms
  by (cases l; auto simp: set_task_at Let_def
      split: accept_phase.splits if_splits conn_task.splits prod.splits)+

lemma run_next_done:
  assumes "run_next c address l s = Some s'" and "i < length (sy_tasks s)" and "task_at s i = TaskDone"
  shows "task_at s' i = TaskDone" and "rounds_of i [l] = []" and "sent_now c i l s = []"
  using assms
  by (cases l; auto simp: set_task_at Let_def
      split: accept_phase.splits if_splits conn_task.splits prod.splits)+

lemma run_next_serving:
  assumes "run_next c address l s = Some s'" and "i < length (sy_tasks s)" and "task_at s i = Serving pc"
  obtains (other) "task_at s' i = Serving pc" "rounds_of i [l] = []" "sent_now c i l s = []"
    | (fetch) rd where "waits pc" "rounds_of i [l] = [rd]" "sy_state s' = sy_state s" "sent_now c i l s = []"
        "task_at s' i = Serving (pc_fetch c (address_at s i) pc rd (sy_state s))"
    | (access) pc' sent where "\<not> waits pc" "\<not> over pc" "rounds_of i [l] = []"
        "pc_step c (address_at s i) pc (sy_state s) = (pc', sy_state s', sent)" "task_at s' i = Serving pc'"
        "sent_now c i l s = sent"
    | (exit) "over pc" "rounds_of i [l] = []" "task_at s' i = TaskDone" "sent_now c i l s = []"
proof -
  have "task_at s' i = Serving pc \<and> rounds_of i [l] = [] \<and> sent_now c i l s = [] \<or>
    (\<exists>rd. waits pc \<and> rounds_of i [l] = [rd] \<and> sy_state s' = sy_state s \<and> sent_now c i l s = [] \<and>
      task_at s' i = Serving (pc_fetch c (address_at s i) pc rd (sy_state s))) \<or>
    (\<exists>pc' sent. \<not> waits pc \<and> \<not> over pc \<and> rounds_of i [l] = [] \<and>
      pc_step c (address_at s i) pc (sy_state s) = (pc', sy_state s', sent) \<and> task_at s' i = Serving pc' \<and>
      sent_now c i l s = sent) \<or>
    over pc \<and> rounds_of i [l] = [] \<and> task_at s' i = TaskDone \<and> sent_now c i l s = []"
    using assms
    by (cases l) (auto simp: set_task_at Let_def
        split: accept_phase.splits if_splits conn_task.splits prod.splits)
  then show thesis using that by blast
qed

lemma done_stays:
  assumes "run_labels c address ls s = Some t" and "i < length (sy_tasks s)" and "task_at s i = TaskDone"
  shows "task_at t i = TaskDone \<and> rounds_of i ls = [] \<and> sent_by c address i ls s = []"
  using assms
proof (induction ls arbitrary: s)
  case (Cons l ls)
  from Cons.prems(1) obtain s' where s': "run_next c address l s = Some s'" "run_labels c address ls s' = Some t"
    by (auto split: option.splits)
  show ?case
    using Cons.IH[OF s'(2) run_next_task(1)[OF s'(1) Cons.prems(2)] run_next_done(1)[OF s'(1) Cons.prems(2,3)]]
      run_next_done(2,3)[OF s'(1) Cons.prems(2,3)] rounds_of_Cons[of i l ls] s'(1) by simp
qed simp

lemma labels_acts:
  assumes "run_labels c address ls s = Some t" and "sys_inv c s"
  shows "(server_act c)\<^sup>*\<^sup>* (sy_state s) (sy_state t)"
  using assms
proof (induction ls arbitrary: s)
  case (Cons l ls)
  from Cons.prems(1) obtain s' where s': "run_next c address l s = Some s'" "run_labels c address ls s' = Some t"
    by (auto split: option.splits)
  note step = run_next_sound[OF s'(1)]
  show ?case
    using Cons.IH[OF s'(2) run_step_inv[OF step Cons.prems(2)]] run_step_acts[OF step Cons.prems(2)]
    by (meson rtranclp_trans)
qed simp

lemma labels_moves:
  assumes "run_labels c address ls s = Some t" and "sys_inv c s" and "i < length (sy_tasks s)"
    and "task_at s i = Serving pc" and "(server_act c)\<^sup>*\<^sup>* st (sy_state s)"
  shows "\<exists>pc' st'. (task_move c (address_at s i))\<^sup>*\<^sup>* (pc, st, rs, out)
      (pc', st', rs @ rounds_of i ls, out @ sent_by c address i ls s) \<and>
    (server_act c)\<^sup>*\<^sup>* st' (sy_state t) \<and> (task_at t i = Serving pc' \<or> task_at t i = TaskDone \<and> over pc')"
  using assms
proof (induction ls arbitrary: s pc st rs out)
  case (Cons l ls)
  let ?a = "address_at s i"
  from Cons.prems(1) obtain s' where s': "run_next c address l s = Some s'" "run_labels c address ls s' = Some t"
    by (auto split: option.splits)
  note step = run_next_sound[OF s'(1)]
  have inv: "sys_inv c s'" using step Cons.prems(2) by (rule run_step_inv)
  have i: "i < length (sy_tasks s')" and a: "address_at s' i = ?a"
    using run_next_task[OF s'(1) Cons.prems(3)] by simp_all
  have acts: "(server_act c)\<^sup>*\<^sup>* st (sy_state s')"
    using Cons.prems(5) run_step_acts[OF step Cons.prems(2)] by (rule rtranclp_trans)
  note IH = Cons.IH[OF s'(2) inv i, unfolded a]
  note r = rounds_of_Cons[of i l ls]
  from s'(1) Cons.prems(3,4) show ?case
  proof (cases rule: run_next_serving)
    case other
    from IH[OF other(1) acts, of rs out] other(2,3) r s'(1) show ?thesis by simp
  next
    case (fetch rd)
    have "task_move c ?a (pc, st, rs, out) (pc_fetch c ?a pc rd (sy_state s'), sy_state s', rs @ [rd], out)"
      using fetch(1) acts by (rule move_fetch)
    moreover have "task_at s' i = Serving (pc_fetch c ?a pc rd (sy_state s'))" using fetch(3,5) by simp
    note IH[OF this rtranclp.rtrancl_refl, of "rs @ [rd]" out]
    ultimately show ?thesis
      using fetch(2,4) r s'(1) by (simp del: rounds_of.simps) (meson converse_rtranclp_into_rtranclp)
  next
    case (access pc' sent)
    have "task_move c ?a (pc, st, rs, out) (pc', sy_state s', rs, out @ sent)"
      using access(1,2) Cons.prems(5) access(4) by (rule move_access)
    with IH[OF access(5) rtranclp.rtrancl_refl, of rs "out @ sent"] show ?thesis
      using access(3,6) r s'(1) by (simp del: rounds_of.simps) (meson converse_rtranclp_into_rtranclp)
  next
    case exit
    have "task_at t i = TaskDone \<and> rounds_of i (l # ls) = [] \<and> sent_by c address i (l # ls) s = []"
      using done_stays[OF s'(2) i exit(3)] exit(2,4) r s'(1) by simp
    moreover have "(server_act c)\<^sup>*\<^sup>* st (sy_state t)"
      using acts labels_acts[OF s'(2) inv] by (rule rtranclp_trans)
    ultimately show ?thesis using exit(1) by auto
  qed
qed auto

text \<open>A task that serves a connection has shaken hands before.\<close>

lemma run_labels_append:
  "run_labels c address (ls @ ls') s = (case run_labels c address ls s of None \<Rightarrow> None | Some t \<Rightarrow> run_labels c address ls' t)"
  by (induction ls arbitrary: s) (simp_all split: option.split)

lemma run_next_before:
  assumes "run_next c address l s = Some s'" and "i < length (sy_tasks s')" and "task_at s' i = Serving pc"
  shows "i < length (sy_tasks s) \<and> ((\<exists>pc0. task_at s i = Serving pc0) \<or> pc = Guest)"
proof (cases "i < length (sy_tasks s)")
  case True
  then show ?thesis
    using assms
    by (cases l) (auto simp: set_task_at Let_def
        split: accept_phase.splits if_splits conn_task.splits prod.splits)
next
  case False
  then show ?thesis
    using assms
    by (cases l) (auto simp: set_task_at(3,4) Let_def task_at_def nth_append less_Suc_eq
        split: accept_phase.splits if_splits conn_task.splits prod.splits)
qed

lemma serving_since_handshake:
  assumes "run_labels c address ls s = Some t" and "sy_tasks s = []" and "i < length (sy_tasks t)"
    and "task_at t i = Serving pc"
  shows "\<exists>ls1 ls2 u. ls = ls1 @ ls2 \<and> run_labels c address ls1 s = Some u \<and> run_labels c address ls2 u = Some t \<and>
    i < length (sy_tasks u) \<and> task_at u i = Serving Guest"
  using assms
proof (induction ls arbitrary: t pc rule: rev_induct)
  case (snoc l ls)
  from snoc.prems(1) obtain t0 where t0: "run_labels c address ls s = Some t0" "run_next c address l t0 = Some t"
    by (auto simp: run_labels_append split: option.splits)
  from run_next_before[OF t0(2) snoc.prems(3,4)] show ?case
  proof (elim conjE disjE exE)
    fix pc0
    assume "i < length (sy_tasks t0)" "task_at t0 i = Serving pc0"
    from snoc.IH[OF t0(1) snoc.prems(2) this] obtain ls1 ls2 u where
      u: "ls = ls1 @ ls2" "run_labels c address ls1 s = Some u" "run_labels c address ls2 u = Some t0"
        "i < length (sy_tasks u)" "task_at u i = Serving Guest"
      by blast
    have "ls @ [l] = ls1 @ (ls2 @ [l])" "run_labels c address (ls2 @ [l]) u = Some t"
      using u(1,3) t0(2) by (simp_all add: run_labels_append)
    with u show ?case by blast
  next
    assume "pc = Guest"
    with snoc.prems have "ls @ [l] = (ls @ [l]) @ []" "run_labels c address [] t = Some t" "task_at t i = Serving Guest"
      by simp_all
    with snoc.prems(1,3) show ?case by blast
  qed
qed simp

lemma serving_runs_handler:
  assumes "sys_init s" and "run_labels c address ls s = Some t" and "i < length (sy_tasks t)"
    and "task_at t i = Serving pc" and "waits pc \<or> over pc"
  shows "\<exists>ls1 ls2 u rds st. ls = ls1 @ ls2 \<and> run_labels c address ls1 s = Some u \<and>
    run_labels c address ls2 u = Some t \<and> task_at u i = Serving Guest \<and>
    list_all (env_ok c) rds \<and> same_inputs rds (rounds_of i ls2) \<and>
    conn_handler c (address_at u i) rds (sy_state u) = (run_result pc [], st, sent_by c address i ls2 u) \<and>
    (server_act c)\<^sup>*\<^sup>* st (sy_state t)"
proof -
  have init: "sys_inv c s" "sy_tasks s = []"
    using assms(1) by (auto intro: run_sys.init_inv simp: sys_init_def)
  obtain ls1 ls2 u where
    u: "ls = ls1 @ ls2" "run_labels c address ls1 s = Some u" "run_labels c address ls2 u = Some t"
      "i < length (sy_tasks u)" "task_at u i = Serving Guest"
    using serving_since_handshake[OF assms(2) init(2) assms(3,4)] by blast
  have inv: "sys_inv c u" using run_sys.reachable_inv[OF assms(1) run_labels_steps[OF u(2)]] .
  obtain st where
    moves: "(task_move c (address_at u i))\<^sup>*\<^sup>* (Guest, sy_state u, [], [])
      (pc, st, rounds_of i ls2, sent_by c address i ls2 u)"
    and acts: "(server_act c)\<^sup>*\<^sup>* st (sy_state t)"
    using labels_moves[OF u(3) inv u(4,5) rtranclp.rtrancl_refl, of "[]" "[]"] assms(4) by auto
  from moves_run_handler[OF moves assms(5)] acts u show ?thesis by (auto simp: list_all_iff) blast
qed

section \<open>Properties\<close>

text \<open>
  C7. Every connection of the running server runs the connection handler: in any interleaving of
  the tasks, whenever a connection waits for a request or has ended, what it did since its
  handshake is a run of \<^verbatim>\<open>conn_handler\<close> on exactly the requests it fetched, with the same result and the
  same responses, where what the other tasks did in between is an interference by actions of the server; and
  from the state it left, the current state is reached by actions of the others.
\<close>

theorem connections_run_the_handler:
  assumes "sys_init s" and "run_labels c address ls s = Some t" and "i < length (sy_tasks t)"
    and "task_at t i = Serving pc" and "waits pc \<or> over pc"
  shows "\<exists>ls1 ls2 u rds st. ls = ls1 @ ls2 \<and> run_labels c address ls1 s = Some u \<and>
    run_labels c address ls2 u = Some t \<and> task_at u i = Serving Guest \<and>
    list_all (env_ok c) rds \<and> same_inputs rds (rounds_of i ls2) \<and>
    conn_handler c (address_at u i) rds (sy_state u) = (run_result pc [], st, sent_by c address i ls2 u) \<and>
    (server_act c)\<^sup>*\<^sup>* st (sy_state t)"
  using assms by (rule serving_runs_handler)

text \<open>Alice connects and logs in; a peer connects and sends a frame that is too long.\<close>

definition login_labels :: "unit label list" where
  "login_labels = [Bound, AcceptsConnection peer, HandshakeOk 0, Fetches 0 login_round, Accesses 0, Accesses 0, Accesses 0]"

definition smashing_round :: "unit round" where
  "smashing_round = (plain_round LogOut None)\<lparr>rd_select := StreamNext (Some (Inl (IoError InvalidData ''frame'')))\<rparr>"

definition smashing_labels :: "unit label list" where
  "smashing_labels = [Bound, AcceptsConnection peer, HandshakeOk 0, Fetches 0 smashing_round]"

lemmas run_eval = fresh_system_def solo_def task_at_def address_at_def set_task_def

lemma login_labels_run:
  "run_labels plain_crates peer login_labels (fresh_system (alice_state 1)) = Some (solo (Member alice_session) alice_logged)"
proof -
  have "rd_select login_round \<noteq> Cancelled" by (simp add: plain_round_def)
  then show ?thesis by (simp add: login_labels_def run_eval alice_login_steps del: pc_fetch.simps pc_step.simps)
qed

lemma smashing_labels_run:
  "run_labels plain_crates peer smashing_labels (fresh_system (alice_state 1)) =
     Some (solo (Ended (Inl (HandlerError.Network (Framing peer (SizeSmashing peer 8388608))))) (alice_state 1))"
  by (simp add: smashing_labels_def smashing_round_def run_eval fetch_next_request_def plain_crates_def)

theorem connections_run_the_handler_witness:
  "\<exists>ls1 ls2 u rds st. login_labels = ls1 @ ls2 \<and>
    run_labels plain_crates peer ls1 (fresh_system (alice_state 1)) = Some u \<and> task_at u 0 = Serving Guest \<and>
    list_all (env_ok plain_crates) rds \<and> same_inputs rds (rounds_of 0 ls2) \<and>
    conn_handler plain_crates (address_at u 0) rds (sy_state u) =
      (Waiting, st, sent_by plain_crates peer 0 ls2 u) \<and>
    (server_act plain_crates)\<^sup>*\<^sup>* st alice_logged"
  using connections_run_the_handler[OF fresh_alice login_labels_run, of 0 "Member alice_session"]
  by (simp add: task_at_def solo_def) blast

text \<open>
  C21. No connection of the running server ends because a user is missing or their data is corrupt:
  however the tasks are interleaved and whatever faults the engine has, the errors
  \<^verbatim>\<open>UserShouldExistButWasNotFound\<close> and \<^verbatim>\<open>IntegrityViolation\<close> of the handler are unreachable.
\<close>

theorem sessions_keep_their_promises:
  assumes "sys_init s" and "(sys_step c address)\<^sup>*\<^sup>* s t" and "i < length (sy_tasks t)"
    and "task_at t i = Serving (Ended (Inl e))"
  shows "\<not> broken_promise e"
proof -
  obtain ls where "run_labels c address ls s = Some t" using steps_run_labels[OF assms(2)] by blast
  from serving_runs_handler[OF assms(1) this assms(3,4)] obtain ls1 u rds st sent where
    u: "run_labels c address ls1 s = Some u" and rds: "list_all (env_ok c) rds"
    and run: "conn_handler c (address_at u i) rds (sy_state u) = (Finished (Inl e) [], st, sent)"
    by auto
  have "server_inv (sy_state u)"
    using run_sys.reachable_inv[OF assms(1) run_labels_steps[OF u]] by (simp add: sys_inv_def)
  with rds run show ?thesis
    using conn_handler_core_keeps_promises[of rds c "sy_state u" "address_at u i" e "[]" st sent]
    by (simp add: conn_handler_def list_all_iff)
qed

theorem sessions_keep_their_promises_witness:
  "(sys_step plain_crates peer)\<^sup>*\<^sup>* (fresh_system (alice_state 1))
     (solo (Ended (Inl (HandlerError.Network (Framing peer (SizeSmashing peer 8388608))))) (alice_state 1)) \<and>
   \<not> broken_promise (HandlerError.Network (Framing peer (SizeSmashing peer 8388608)))"
proof -
  note run = run_labels_steps[OF smashing_labels_run]
  have "\<not> broken_promise (HandlerError.Network (Framing peer (SizeSmashing peer 8388608)))"
    by (rule sessions_keep_their_promises[OF fresh_alice run, of 0]) (simp_all add: task_at_def solo_def)
  with run show ?thesis by blast
qed

end
