(* ===== verification/Server_Logins.thy ===== *)
theory Server_Logins
  imports Server_Composition
begin

text \<open>
  Who is logged in while the server runs. The set of logged users and the sessions of the tasks
  are two records of the same thing: a login adds a name to the set before its session exists,
  and the name is removed after the session has ended. They agree as long as no reply to a
  successful login is lost and no task panics; what happens otherwise is
  \<open>failed_login_reply_locks_user\<close>.
\<close>

section \<open>Runs without lost logins\<close>

fun login_lost :: "('h, 'sk, 'pk, 'ph) crates \<Rightarrow> SocketAddr \<Rightarrow> 'sk round pc \<Rightarrow> bool" where
  "login_lost c a (GuestReply rd response (Some session)) \<longleftrightarrow>
     isl (send_response (c_wincode c) a (rd_send rd) response)"
| "login_lost c a _ \<longleftrightarrow> False"

fun panicked :: "'sk round pc \<Rightarrow> bool" where
  "panicked TaskPanicked = True"
| "panicked _ = False"

fun clean_label :: "('h, 'sk, 'pk, 'ph) crates \<Rightarrow> 'sk label \<Rightarrow> 'sk system \<Rightarrow> bool" where
  "clean_label c (Accesses i) s \<longleftrightarrow>
     (case task_at s i of
        Serving pc \<Rightarrow> \<not> login_lost c (address_at s i) pc \<and>
          \<not> panicked (fst (pc_step c (address_at s i) pc (sy_state s)))
      | _ \<Rightarrow> True)"
| "clean_label c l s \<longleftrightarrow> True"

fun clean_run ::
    "('h, 'sk, 'pk, 'ph) crates \<Rightarrow> SocketAddr \<Rightarrow> 'sk label list \<Rightarrow> 'sk system \<Rightarrow> bool" where
  "clean_run c address [] s \<longleftrightarrow> True"
| "clean_run c address (l # ls) s \<longleftrightarrow> clean_label c l s \<and>
     (case run_next c address l s of None \<Rightarrow> False | Some s' \<Rightarrow> clean_run c address ls s')"

definition owned :: "'sk system \<Rightarrow> string set" where
  "owned s = {u. Some u \<in> set (owners s)}"

text \<open>What a step without a lost login does with what its task holds and with the set.\<close>

definition own_exact :: "string option \<Rightarrow> string option \<Rightarrow> string set \<Rightarrow> string set \<Rightarrow> bool" where
  "own_exact x y L L' \<longleftrightarrow> y = x \<and> L' = L \<or>
     (\<exists>u. x = None \<and> y = Some u \<and> L' = insert u L) \<or>
     (\<exists>u. x = Some u \<and> y = None \<and> L' = L - {u})"

lemma pc_step_exact:
  assumes "pc_step c a pc st = (pc', st', sent)" and "\<not> over pc" and "\<not> login_lost c a pc" and "\<not> panicked pc'"
  shows "own_exact (owner pc) (owner pc') (st_logged_users st) (st_logged_users st')"
proof (cases pc)
  case (GuestReply rd response started)
  with assms show ?thesis by (cases started) (auto simp: own_exact_def split: sum.splits)
qed (use assms in \<open>auto simp: own_exact_def Let_def logged_users_remove_def Session_bundle_def
      split: sum.splits option.splits prod.splits if_splits outcome.splits
        AuthenticationError.splits RegistrationError.splits\<close>)

lemma owned_update:
  assumes "held os L" and "i < length os" and "own_exact (os ! i) y L L'" and "L = {u. Some u \<in> set os}"
  shows "L' = {u. Some u \<in> set (os[i := y])}"
proof -
  have other: "Some u \<in> set os \<Longrightarrow> Some u \<noteq> os ! i \<Longrightarrow> Some u \<in> set (os[i := y])" for u
    by (metis in_set_conv_nth length_list_update nth_list_update_neq)
  have sub: "set (os[i := y]) \<subseteq> insert y (set os)" by (rule set_update_subset_insert)
  have y: "y \<in> set (os[i := y])" using assms(2) by (rule set_update_memI)
  have alone: "Some u \<notin> set (os[i := y])" if "os ! i = Some u" "y = None" for u
    using assms(1,2) that unfolding held_def
    by (metis (no_types, lifting) in_set_conv_nth length_list_update nth_list_update option.distinct(1))
  from assms(3) consider (same) "y = os ! i" "L' = L"
    | (login) u where "os ! i = None" "y = Some u" "L' = insert u L"
    | (logout) u where "os ! i = Some u" "y = None" "L' = L - {u}"
    unfolding own_exact_def by blast
  then show ?thesis
  proof cases
    case same
    then show ?thesis using assms(4) by (metis list_update_id)
  next
    case (login u)
    then show ?thesis using assms(4) other sub y by auto
  next
    case (logout u)
    then show ?thesis using assms(4) other sub alone[of u] by auto
  qed
qed

lemma owners_set_task:
  "i < length (sy_tasks s) \<Longrightarrow> owners (set_task i t st s) = (owners s)[i := task_owner t]"
  by (simp add: owners_def set_task_def map_update)

lemma owned_set_task:
  assumes "sys_inv c s" and "i < length (sy_tasks s)" and "st_logged_users (sy_state s) = owned s"
    and "own_exact (task_owner (task_at s i)) (task_owner t) (st_logged_users (sy_state s)) (st_logged_users st)"
  shows "st_logged_users st = owned (set_task i t st s)"
proof -
  have "held (owners s) (st_logged_users (sy_state s))" using assms(1) by (simp add: sys_inv_def)
  moreover have "i < length (owners s)" using assms(2) by (simp add: owners_def)
  ultimately show ?thesis
    using owned_update[of "owners s" "st_logged_users (sy_state s)" i "task_owner t" "st_logged_users st"] assms(2-4)
    by (simp add: owned_def owners_nth owners_set_task)
qed

lemma clean_step_owned:
  assumes "run_step c address s l s'" and "clean_label c l s" and "sys_inv c s"
    and "st_logged_users (sy_state s) = owned s"
  shows "st_logged_users (sy_state s') = owned s'"
  using assms(1)
proof (cases rule: run_step.cases)
  case (accepts a)
  with assms(4) show ?thesis by (simp add: owned_def owners_def)
next
  case (accesses i pc pc' st' sent)
  have "own_exact (owner pc) (owner pc') (st_logged_users (sy_state s)) (st_logged_users st')"
    using pc_step_exact[OF accesses(7,6)] accesses assms(2) by simp
  with owned_set_task[OF assms(3) accesses(3) assms(4), of "Serving pc'" st'] accesses show ?thesis
    by (simp add: set_task_at(4))
next
  case (fetches i pc rd)
  with owned_set_task[OF assms(3) fetches(3) assms(4), of "Serving (pc_fetch c (address_at s i) pc rd (sy_state s))" "sy_state s"]
  show ?thesis by (simp add: own_exact_def set_task_at(4))
next
  case (handshake_ok i)
  with owned_set_task[OF assms(3) handshake_ok(3) assms(4), of "Serving Guest" "sy_state s"]
  show ?thesis by (simp add: own_exact_def set_task_at(4))
next
  case (handshake_error i e)
  with owned_set_task[OF assms(3) handshake_error(3) assms(4), of TaskDone "sy_state s"]
  show ?thesis by (simp add: own_exact_def set_task_at(4))
next
  case (exits i pc)
  have "owner pc = None" using exits(5) by (cases pc) auto
  with owned_set_task[OF assms(3) exits(3) assms(4), of TaskDone "task_exit pc (sy_state s)"] exits show ?thesis
    by (simp add: own_exact_def set_task_at(4))
qed (use assms(4) in \<open>simp_all add: owned_def owners_def\<close>)

lemma clean_run_owned:
  assumes "run_labels c address ls s = Some t" and "clean_run c address ls s" and "sys_inv c s"
    and "st_logged_users (sy_state s) = owned s"
  shows "st_logged_users (sy_state t) = owned t"
  using assms
proof (induction ls arbitrary: s)
  case (Cons l ls)
  from Cons.prems(1,2) obtain s' where
    s': "run_next c address l s = Some s'" "run_labels c address ls s' = Some t" "clean_run c address ls s'" "clean_label c l s"
    by (auto split: option.splits)
  note step = run_next_sound[OF s'(1)]
  show ?case
    using Cons.IH[OF s'(2,3) run_step_inv[OF step Cons.prems(3)]] clean_step_owned[OF step s'(4) Cons.prems(3,4)] .
qed simp

section \<open>Properties\<close>

text \<open>
  C11. While the server runs, the logged users are exactly the users of its sessions: as long as
  every reply to a successful login was sent and no task panicked, however the tasks are
  interleaved, a name is in the set if and only if some task is in a session of that user, and
  of one only. So a user who is in no session can log in again.
\<close>

theorem logged_users_are_in_session:
  assumes "sys_init s" and "run_labels c address ls s = Some t" and "clean_run c address ls s"
  shows "u \<in> st_logged_users (sy_state t) \<longleftrightarrow>
    (\<exists>!i. i < length (sy_tasks t) \<and> task_owner (task_at t i) = Some u)"
proof -
  have inv: "sys_inv c s" using assms(1) by (rule run_sys.init_inv)
  have "st_logged_users (sy_state s) = owned s"
    using assms(1) by (simp add: sys_init_def initial_state_def owned_def owners_def)
  from clean_run_owned[OF assms(2,3) inv this]
  have "u \<in> st_logged_users (sy_state t) \<longleftrightarrow> (\<exists>i < length (sy_tasks t). task_owner (task_at t i) = Some u)"
    by (simp add: owned_def in_set_conv_nth owners_nth) (auto simp: owners_def owners_nth[symmetric] task_at_def)
  moreover have "held (owners t) (st_logged_users (sy_state t))"
    using run_sys.reachable_inv[OF assms(1) run_labels_steps[OF assms(2)]] by (simp add: sys_inv_def)
  then have "i = j" if "i < length (sy_tasks t)" "j < length (sy_tasks t)" "task_owner (task_at t i) = Some u"
    "task_owner (task_at t j) = Some u" for i j
    using that unfolding held_def by (metis length_map owners_def owners_nth)
  ultimately show ?thesis by blast
qed

theorem logged_users_are_in_session_witness:
  "\<exists>!i. i < length (sy_tasks (solo (Member alice_session) alice_logged)) \<and>
     task_owner (task_at (solo (Member alice_session) alice_logged) i) = Some ''alice''"
proof -
  have r: "rd_select login_round \<noteq> Cancelled" "rd_send login_round = None" by (simp_all add: plain_round_def)
  then have "clean_run plain_crates peer login_labels (fresh_system (alice_state 1))"
    by (simp add: login_labels_def run_eval alice_login_steps plain_send del: pc_fetch.simps pc_step.simps)
  from logged_users_are_in_session[OF fresh_alice login_labels_run this, of "''alice''"] show ?thesis
    by (simp add: solo_def alice_logged_def)
qed

end
