(* ===== verification/Unit_Tests.thy ===== *)
theory Unit_Tests
  imports Handler_Steps Server
begin

text \<open>
  The unit tests of the server, run on the model: those of \<^verbatim>\<open>server/src/database.rs\<close>, the tests of
  \<^verbatim>\<open>compute_offset\<close> in \<^verbatim>\<open>time_oracle.rs\<close> and those of \<^verbatim>\<open>connection_handler.rs\<close>. A test is a truth
  value; \<^verbatim>\<open>unwrap\<close> and \<^verbatim>\<open>unwrap_err\<close> make it false when they would panic. Each lemma says that a
  test passes, so the model agrees with what the authors expect of the code.
\<close>

section \<open>Assertions\<close>

definition unwrap :: "('e + 'a) \<Rightarrow> ('a \<Rightarrow> bool) \<Rightarrow> bool" where
  "unwrap r test = (case r of Inl _ \<Rightarrow> False | Inr x \<Rightarrow> test x)"

definition unwrap_err :: "('e + 'a) \<Rightarrow> ('e \<Rightarrow> bool) \<Rightarrow> bool" where
  "unwrap_err r test = (case r of Inl e \<Rightarrow> test e | Inr _ \<Rightarrow> False)"

text \<open>The same for an operation that returns a database.\<close>

definition unwrap_db :: "('e + 'a) \<times> ServerDb \<Rightarrow> ('a \<Rightarrow> ServerDb \<Rightarrow> bool) \<Rightarrow> bool" where
  "unwrap_db r test = unwrap (fst r) (\<lambda>x. test x (snd r))"

section \<open>Database\<close>

abbreviation register :: "ServerDb \<Rightarrow> string \<Rightarrow> string \<Rightarrow> string \<Rightarrow> (RegistrationError + unit) \<times> ServerDb" where
  "register \<equiv> try_register_user plain_argon2 no_fault []"

abbreviation build_at :: "DataBaseLocation \<Rightarrow> disk \<Rightarrow> (DataBaseBuildError + ServerDb) \<times> disk" where
  "build_at \<equiv> build checked_i32 (\<lambda>_. None) no_fault"

definition setup_memory_db :: "(ServerDb \<Rightarrow> bool) \<Rightarrow> bool" where
  "setup_memory_db test = unwrap (fst (build_at DataBaseLocation.Memory empty_disk)) test"

definition test_register_and_verify_success :: bool where
  "test_register_and_verify_success \<longleftrightarrow> setup_memory_db (\<lambda>db.
     unwrap_db (register db ''alice'' ''SuperSecretPassword123!'' ''127.0.0.1'') (\<lambda>_ db.
       unwrap (verify_user_password plain_argon2 no_fault db ''alice'' ''SuperSecretPassword123!'') (\<lambda>_. True)))"

definition test_registration_duplicate_user :: bool where
  "test_registration_duplicate_user \<longleftrightarrow> setup_memory_db (\<lambda>db.
     unwrap_db (register db ''bob'' ''pass'' ''::1'') (\<lambda>_ db.
       unwrap_err (fst (register db ''bob'' ''pass'' ''::1''))
         (\<lambda>e. case e of UserAlreadyExists _ \<Rightarrow> True | _ \<Rightarrow> False)))"

definition test_verify_user_not_found_and_invalid_password :: bool where
  "test_verify_user_not_found_and_invalid_password \<longleftrightarrow> setup_memory_db (\<lambda>db.
     unwrap_err (verify_user_password plain_argon2 no_fault db ''ghost'' ''pass'')
       (\<lambda>e. case e of UserNotFound _ \<Rightarrow> True | _ \<Rightarrow> False) \<and>
     unwrap_db (register db ''charlie'' ''correct_pass'' ''127.0.0.1'') (\<lambda>_ db.
       unwrap_err (verify_user_password plain_argon2 no_fault db ''charlie'' ''wrong_pass'')
         (\<lambda>e. e = InvalidPassword)))"

definition test_tokens_operations_success :: bool where
  "test_tokens_operations_success \<longleftrightarrow> setup_memory_db (\<lambda>db.
     unwrap_db (register db ''dave'' ''pass'' ''::1'') (\<lambda>_ db.
       unwrap (get_user_tokens no_fault db ''dave'') (\<lambda>tokens. tokens = 0) \<and>
       unwrap_db (add_user_tokens no_fault db ''dave'' 50) (\<lambda>tokens db. tokens = 50 \<and>
         unwrap_db (subtract_user_tokens no_fault db ''dave'' 20) (\<lambda>tokens _. tokens = 30))))"

definition test_tokens_subtraction_insufficient :: bool where
  "test_tokens_subtraction_insufficient \<longleftrightarrow> setup_memory_db (\<lambda>db.
     unwrap_db (register db ''eve'' ''pass'' ''127.127.120.2'') (\<lambda>_ db.
       unwrap_db (add_user_tokens no_fault db ''eve'' 10) (\<lambda>_ db.
         unwrap_err (fst (subtract_user_tokens no_fault db ''eve'' 15)) (\<lambda>e. e = InsufficientTokens))))"

definition test_tokens_user_not_found :: bool where
  "test_tokens_user_not_found \<longleftrightarrow> setup_memory_db (\<lambda>db.
     unwrap_err (get_user_tokens no_fault db ''ghost'') (\<lambda>e. e = GetTokensError.UserDoesNotExist) \<and>
     unwrap_err (fst (add_user_tokens no_fault db ''ghost'' 10)) (\<lambda>e. e = AddTokensError.UserDoesNotExist) \<and>
     unwrap_err (fst (subtract_user_tokens no_fault db ''ghost'' 10)) (\<lambda>e. e = SubtractTokensError.UserDoesNotExist))"

text \<open>
  The tests on disk: \<open>commit\<close> is what the connection pool writes, the rows of a database into the
  file it was opened from. \<open>raw_file\<close> is a file that was not made by the server.
\<close>

definition commit :: "string \<Rightarrow> ServerDb \<Rightarrow> disk \<Rightarrow> disk" where
  "commit path db d = d\<lparr>dk_files := (dk_files d)(path := map_option (\<lambda>f. f\<lparr>sf_db := db\<rparr>) (dk_files d path))\<rparr>"

definition raw_file :: "string \<Rightarrow> schema_entry list \<Rightarrow> ServerDb \<Rightarrow> disk" where
  "raw_file path schema db = empty_disk\<lparr>dk_files := [path \<mapsto> \<lparr>sf_schema = schema, sf_db = db\<rparr>]\<rparr>"

definition test_disk_db_creation_and_reload :: bool where
  "test_disk_db_creation_and_reload \<longleftrightarrow>
     (case build_at (Disk ''test.db'') empty_disk of (built, d) \<Rightarrow>
        unwrap built (\<lambda>db.
          unwrap_db (register db ''frank'' ''pass'' ''fde8:fdea:fdee:fdf0:fdf2:fde7:fe4c:fe4d'') (\<lambda>_ db.
            unwrap (fst (build_at (Disk ''test.db'') (commit ''test.db'' db d))) (\<lambda>db2.
              unwrap (get_user_tokens no_fault db2 ''frank'') (\<lambda>tokens. tokens = 0)))))"

definition test_validation_constraint_violation :: bool where
  "test_validation_constraint_violation \<longleftrightarrow>
     (let hacker = \<lparr>u_username = ''hacker'', u_password_hash = ''hash'', u_available_tokens = - 5,
                    u_registered_from_ip = ''127.0.0.1''\<rparr>
      in unwrap_err (fst (build_at (Disk ''corrupted.db'') (raw_file ''corrupted.db'' [users_table, history_table]
           \<lparr>db_users = [hacker], db_history = []\<rparr>))) (\<lambda>e. e = ConstraintViolation ''hacker''))"

definition test_validation_missing_table :: bool where
  "test_validation_missing_table \<longleftrightarrow>
     unwrap_err (fst (build_at (Disk ''bogus.db'') (raw_file ''bogus.db'' [] empty_db)))
       (\<lambda>e. case e of Validation _ \<Rightarrow> True | _ \<Rightarrow> False)"

definition test_validation_with_extra_tables_fails :: bool where
  "test_validation_with_extra_tables_fails \<longleftrightarrow>
     (case build_at (Disk ''strict.db'') empty_disk of (built, d) \<Rightarrow>
        unwrap built (\<lambda>_.
          (let backdoor = \<lparr>sch_type = ''table'', sch_name = ''secret_backdoor'', sch_columns = [''id'']\<rparr>;
               d = d\<lparr>dk_files := (dk_files d)(''strict.db'' :=
                      map_option (create_table_if_not_exists backdoor) (dk_files d ''strict.db''))\<rparr>
           in unwrap_err (fst (build_at (Disk ''strict.db'') d)) (\<lambda>e. e = UnexpectedTable ''secret_backdoor''))))"

text \<open>The tests of the history; \<open>insert_user\<close> and \<open>insert_history\<close> are rows inserted by plain SQL.\<close>

definition insert_user :: "ServerDb \<Rightarrow> string \<Rightarrow> string \<Rightarrow> i64 \<Rightarrow> (ServerDb \<Rightarrow> bool) \<Rightarrow> bool" where
  "insert_user db u h n test = unwrap (sql_insert_user \<lparr>u_username = u, u_password_hash = h,
     u_available_tokens = n, u_registered_from_ip = ''127.0.0.1''\<rparr> db) test"

definition insert_history :: "ServerDb \<Rightarrow> string \<Rightarrow> byte list \<Rightarrow> byte list \<Rightarrow> (ServerDb \<Rightarrow> bool) \<Rightarrow> bool" where
  "insert_history db u ts h test =
     unwrap (sql_insert_history \<lparr>h_username = u, h_timestamp = ts, h_hash = h\<rparr> db) test"

abbreviation history_of :: "ServerDb \<Rightarrow> string \<Rightarrow> UserHistoryError + HistoryRecord list" where
  "history_of \<equiv> get_user_history plain_hex no_fault"

definition test_user_does_not_exist :: bool where
  "test_user_does_not_exist \<longleftrightarrow> setup_memory_db (\<lambda>db.
     unwrap_err (history_of db ''ghost_user'') (\<lambda>e. e = UserHistoryError.UserDoesNotExist))"

definition test_user_exists_but_empty_record :: bool where
  "test_user_exists_but_empty_record \<longleftrightarrow> setup_memory_db (\<lambda>db.
     insert_user db ''alice'' ''dummy_hash'' 10 (\<lambda>db. unwrap (history_of db ''alice'') (\<lambda>records. records = [])))"

definition test_successful_history_retrieval :: bool where
  "test_successful_history_retrieval \<longleftrightarrow> setup_memory_db (\<lambda>db.
     insert_user db ''bob'' ''dummy'' 10 (\<lambda>db.
       insert_history db ''bob'' (be_bytes 16 (1680000000 :: u128)) (replicate RSA_KEY_SIZE_IN_BYTES 1) (\<lambda>db.
         unwrap (history_of db ''bob'') (\<lambda>_. True))))"

definition test_hash_integrity_violation :: bool where
  "test_hash_integrity_violation \<longleftrightarrow> setup_memory_db (\<lambda>db.
     insert_user db ''charlie'' ''dummy'' 10 (\<lambda>db.
       insert_history db ''charlie'' (be_bytes 16 (1680000000 :: u128)) (replicate 10 2) (\<lambda>db.
         unwrap_err (history_of db ''charlie'')
           (\<lambda>e. case e of HashIntegrityViolated _ \<Rightarrow> True | _ \<Rightarrow> False))))"

definition test_add_record_success :: bool where
  "test_add_record_success \<longleftrightarrow> setup_memory_db (\<lambda>db.
     unwrap_db (register db ''alice_history'' ''pass'' ''127.0.0.1'') (\<lambda>_ db.
       (let timestamp = Timestamp_from_be (be_bytes 16 (1680000000 :: u128));
            signature = RsaSignature (replicate 256 42)
        in unwrap_db (add_user_record no_fault db ''alice_history'' timestamp signature) (\<lambda>_ db.
             unwrap (history_of db ''alice_history'') (\<lambda>history. length history = 1 \<and>
               hr_timestamp (hd history) = timestamp \<and> hr_sign (hd history) = signature)))))"

definition test_add_record_user_does_not_exist :: bool where
  "test_add_record_user_does_not_exist \<longleftrightarrow> setup_memory_db (\<lambda>db.
     unwrap_err (fst (add_user_record no_fault db ''ghost_user'' (Timestamp_from_be (be_bytes 16 (100 :: u128)))
       (RsaSignature (replicate 256 42)))) (\<lambda>e. e = AddRecordError.UserDoesNotExist))"

definition test_add_record_duplicate_pk_constraint :: bool where
  "test_add_record_duplicate_pk_constraint \<longleftrightarrow> setup_memory_db (\<lambda>db.
     unwrap_db (register db ''bob_history'' ''pass'' ''127.0.0.1'') (\<lambda>_ db.
       (let timestamp = Timestamp_from_be (be_bytes 16 (1000 :: u128)); signature = RsaSignature (replicate 256 42)
        in unwrap_db (add_user_record no_fault db ''bob_history'' timestamp signature) (\<lambda>_ db.
             unwrap_err (fst (add_user_record no_fault db ''bob_history'' timestamp signature))
               (\<lambda>e. case e of AddRecordError.InternalDataBase (Sql (sqlx_error.Database _)) \<Rightarrow> True | _ \<Rightarrow> False)))))"

definition test_sqlite_permissiveness_timestamp_corruption :: bool where
  "test_sqlite_permissiveness_timestamp_corruption \<longleftrightarrow> setup_memory_db (\<lambda>db.
     unwrap_db (register db ''charlie_corrupt'' ''pass'' ''127.0.0.1'') (\<lambda>_ db.
       insert_history db ''charlie_corrupt''
         (map (\<lambda>ch. of_nat (of_char ch)) ''this_is_a_text_not_a_16_byte_blob'') (replicate 256 1) (\<lambda>db.
           unwrap_err (history_of db ''charlie_corrupt'')
             (\<lambda>e. case e of TimestampIntegrityViolated _ \<Rightarrow> True | _ \<Rightarrow> False))))"

definition test_tokens_addition_overflow :: bool where
  "test_tokens_addition_overflow \<longleftrightarrow> setup_memory_db (\<lambda>db.
     unwrap_db (register db ''eve_overflow'' ''pass'' ''127.0.0.1'') (\<lambda>_ db.
       (let db = set_tokens ''eve_overflow'' (2 ^ 63 - 1 - 10) db
        in unwrap_err (fst (add_user_tokens no_fault db ''eve_overflow'' 50)) (\<lambda>e. e = TokenOverflow))))"

definition test_history_ordering_by_timestamp :: bool where
  "test_history_ordering_by_timestamp \<longleftrightarrow> setup_memory_db (\<lambda>db.
     unwrap_db (register db ''chronos'' ''pass'' ''127.0.0.1'') (\<lambda>_ db.
       (let time_old = Timestamp_from_be (be_bytes 16 (1600000000 :: u128));
            time_mid = Timestamp_from_be (be_bytes 16 (1650000000 :: u128));
            time_new = Timestamp_from_be (be_bytes 16 (1700000000 :: u128));
            signature = RsaSignature (replicate RSA_KEY_SIZE_IN_BYTES 42)
        in unwrap_db (add_user_record no_fault db ''chronos'' time_mid signature) (\<lambda>_ db.
           unwrap_db (add_user_record no_fault db ''chronos'' time_new signature) (\<lambda>_ db.
           unwrap_db (add_user_record no_fault db ''chronos'' time_old signature) (\<lambda>_ db.
             unwrap (history_of db ''chronos'') (\<lambda>history. length history = 3 \<and>
               hr_timestamp (history ! 0) = time_new \<and> hr_timestamp (history ! 1) = time_mid \<and>
               hr_timestamp (history ! 2) = time_old)))))))"

section \<open>Offset of the clock\<close>

definition test_ntp_timestamp_overflow :: bool where
  "test_ntp_timestamp_overflow \<longleftrightarrow>
     unwrap_err (compute_offset (2 ^ 64 - 1) 0 0) (\<lambda>e. e = GenericNetworkError ''NTP timestamp overflow'')"

definition test_local_time_went_backwards :: bool where
  "test_local_time_went_backwards \<longleftrightarrow>
     unwrap_err (compute_offset 1000000 0 (- 60 * NANOS)) (\<lambda>e. e = TimeWentBackwards)"

definition test_offset_clamps_to_max :: bool where
  "test_offset_clamps_to_max \<longleftrightarrow> unwrap (compute_offset 10000000000 0 0) (\<lambda>r. sint r = 2 ^ 63 - 1)"

definition test_offset_clamps_to_min :: bool where
  "test_offset_clamps_to_min \<longleftrightarrow>
     unwrap (compute_offset 0 0 (13500000000 * NANOS)) (\<lambda>r. sint r = - (2 ^ 63))"

definition test_normal_offset_calculation :: bool where
  "test_normal_offset_calculation \<longleftrightarrow>
     unwrap (compute_offset 105 0 (100 * NANOS)) (\<lambda>r. sint r = 5000000000)"

section \<open>Connection handler\<close>

text \<open>
  A client of the tests: \<open>exchange\<close> sends a request to the handler that waits at a program point
  and takes the one response; what follows in the test gets the response, the new program point
  and the state. By \<open>conn_run_handler\<close> this is \<^verbatim>\<open>conn_handler_core\<close> in its task. The addresses are
  \<^verbatim>\<open>127.0.0.1\<close> with the ports of the tests.
\<close>

type_synonym test_point = "unit round pc \<times> unit STSServerState"

definition exchange ::
    "SocketAddr \<Rightarrow> test_point \<Rightarrow> Request \<Rightarrow> (Response \<Rightarrow> test_point \<Rightarrow> bool) \<Rightarrow> bool" where
  "exchange a point request test =
     (case point of (pc, st) \<Rightarrow>
        let rd = plain_round request None
        in case settle plain_crates a rd (pc_fetch plain_crates a pc rd st) st of
             (pc', st', [response]) \<Rightarrow> test response (pc', st')
           | _ \<Rightarrow> False)"

definition local_addr :: "u16 \<Rightarrow> SocketAddr" where
  "local_addr port = \<lparr>addr_ip = V4 2130706433, addr_port = port\<rparr>"

abbreviation dummy_addr :: SocketAddr where
  "dummy_addr \<equiv> local_addr 12345"

definition test_state :: "ServerDb \<Rightarrow> unit STSServerState" where
  "test_state db = get_accelerated_build (from_bundle db False () TimeOracle_new_local)"

definition setup_test_env :: "(test_point \<Rightarrow> bool) \<Rightarrow> bool" where
  "setup_test_env test = setup_memory_db (\<lambda>db. test (Guest, test_state db))"

definition test_full_user_lifecycle :: bool where
  "test_full_user_lifecycle \<longleftrightarrow> setup_test_env (\<lambda>p.
     exchange dummy_addr p (SignUp ''alice'' ''supersecret'') (\<lambda>resp p. resp = Ok \<and>
     exchange dummy_addr p (Login ''alice'' ''supersecret'') (\<lambda>resp p. resp = Ok \<and>
     exchange dummy_addr p HowManyTokensDoIHave (\<lambda>resp p. resp = TokenCount 0 \<and>
     exchange dummy_addr p LogOut (\<lambda>resp p. resp = Ok \<and>
     exchange dummy_addr p HowManyTokensDoIHave (\<lambda>resp p. resp = NotLoggedIn))))))"

definition test_unauthorized_operations_enforcement :: bool where
  "test_unauthorized_operations_enforcement \<longleftrightarrow> setup_test_env (\<lambda>p.
     exchange dummy_addr p HowManyTokensDoIHave (\<lambda>resp p. resp = NotLoggedIn \<and>
     exchange dummy_addr p (SignHash (Sha256Hash (replicate 32 0))) (\<lambda>resp p. resp = NotLoggedIn \<and>
     exchange dummy_addr p (SignUp ''bob'' ''pass123'') (\<lambda>_ p.
     exchange dummy_addr p (Login ''bob'' ''pass123'') (\<lambda>_ p.
     exchange dummy_addr p (SignUp ''hacker'' ''pass123'') (\<lambda>resp p.
       resp = SignInFailed SignInError.AlreadyLoggedIn \<and>
     exchange dummy_addr p (Login ''bob'' ''pass123'') (\<lambda>resp p.
       resp = LoginFailed LoginError.AlreadyLoggedIn)))))))"

definition test_token_transactions_and_math :: bool where
  "test_token_transactions_and_math \<longleftrightarrow> setup_test_env (\<lambda>p.
     exchange dummy_addr p (SignUp ''charles'' ''secure_pass'') (\<lambda>_ p.
     exchange dummy_addr p (Login ''charles'' ''secure_pass'') (\<lambda>_ p.
     exchange dummy_addr p (PurchaseTokens 10) (\<lambda>resp p. resp = TokenCount 10 \<and>
     exchange dummy_addr p (SignHash (Sha256Hash (replicate 32 5))) (\<lambda>resp p.
       (case resp of Token _ _ _ \<Rightarrow> True | _ \<Rightarrow> False) \<and>
     exchange dummy_addr p HowManyTokensDoIHave (\<lambda>resp p. resp = TokenCount 9))))))"

definition test_graceful_shutdown_propagation :: bool where
  "test_graceful_shutdown_propagation \<longleftrightarrow> setup_memory_db (\<lambda>db.
     exchange dummy_addr (Guest, test_state db) (SignUp ''diana'' ''pass123'') (\<lambda>_ p.
     exchange dummy_addr p (Login ''diana'' ''pass123'') (\<lambda>_ (pc, st).
       (let rd = (plain_round LogOut None)\<lparr>rd_select := Cancelled\<rparr>
        in fst (conn_run plain_crates dummy_addr [rd] pc (st\<lparr>st_cancel_token := True\<rparr>)) =
             Finished (Inr InterruptReceived) []))))"

definition test_concurrent_login_protection :: bool where
  "test_concurrent_login_protection \<longleftrightarrow> setup_memory_db (\<lambda>db.
     unwrap_db (register db ''victim'' ''safe_password'' ''127.0.0.1'') (\<lambda>_ db.
       exchange (local_addr 1111) (Guest, test_state db) (Login ''victim'' ''safe_password'') (\<lambda>resp_a (pc_a, st).
         resp_a = Ok \<and>
       exchange (local_addr 2222) (Guest, st) (Login ''victim'' ''safe_password'') (\<lambda>resp_b (pc_b, st).
         resp_b = LoginFailed LoginError.AlreadyLoggedIn \<and>
       exchange (local_addr 1111) (pc_a, st) HowManyTokensDoIHave (\<lambda>resp_a _.
         case resp_a of TokenCount _ \<Rightarrow> True | _ \<Rightarrow> False)))))"

definition test_token_exhaustion_blocking :: bool where
  "test_token_exhaustion_blocking \<longleftrightarrow> setup_memory_db (\<lambda>db.
     unwrap_db (register db ''poor_user'' ''123'' ''127.0.0.1'') (\<lambda>_ db.
     unwrap_db (add_user_tokens no_fault db ''poor_user'' 1) (\<lambda>_ db.
       (let st = get_slow_build (from_bundle db False () TimeOracle_new_local) in
       exchange dummy_addr (Guest, st) (Login ''poor_user'' ''123'') (\<lambda>_ p.
       exchange dummy_addr p (SignHash (Sha256Hash (replicate 32 1))) (\<lambda>resp1 p.
         (case resp1 of Token _ _ _ \<Rightarrow> True | _ \<Rightarrow> False) \<and>
       exchange dummy_addr p (SignHash (Sha256Hash (replicate 32 1))) (\<lambda>resp2 _. resp2 = NotEnoughTokens)))))))"

section \<open>The tests pass\<close>

lemma memory_db [simp]: "setup_memory_db test = test empty_db"
  by (simp add: setup_memory_db_def build_in_memory unwrap_def)

text \<open>The database in memory after one registration; \<open>n\<close> is the balance.\<close>

definition user_row :: "string \<Rightarrow> string \<Rightarrow> string \<Rightarrow> i64 \<Rightarrow> UserRow" where
  "user_row u pw ip n = \<lparr>u_username = u, u_password_hash = CHR ''$'' # pw, u_available_tokens = n,
     u_registered_from_ip = ip\<rparr>"

definition user_db :: "UserRow \<Rightarrow> HistoryRow list \<Rightarrow> ServerDb" where
  "user_db row hs = \<lparr>db_users = [row], db_history = hs\<rparr>"

lemma user_row_simps [simp]:
  "u_username (user_row u pw ip n) = u" "u_available_tokens (user_row u pw ip n) = n"
  "u_password_hash (user_row u pw ip n) = CHR ''$'' # pw"
  "(user_row u pw ip n)\<lparr>u_available_tokens := k\<rparr> = user_row u pw ip k"
  by (simp_all add: user_row_def)

lemma find_user_empty [simp]: "find_user empty_db u = None"
  by (simp add: find_user_def empty_db_def)

lemma find_user_db [simp]: "find_user (user_db row hs) u = (if u_username row = u then Some row else None)"
  by (simp add: find_user_def user_db_def)

lemma user_db_inv: "0 \<le> sint (u_available_tokens row) \<Longrightarrow> db_inv (user_db row [])"
  by (simp add: db_inv_def user_db_def)

lemma empty_db_inv: "db_inv empty_db"
  by (simp add: db_inv_def empty_db_def)

lemma register_first [simp]:
  "register empty_db u pw ip = (Inr (), user_db (user_row u pw ip 0) [])"
  by (simp add: try_register_user_def plain_argon2_def sql_insert_user_def user_row_def)
    (simp add: user_db_def empty_db_def)

lemma register_again [simp]:
  "register (user_db (user_row u pw ip n) hs) u pw' ip' = (Inl (UserAlreadyExists u), user_db (user_row u pw ip n) hs)"
  by (simp add: try_register_user_def plain_argon2_def sql_insert_user_def)

lemma verify_user_db [simp]:
  "verify_user_password plain_argon2 no_fault (user_db (user_row u pw ip n) hs) v pw' =
     (if v \<noteq> u then Inl (UserNotFound v) else if pw' = pw then Inr () else Inl InvalidPassword)"
  by (simp add: verify_user_password_def plain_argon2_def)

lemma verify_empty [simp]: "verify_user_password ar no_fault empty_db v pw = Inl (UserNotFound v)"
  by (simp add: verify_user_password_def)

lemma set_tokens_user_db [simp]:
  "set_tokens u k (user_db (user_row u pw ip n) hs) = user_db (user_row u pw ip k) hs"
  by (simp add: set_tokens_def user_db_def)

lemma get_user_db [simp]:
  "0 \<le> sint n \<Longrightarrow> get_user_tokens no_fault (user_db (user_row u pw ip n) hs) u = Inr n"
  by (simp add: get_user_tokens_def)

lemma add_user_db [simp]:
  "0 \<le> sint n \<Longrightarrow> unat n + unat k < 2 ^ 63 \<Longrightarrow>
   add_user_tokens no_fault (user_db (user_row u pw ip n) []) u k = (Inr (n + k), user_db (user_row u pw ip (n + k)) [])"
  by (simp add: add_user_tokens_eq[OF user_db_inv])

lemma subtract_user_db [simp]:
  "0 \<le> sint n \<Longrightarrow> unat k < 2 ^ 63 \<Longrightarrow>
   subtract_user_tokens no_fault (user_db (user_row u pw ip n) []) u k =
     (if unat k \<le> unat n then (Inr (n - k), user_db (user_row u pw ip (n - k)) [])
      else (Inl InsufficientTokens, user_db (user_row u pw ip n) []))"
  by (simp add: subtract_user_tokens_eq[OF user_db_inv])

lemmas unwrap_simps = unwrap_def unwrap_err_def unwrap_db_def

lemma test_register_and_verify_success_passes: test_register_and_verify_success
  by (simp add: test_register_and_verify_success_def unwrap_simps)

lemma test_registration_duplicate_user_passes: test_registration_duplicate_user
  by (simp add: test_registration_duplicate_user_def unwrap_simps)

lemma test_verify_user_not_found_and_invalid_password_passes: test_verify_user_not_found_and_invalid_password
  by (simp add: test_verify_user_not_found_and_invalid_password_def unwrap_simps)

lemma test_tokens_operations_success_passes: test_tokens_operations_success
  by (simp add: test_tokens_operations_success_def unwrap_simps)

lemma test_tokens_subtraction_insufficient_passes: test_tokens_subtraction_insufficient
  by (simp add: test_tokens_subtraction_insufficient_def unwrap_simps)

lemma test_tokens_user_not_found_passes: test_tokens_user_not_found
  by (simp add: test_tokens_user_not_found_def unwrap_simps get_user_tokens_def
      add_user_tokens_eq[OF empty_db_inv] subtract_user_tokens_eq[OF empty_db_inv])

lemmas disk_simps = build_def unchecked_build_def path_exists_def raw_file_def empty_disk_def connect_with_def
  no_fault_def validate_def Let_def

lemma test_validation_missing_table_passes: test_validation_missing_table
  by (simp add: test_validation_missing_table_def unwrap_simps disk_simps validation_queries_def select_ok_def)

lemma test_validation_constraint_violation_passes: test_validation_constraint_violation
  by (simp add: test_validation_constraint_violation_def unwrap_simps disk_simps validation_queries_def
      select_ok_def users_table_def history_table_def like_sqlite_def lower_def checked_i32_def fits_signed_def)

lemma built_on_disk: "\<exists>d. build_at (Disk p) empty_disk = (Inr empty_db, d) \<and> p \<notin> dk_dirs d \<and>
    dk_files d p = Some (initialized_file empty_db)"
proof -
  have "\<not> path_exists empty_disk p" by (simp add: path_exists_def empty_disk_def)
  then obtain d1 where d1: "unchecked_build (\<lambda>_. None) no_fault (Disk p) empty_disk =
      (Inr \<lparr>bd_path = Some p, bd_file = empty_file, bd_initialization_is_required = True\<rparr>, d1)" "p \<notin> dk_dirs d1"
    using unchecked_build_fresh[of empty_disk p "\<lambda>_. None"] by blast
  then show ?thesis
    by (simp add: build_def initialize_fresh write_back_def initialized_file_def)
qed

lemma test_disk_db_creation_and_reload_passes: test_disk_db_creation_and_reload
proof -
  obtain d where d: "build_at (Disk ''test.db'') empty_disk = (Inr empty_db, d)" "''test.db'' \<notin> dk_dirs d"
    "dk_files d ''test.db'' = Some (initialized_file empty_db)" using built_on_disk[of "''test.db''"] by blast
  show ?thesis
    by (simp add: test_disk_db_creation_and_reload_def d(1) unwrap_simps commit_def)
      (simp add: disk_simps d(2,3) initialized_file_def validation_queries_def select_ok_def users_table_def
        history_table_def like_sqlite_def lower_def checked_i32_def fits_signed_def user_db_def user_row_def
        get_user_tokens_def find_user_def attempt_def)
qed

lemma test_validation_with_extra_tables_fails_passes: test_validation_with_extra_tables_fails
proof -
  obtain d where d: "build_at (Disk ''strict.db'') empty_disk = (Inr empty_db, d)" "''strict.db'' \<notin> dk_dirs d"
    "dk_files d ''strict.db'' = Some (initialized_file empty_db)" using built_on_disk[of "''strict.db''"] by blast
  show ?thesis
    by (simp add: test_validation_with_extra_tables_fails_def d(1) unwrap_simps)
      (simp add: disk_simps d(2,3) initialized_file_def create_table_if_not_exists_def users_table_def
        history_table_def like_sqlite_def lower_def)
qed

lemmas offset_tests = unwrap_simps compute_offset_eq system_time_ok_def NANOS_def clamp_i64_def

lemma test_ntp_timestamp_overflow_passes: test_ntp_timestamp_overflow
  by (simp add: test_ntp_timestamp_overflow_def offset_tests)

lemma test_local_time_went_backwards_passes: test_local_time_went_backwards
  by (simp add: test_local_time_went_backwards_def offset_tests)

lemma test_offset_clamps_to_max_passes: test_offset_clamps_to_max
  by (simp add: test_offset_clamps_to_max_def offset_tests)

lemma test_offset_clamps_to_min_passes: test_offset_clamps_to_min
  by (simp add: test_offset_clamps_to_min_def offset_tests)

lemma test_normal_offset_calculation_passes: test_normal_offset_calculation
  by (simp add: test_normal_offset_calculation_def offset_tests)

lemma stored_timestamp [simp]: "Timestamp_from_be (be_bytes 16 n) = Timestamp n"
  by (simp add: Timestamp_from_be_def Timestamp_new_def of_be_bytes_be_bytes)

lemma history_user_db:
  "history_of (user_db row hs) (u_username row) =
     collect_records plain_hex no_fault 2
       (take 100 (rev (sort_key h_timestamp (filter (\<lambda>h. h_username h = u_username row) hs)))) []"
  by (simp add: get_user_history_def sql_select_history_def) (simp add: user_db_def)

lemma insert_first_user [simp]:
  "insert_user empty_db u h 10 test = test (user_db \<lparr>u_username = u, u_password_hash = h,
     u_available_tokens = 10, u_registered_from_ip = ''127.0.0.1''\<rparr> [])"
  by (simp add: insert_user_def unwrap_def sql_insert_user_def) (simp add: user_db_def empty_db_def)

lemma insert_first_record [simp]:
  "insert_history (user_db row []) (u_username row) ts h test =
     test (user_db row [\<lparr>h_username = u_username row, h_timestamp = ts, h_hash = h\<rparr>])"
  by (simp add: insert_history_def unwrap_def sql_insert_history_def) (simp add: user_db_def)

lemma record_user_db:
  "add_user_record no_fault (user_db row hs) (u_username row) (Timestamp t) s =
     (if list_ex (\<lambda>h. h_username h = u_username row \<and> h_timestamp h = be_bytes 16 t) hs
      then (Inl (AddRecordError.InternalDataBase (Sql (sqlx_error.Database UniqueViolation))), user_db row hs)
      else (Inr (), user_db row (hs @ [\<lparr>h_username = u_username row, h_timestamp = be_bytes 16 t,
        h_hash = RsaSignature_as_bytes s\<rparr>])))"
  by (simp add: add_user_record_def sql_insert_history_def timestamp_as_sql_database_format_def
      Timestamp_as_be_bytes_def AddRecordError_from_def Let_def) (simp add: user_db_def)

lemmas row_history = history_user_db[of "user_row u pw ip n" for u pw ip n, simplified]
lemmas row_record = record_user_db[of "user_row u pw ip n" for u pw ip n, simplified]
lemmas signature_simps = RsaSignature_try_from_def HistoryRecord_new_def RSA_KEY_SIZE_IN_BYTES_def RSA_KEY_SIZE_IN_BITS_def

lemma test_user_does_not_exist_passes: test_user_does_not_exist
  by (simp add: test_user_does_not_exist_def unwrap_simps get_user_history_def)

lemma test_user_exists_but_empty_record_passes: test_user_exists_but_empty_record
  by (simp add: test_user_exists_but_empty_record_def unwrap_simps history_user_db[of "\<lparr>u_username = ''alice'',
      u_password_hash = h, u_available_tokens = n, u_registered_from_ip = ip\<rparr>" for h n ip, simplified])

lemma test_successful_history_retrieval_passes: test_successful_history_retrieval
  using insert_first_record[of "\<lparr>u_username = ''bob'', u_password_hash = ''dummy'',
      u_available_tokens = 10, u_registered_from_ip = ''127.0.0.1''\<rparr>"]
    history_user_db[of "\<lparr>u_username = ''bob'', u_password_hash = ''dummy'',
      u_available_tokens = 10, u_registered_from_ip = ''127.0.0.1''\<rparr>"]
  by (simp add: test_successful_history_retrieval_def unwrap_simps signature_simps Let_def del: insert_first_record)

lemma test_hash_integrity_violation_passes: test_hash_integrity_violation
  using insert_first_record[of "\<lparr>u_username = ''charlie'', u_password_hash = ''dummy'',
      u_available_tokens = 10, u_registered_from_ip = ''127.0.0.1''\<rparr>"]
    history_user_db[of "\<lparr>u_username = ''charlie'', u_password_hash = ''dummy'',
      u_available_tokens = 10, u_registered_from_ip = ''127.0.0.1''\<rparr>"]
  by (simp add: test_hash_integrity_violation_def unwrap_simps signature_simps Let_def del: insert_first_record)

lemma test_add_record_success_passes: test_add_record_success
  by (simp add: test_add_record_success_def unwrap_simps row_record row_history signature_simps Let_def)

lemma test_add_record_user_does_not_exist_passes: test_add_record_user_does_not_exist
  by (simp add: test_add_record_user_does_not_exist_def unwrap_simps add_user_record_def)

lemma test_add_record_duplicate_pk_constraint_passes: test_add_record_duplicate_pk_constraint
  by (simp add: test_add_record_duplicate_pk_constraint_def unwrap_simps row_record Let_def)

lemma test_sqlite_permissiveness_timestamp_corruption_passes: test_sqlite_permissiveness_timestamp_corruption
  using insert_first_record[of "user_row ''charlie_corrupt'' ''pass'' ''127.0.0.1'' 0"]
  by (simp add: test_sqlite_permissiveness_timestamp_corruption_def unwrap_simps row_history Let_def
      del: insert_first_record)

lemma test_tokens_addition_overflow_passes: test_tokens_addition_overflow
  by (simp add: test_tokens_addition_overflow_def unwrap_simps add_user_tokens_eq[OF user_db_inv] Let_def)

lemma test_history_ordering_by_timestamp_passes: test_history_ordering_by_timestamp
proof -
  have eq: "be_bytes 16 a = be_bytes 16 b \<longleftrightarrow> a = b" for a b :: u128
    by (metis stored_timestamp Timestamp.inject)
  have le: "be_bytes 16 a \<le> be_bytes 16 b \<longleftrightarrow> a \<le> b" for a b :: u128
    using be_bytes_less_iff[of 16 b a] by (simp add: not_less [symmetric])
  show ?thesis
    by (simp add: test_history_ordering_by_timestamp_def unwrap_simps row_record row_history eq le
        signature_simps Let_def)
qed

text \<open>Exchanges reduce to the request functions of the handler.\<close>

lemma plain_fetch:
  assumes "plain_enc_request req = Inr bs"
  shows "fetch_next_request (c_wincode plain_crates) (c_max_frame plain_crates)
     (rd_select (plain_round req send)) a = Inr (Some req)"
  using plain_request_roundtrip[OF assms] assms
  by (simp add: fetch_next_request_def plain_crates_def plain_wincode_def plain_round_def Request_deserialize_def)

lemma plain_reply:
  "plain_enc_response resp = Inr bs \<Longrightarrow> send_response (c_wincode plain_crates) a None resp = Inr ()"
  by (simp add: send_response_def plain_crates_def plain_wincode_def Response_serialize_def)

lemma plain_round_simps [simp]:
  "rd_env (plain_round req s) i st = st" "rd_sql (plain_round req s) = (\<lambda>_. no_fault)"
  "rd_salt (plain_round req s) = []" "rd_send (plain_round req s) = s" "rd_now (plain_round req s) = 9"
  "rd_spawn (plain_round req s) = None"
  by (simp_all add: plain_round_def)

lemma plain_crates_simps [simp]:
  "c_argon2 plain_crates = plain_argon2" "c_hex plain_crates = plain_hex" "c_crypto plain_crates = plain_crypto"
  "c_show_ip plain_crates ip = ''127.0.0.1''"
  by (simp_all add: plain_crates_def)

lemma exchange_guest:
  assumes "plain_enc_request req = Inr bs"
    and "untrusted_request plain_crates a (plain_round req None) st req = (Inr (resp, started), st')"
    and "plain_enc_response resp = Inr bs'"
  shows "exchange a (Guest, st) req test = test resp (case started of None \<Rightarrow> Guest | Some se \<Rightarrow> Member se, st')"
  by (simp add: exchange_def plain_fetch[OF assms(1)] settle_guest assms(2) guest_outcome_def settle_GuestReply
      plain_reply[OF assms(3)])

lemma exchange_member:
  assumes "plain_enc_request req = Inr bs"
    and "session_request plain_crates se (plain_round req None) st req = (Returns (Inr (resp, False)), st')"
    and "plain_enc_response resp = Inr bs'"
  shows "exchange a (Member se, st) req test = test resp (Member se, st')"
  by (simp add: exchange_def plain_fetch[OF assms(1)] settle_member assms(2) member_outcome_def settle_MemberReply
      plain_reply[OF assms(3)])

lemma exchange_logout:
  "exchange a (Member se, st) LogOut test = test Ok (Guest, logged_users_remove (se_username se) st)"
  by (simp add: exchange_def Let_def plain_fetch[of LogOut "[2]"] plain_reply[of Ok "[0]"] settle_MemberReply)

definition serving :: "Signer \<Rightarrow> ServerDb \<Rightarrow> string set \<Rightarrow> unit STSServerState" where
  "serving sg db us = \<lparr>st_database = db, st_cancel_token = False, st_logged_users = us,
     st_signing_key = (), st_time_oracle = \<lparr>offset_nanos = 0\<rparr>, st_signer = sg\<rparr>"

lemma serving_simps [simp]:
  "st_database (serving sg db us) = db" "st_logged_users (serving sg db us) = us"
  "st_signing_key (serving sg db us) = ()" "st_signer (serving sg db us) = sg"
  "st_time_oracle (serving sg db us) = \<lparr>offset_nanos = 0\<rparr>"
  "(serving sg db us)\<lparr>st_database := db'\<rparr> = serving sg db' us"
  "(serving sg db us)\<lparr>st_logged_users := us'\<rparr> = serving sg db us'"
  "logged_users_remove u (serving sg db us) = serving sg db (us - {u})"
  by (simp_all add: serving_def logged_users_remove_def)

lemma test_state_serving: "test_state db = serving AcceleratedSigner db {}"
  "get_slow_build (from_bundle db False () TimeOracle_new_local) = serving SlowSigner db {}"
  by (simp_all add: test_state_def serving_def get_accelerated_build_def get_slow_build_def from_bundle_def
      TimeOracle_new_local_def)

definition short :: "string \<Rightarrow> string \<Rightarrow> bool" where
  "short u pw \<longleftrightarrow> credentials_length_error u pw = None \<and> length u \<le> MAX_ALLOCATION \<and> length pw \<le> MAX_ALLOCATION"

lemma short_iff: "short u pw \<longleftrightarrow>
    is_username_length_valid u \<and> is_password_length_valid pw \<and> length u \<le> MAX_ALLOCATION \<and> length pw \<le> MAX_ALLOCATION"
  by (simp add: short_def credentials_length_error_def)

lemma exchange_sign_up:
  assumes "short u pw"
  shows "exchange a (Guest, serving sg empty_db us) (SignUp u pw) test =
     test Ok (Guest, serving sg (user_db (user_row u pw ''127.0.0.1'' 0) []) us)"
  using assms
  by (subst exchange_guest[where resp = Ok and started = None]) (auto simp: untrusted_sign_up_def short_def Let_def)

lemma exchange_login:
  assumes "short u pw"
  shows "exchange a (Guest, serving sg (user_db (user_row u pw ip n) hs) us) (Login u pw) test =
     (if u \<in> us then test (LoginFailed LoginError.AlreadyLoggedIn) (Guest, serving sg (user_db (user_row u pw ip n) hs) us)
      else test Ok (Member (Session_bundle a u), serving sg (user_db (user_row u pw ip n) hs) (insert u us)))"
proof (cases "u \<in> us")
  case True
  then show ?thesis using assms
    by (subst exchange_guest[where resp = "LoginFailed LoginError.AlreadyLoggedIn" and started = None])
      (auto simp: untrusted_login_def short_def Let_def)
next
  case False
  then show ?thesis using assms
    by (subst exchange_guest[where resp = Ok and started = "Some (Session_bundle a u)"])
      (auto simp: untrusted_login_def short_def Let_def)
qed

lemma exchange_stranger: "exchange a (Guest, st) HowManyTokensDoIHave test = test NotLoggedIn (Guest, st)"
  by (subst exchange_guest[where resp = NotLoggedIn and started = None]) auto

lemma exchange_stranger_sign: "wf_hash h \<Longrightarrow> exchange a (Guest, st) (SignHash h) test = test NotLoggedIn (Guest, st)"
  by (subst exchange_guest[where resp = NotLoggedIn and started = None]) auto

lemma exchange_logged_sign_up:
  "short u pw \<Longrightarrow> exchange a (Member se, st) (SignUp u pw) test = test (SignInFailed SignInError.AlreadyLoggedIn) (Member se, st)"
  by (subst exchange_member[where resp = "SignInFailed SignInError.AlreadyLoggedIn"]) (auto simp: short_def)

lemma exchange_logged_login:
  "short u pw \<Longrightarrow> exchange a (Member se, st) (Login u pw) test = test (LoginFailed LoginError.AlreadyLoggedIn) (Member se, st)"
  by (subst exchange_member[where resp = "LoginFailed LoginError.AlreadyLoggedIn"]) (auto simp: short_def)

lemma exchange_count:
  assumes "se_username se = u" and "0 \<le> sint n"
  shows "exchange a (Member se, serving sg (user_db (user_row u pw ip n) hs) us) HowManyTokensDoIHave test =
     test (TokenCount n) (Member se, serving sg (user_db (user_row u pw ip n) hs) us)"
  using assms
  by (subst exchange_member[where resp = "TokenCount n"]) (auto simp: session_token_count_def Let_def)

lemma exchange_purchase:
  assumes "se_username se = u" and "0 \<le> sint n" and "unat n + unat k < 2 ^ 63"
  shows "exchange a (Member se, serving sg (user_db (user_row u pw ip n) []) us) (PurchaseTokens k) test =
     test (TokenCount (n + k)) (Member se, serving sg (user_db (user_row u pw ip (n + k)) []) us)"
  using assms
  by (subst exchange_member[where resp = "TokenCount (n + k)"]) (auto simp: session_purchase_def Let_def)

lemma any_plain_signs:
  "wf_hash h \<Longrightarrow> generate_timestamp_signature plain_crypto None sg () h t = Returns (Inr (plain_signature h t))"
  by (cases sg) (simp_all add: AcceleratedSigner_generate_def SlowSigner_generate_def spawn_blocking_def plain_signs)

lemma plain_signature_wf: "wf_hash h \<Longrightarrow> wf_signature (plain_signature h t)"
  using sign_with_timestamp_wf[OF plain_signs] by blast

lemma exchange_sign:
  assumes "se_username se = u" and "0 \<le> sint n" and "1 \<le> unat n" and "wf_hash h"
  shows "exchange a (Member se, serving sg (user_db (user_row u pw ip n) []) us) (SignHash h) test =
     test (Token h (plain_signature h (Timestamp 9)) (Timestamp 9))
       (Member se, serving sg (user_db (user_row u pw ip (n - 1)) [\<lparr>h_username = u, h_timestamp = be_bytes 16 (9 :: u128),
          h_hash = RsaSignature_as_bytes (plain_signature h (Timestamp 9))\<rparr>]) us)"
  using assms plain_signature_wf[OF assms(4)]
  by (subst exchange_member[where resp = "Token h (plain_signature h (Timestamp 9)) (Timestamp 9)"])
    (auto simp: session_sign_hash_def Let_def time_now_eq system_time_ok_def NANOS_def duration_since_epoch_def
      Timestamp_new_def any_plain_signs row_record simp del: generate_timestamp_signature.simps)

lemma exchange_sign_refused:
  assumes "se_username se = u" and "length ts = 16" and "length bs = RSA_KEY_SIZE_IN_BYTES" and "wf_hash h"
  shows "exchange a (Member se, serving sg (user_db (user_row u pw ip 0) [\<lparr>h_username = u, h_timestamp = ts, h_hash = bs\<rparr>]) us)
      (SignHash h) test =
    test NotEnoughTokens (Member se, serving sg (user_db (user_row u pw ip 0) [\<lparr>h_username = u, h_timestamp = ts, h_hash = bs\<rparr>]) us)"
proof -
  have "db_inv (user_db (user_row u pw ip 0) [\<lparr>h_username = u, h_timestamp = ts, h_hash = bs\<rparr>])"
    using assms(2,3) by (simp add: db_inv_def) (simp add: user_db_def)
  from subtract_user_tokens_eq[OF this, of u 1] assms(1,4) show ?thesis
    by (subst exchange_member[where resp = NotEnoughTokens]) (auto simp: session_sign_hash_def Let_def)
qed

lemmas exchange_simps = exchange_sign_up exchange_login exchange_stranger exchange_stranger_sign exchange_logged_sign_up
  exchange_logged_login exchange_count short_iff
  exchange_purchase exchange_sign exchange_logout test_state_serving setup_test_env_def unwrap_simps
  Session_bundle_def is_username_length_valid_def is_password_length_valid_def MAX_USERNAME_LEN_def
  MAX_PASSWORD_LEN_def MAX_ALLOCATION_def wf_hash_def

lemma test_full_user_lifecycle_passes: test_full_user_lifecycle
  by (simp add: test_full_user_lifecycle_def exchange_simps)

lemma test_unauthorized_operations_enforcement_passes: test_unauthorized_operations_enforcement
  by (simp add: test_unauthorized_operations_enforcement_def exchange_simps)

lemma test_token_transactions_and_math_passes: test_token_transactions_and_math
  by (simp add: test_token_transactions_and_math_def exchange_simps)

lemma test_graceful_shutdown_propagation_passes: test_graceful_shutdown_propagation
  by (simp add: test_graceful_shutdown_propagation_def exchange_simps fetch_next_request_def settle_LeaveSession
      closed_reason_def plain_round_def)

lemma test_concurrent_login_protection_passes: test_concurrent_login_protection
  by (simp add: test_concurrent_login_protection_def exchange_simps)

lemma test_token_exhaustion_blocking_passes: test_token_exhaustion_blocking
  by (simp add: test_token_exhaustion_blocking_def exchange_simps exchange_sign_refused plain_signature_def
      Timestamp_as_be_bytes_def RSA_KEY_SIZE_IN_BYTES_def RSA_KEY_SIZE_IN_BITS_def Let_def)

end
