(* ===== verification/System_Tests.thy ===== *)
theory System_Tests
  imports Unit_Tests Server_Composition Terraform_Properties
begin

text \<open>
  The tests that start more than one part: those of \<^verbatim>\<open>server/src/server.rs\<close>, which build a server
  and let it run, the test of the clock worker in \<^verbatim>\<open>time_oracle.rs\<close>, and the tests of the
  generator in \<^verbatim>\<open>terraform/tests/generation_tests.rs\<close>. What a test waits for or sends is a list of
  labels of the running server; where the test leaves the order open, it has to pass in every
  order. What the sockets and the TLS library of the test client do is not part of the model.
\<close>

definition returned :: "'a outcome \<Rightarrow> ('a \<Rightarrow> bool) \<Rightarrow> bool" where
  "returned r test = (case r of Panic \<Rightarrow> False | Returns a \<Rightarrow> test a)"

lemma returned_simps [simp]: "returned Panic test = False" "returned (Returns a) test = test a"
  by (simp_all add: returned_def)

section \<open>Server\<close>

text \<open>The calls of \<^verbatim>\<open>rcgen\<close>, \<^verbatim>\<open>rustls\<close> and \<^verbatim>\<open>rsa\<close> that make the keys of a test server.\<close>

record ('kp, 'params, 'cert, 'key, 'sk) dummy_crates =
  dc_keypair :: "string + 'kp"
  dc_params_new :: "string list \<Rightarrow> string + 'params"
  dc_dn_push :: "DnType \<Rightarrow> string \<Rightarrow> 'params \<Rightarrow> 'params"
  dc_self_signed :: "'params \<Rightarrow> 'kp \<Rightarrow> string + 'cert"
  dc_private_der :: "'kp \<Rightarrow> string + 'key"
  dc_rsa_new :: "nat \<Rightarrow> string + 'sk"

definition ServerContext_dummy ::
    "('kp, 'params, 'cert, 'key, 'sk) dummy_crates \<Rightarrow> u16 \<Rightarrow> ('cert, 'key, 'sk, 'sock) ServerContext outcome" where
  "ServerContext_dummy dc port =
     (let address = \<lparr>addr_ip = V4 2130706433, addr_port = port\<rparr>;
          runtime_context = RuntimeContext_new 1 0
      in outcome_bind (expect (dc_keypair dc)) (\<lambda>server_tls_keypair.
         outcome_bind (expect (dc_params_new dc [''127.0.0.1''])) (\<lambda>server_tls_params.
         let server_tls_params = dc_dn_push dc OrganizationName ''University of Pisa'' server_tls_params;
             server_tls_params = dc_dn_push dc CommonName ''TSA Server Mock'' server_tls_params
         in outcome_bind (expect (dc_self_signed dc server_tls_params server_tls_keypair)) (\<lambda>server_tls_cert.
            outcome_bind (expect (dc_private_der dc server_tls_keypair)) (\<lambda>tls_priv.
            outcome_bind (expect (dc_rsa_new dc RSA_KEY_SIZE_IN_BITS)) (\<lambda>tss_priv.
            let key_context = KeyContext_new [server_tls_cert] tls_priv tss_priv
            in Returns \<lparr>sc_address = address, sc_runtime_context = runtime_context, sc_key_context = key_context,
                 sc_time_oracle_type = Local TimeOracle_new_local, sc_log_output = NoLog,
                 sc_database_location = DataBaseLocation.Memory\<rparr>))))))"

text \<open>In the tests the signal that ends a server comes from a channel.\<close>

fun STSServer_run_with_signal :: "('tls, 'sk, 'sock) STSServer \<Rightarrow> 'sk system" where
  "STSServer_run_with_signal (Accelerated server) = run_with_signal server"
| "STSServer_run_with_signal (Slow server) = run_with_signal server"

definition test_keys :: "(unit, unit, unit, unit, unit) dummy_crates" where
  "test_keys = \<lparr>dc_keypair = Inr (), dc_params_new = (\<lambda>_. Inr ()), dc_dn_push = (\<lambda>_ _ p. p),
     dc_self_signed = (\<lambda>_ _. Inr ()), dc_private_der = (\<lambda>_. Inr ()), dc_rsa_new = (\<lambda>_. Inr ())\<rparr>"

definition spawn_server :: "u16 \<Rightarrow> (SocketAddr \<Rightarrow> unit system \<Rightarrow> bool) \<Rightarrow> bool" where
  "spawn_server port test =
     returned (ServerContext_dummy test_keys port :: (unit, unit, unit, unit) ServerContext outcome) (\<lambda>ctx.
     returned (fst (build_from_context example_inputs ctx empty_disk)) (\<lambda>r.
     unwrap r (\<lambda>server. test (sc_address ctx) (STSServer_run_with_signal server))))"

definition ends_well :: "unit system \<Rightarrow> bool" where
  "ends_well s = (case sy_phase s of Stopped (Inr _) \<Rightarrow> True | _ \<Rightarrow> False)"

text \<open>At least one of the orders can happen, and every order that can happen ends as expected.\<close>

definition in_every_order ::
    "SocketAddr \<Rightarrow> unit label list set \<Rightarrow> unit system \<Rightarrow> (unit system \<Rightarrow> bool) \<Rightarrow> bool" where
  "in_every_order address orders s test \<longleftrightarrow>
     (\<exists>ls \<in> orders. run_labels plain_crates address ls s \<noteq> None) \<and>
     (\<forall>ls \<in> orders. case run_labels plain_crates address ls s of None \<Rightarrow> True | Some s' \<Rightarrow> test s')"

abbreviation test_client :: SocketAddr where
  "test_client \<equiv> local_addr 40000"

abbreviation dropped :: io_error where
  "dropped \<equiv> io_error.IoError UnexpectedEof ''tls handshake eof''"

text \<open>The client drops its connection and the signal comes: in any order, or before it was accepted.\<close>

definition test_graceful_shutdown :: bool where
  "test_graceful_shutdown \<longleftrightarrow> spawn_server 8081 (\<lambda>address s.
     in_every_order address
       (((\<lambda>ls. [Bound] @ ls @ [TrackerDone]) ` shuffles [AcceptsConnection test_client, HandshakeError 0 dropped]
            [SignalArrives, AcceptBreaks]) \<union>
        {[Bound, SignalArrives, AcceptBreaks, TrackerDone]}) s ends_well)"

text \<open>Bytes that are not TLS: the task ends with the handshake, and the server goes on until the signal.\<close>

definition test_non_tls_garbage_connection :: bool where
  "test_non_tls_garbage_connection \<longleftrightarrow> spawn_server 8082 (\<lambda>address s.
     in_every_order address {[Bound, AcceptsConnection test_client, HandshakeError 0 (io_error.IoError InvalidData ''not tls'')]} s
       (\<lambda>s. task_done (task_at s 0) \<and>
          in_every_order address {[SignalArrives, AcceptBreaks, TrackerDone]} s ends_well))"

text \<open>The client leaves after the handshake; the handler sees the end of the stream in the middle of a frame.\<close>

definition lost_round :: "unit round" where
  "lost_round = (plain_round LogOut None)\<lparr>rd_select := StreamNext (Some (Inl (io_error.IoError UnexpectedEof ''eof'')))\<rparr>"

definition test_tls_sudden_disconnection :: bool where
  "test_tls_sudden_disconnection \<longleftrightarrow> spawn_server 8083 (\<lambda>address s.
     in_every_order address {[Bound, AcceptsConnection test_client, HandshakeOk 0, Fetches 0 lost_round, Exits 0]} s
       (\<lambda>s. in_every_order address {[SignalArrives, AcceptBreaks, TrackerDone]} s ends_well))"

section \<open>Clock worker\<close>

definition get_offset_for_testing :: "TimeOracle \<Rightarrow> i64" where
  "get_offset_for_testing oracle = offset_nanos oracle"

definition test_net :: "unit udp_net" where
  "test_net = \<lparr>to_socket_addrs = (\<lambda>host port. Inr [local_addr port]), udp_bind = (\<lambda>_. Inr ()),
     udp_set_nonblocking = (\<lambda>_. Inr ()), udp_into_tokio = (\<lambda>_. Inr ())\<rparr>"

text \<open>
  The reply of the mock server: the transmit time of the client with one added to the first of
  the four bytes of its seconds. The worker reads its clock when the reply arrives.
\<close>

definition mock_reply :: "system_time \<Rightarrow> sync_tick" where
  "mock_reply now = \<lparr>tick_lookup = Inr [local_addr 123],
     tick_ntp = Inr (word_of_int (now div NANOS) + 2 ^ 24, 0), tick_now = now\<rparr>"

definition test_sync_worker_updates_offset_from_mock_server :: "system_time \<Rightarrow> bool" where
  "test_sync_worker_updates_offset_from_mock_server now \<longleftrightarrow>
     unwrap (create_bundle test_net ''127.0.0.1'' (Port 123) (local_addr 0) 50000000) (\<lambda>bundle.
       let (oracle, worker) = TimeOracleBundle_into_parts bundle
       in returned (start_syncing test_net (\<lambda>x. x) (\<lambda>_. []) worker [mock_reply now]) (\<lambda>(failed, offset).
            failed = None \<and> get_offset_for_testing (oracle\<lparr>offset_nanos := offset\<rparr>) \<noteq> 0))"

section \<open>Generator\<close>

definition path_starts_with :: "string \<Rightarrow> string \<Rightarrow> bool" where
  "path_starts_with p base \<longleftrightarrow> fst (path_key p) = fst (path_key base) \<and>
     take (length (snd (path_key base))) (snd (path_key p)) = snd (path_key base)"

definition test_environments_are_always_under_root :: bool where
  "test_environments_are_always_under_root \<longleftrightarrow>
     (let root_path = ''/virtual/root/sim''
      in returned (EnvironmentGeneratorBuilder_build_default root_path) (\<lambda>env.
           path_starts_with (eg_client_dir env) root_path \<and> path_starts_with (eg_server_dir env) root_path \<and>
           path_starts_with (eg_ca_dir env) root_path))"

definition test_builder_fails_on_duplicate_environments :: bool where
  "test_builder_fails_on_duplicate_environments \<longleftrightarrow>
     (let builder = from_simulation_dir ''sim_root''
      in returned (expect (FileSystemName_try_from ''same_name'')) (\<lambda>name.
         let builder = with_client_dir name builder
         in returned (expect (FileSystemName_try_from ''same_name'')) (\<lambda>name.
            let builder = with_server_dir name builder
            in returned (EnvironmentGeneratorBuilder_build builder)
                 (\<lambda>result. case result of Inl FoldersMustBeDifferent \<Rightarrow> True | _ \<Rightarrow> False))))"

definition test_generator ::
    "string \<Rightarrow> string \<Rightarrow> string \<Rightarrow> string \<Rightarrow> (GeneratorCreationError + Generator \<Rightarrow> bool) \<Rightarrow> bool" where
  "test_generator root_path server_prefix ca_prefix client_toml test \<longleftrightarrow>
     returned (EnvironmentGeneratorBuilder_build_default root_path) (\<lambda>env.
     returned (AnyServerFiles_default server_prefix) (\<lambda>r. unwrap r (\<lambda>server_files.
     returned (AnyServerFiles_default ca_prefix) (\<lambda>r. unwrap r (\<lambda>ca_files.
     unwrap (ClientFiles_default client_toml) (\<lambda>client_files.
       test (new_from_files server_files ca_files client_files env)))))))"

text \<open>A temporary directory, empty or with one directory in it.\<close>

definition temp_fs :: "string list \<Rightarrow> gen_fs" where
  "temp_fs made = \<lparr>gf_dirs = insert (True, [''tmp'']) (path_key ` set made), gf_files = (\<lambda>_. None)\<rparr>"

definition test_fails_if_root_directory_already_exists :: bool where
  "test_fails_if_root_directory_already_exists \<longleftrightarrow>
     (let root_path = path_join ''/tmp'' ''existing_sim_root''
      in test_generator root_path ''server_'' ''ca_'' ''im_non_existent.tetext'' (\<lambda>r. unwrap r (\<lambda>generator.
           returned (generate_all example_gen_crates (working_os id) example_machine generator (temp_fs [root_path]))
             (\<lambda>(result, _). unwrap_err result (\<lambda>e. case e of
                KeyGen (KeyGenIo _ err) \<Rightarrow> io_kind err = AlreadyExists | _ \<Rightarrow> False)))))"

definition test_successful_generation_from_scratch :: bool where
  "test_successful_generation_from_scratch \<longleftrightarrow>
     (let root_path = path_join ''/tmp'' ''new_simulation_root'';
          client_dir = path_join root_path DEFAULT_CLIENT_ENV_SUBDIR;
          server_dir = path_join root_path DEFAULT_SERVER_ENV_SUBDIR;
          ca_dir = path_join root_path DEFAULT_CA_ENV_SUBDIR
      in test_generator root_path ''server_'' ''ca_'' ''config.toml'' (\<lambda>r. unwrap r (\<lambda>generator.
           returned (generate_all example_gen_crates (working_os id) example_machine generator (temp_fs []))
             (\<lambda>(result, fs). unwrap result (\<lambda>_. list_all (\<lambda>p. key_exists fs (path_key p))
               ([root_path, client_dir, server_dir, ca_dir] @
                map (path_join client_dir) [''ca_tls_certificate.pem'', ''server_rsa_pub_key.pem'', ''config.toml''] @
                map (path_join server_dir) [''server_tls_private_key.pem'', ''server_tls_certificate.pem'',
                  ''server_rsa_priv_key.pem'', ''ca_tls_certificate.pem'', ''server_config.toml''] @
                map (path_join ca_dir) [''ca_tls_certificate.pem'', ''ca_tls_private_key.pem'']))))))"

definition test_generator_fails_with_equal_prefixes :: bool where
  "test_generator_fails_with_equal_prefixes \<longleftrightarrow>
     test_generator ''dummy_root'' ''same_prefix_'' ''same_prefix_'' ''config.toml''
       (\<lambda>result. case result of Inl EqualPrefixes \<Rightarrow> True | _ \<Rightarrow> False)"

section \<open>The tests pass\<close>

text \<open>The server of the tests, before it binds.\<close>

definition test_system :: "unit system" where
  "test_system = \<lparr>sy_state = test_state empty_db, sy_tasks = [], sy_phase = Binding, sy_worker = False, sy_signal = True\<rparr>"

lemma spawn_server_eval: "spawn_server port test = test (local_addr port) test_system"
  by (simp add: spawn_server_def ServerContext_dummy_def test_keys_def outcome_bind_def expect_def
      build_from_context_def example_inputs_def setup_logger_def build_runtime_def build_in_memory unwrap_def
      run_with_signal_def test_system_def test_state_def local_addr_def Let_def)

lemma test_graceful_shutdown_passes: test_graceful_shutdown
  by (simp add: test_graceful_shutdown_def spawn_server_eval in_every_order_def test_system_def run_eval ends_well_def
      cancel_def)

lemma test_non_tls_garbage_connection_passes: test_non_tls_garbage_connection
  by (simp add: test_non_tls_garbage_connection_def spawn_server_eval in_every_order_def test_system_def run_eval
      ends_well_def cancel_def)

lemma test_tls_sudden_disconnection_passes: test_tls_sudden_disconnection
  by (simp add: test_tls_sudden_disconnection_def spawn_server_eval in_every_order_def test_system_def run_eval
      ends_well_def cancel_def lost_round_def fetch_next_request_def)

lemma mock_seconds:
  assumes "0 \<le> k" and "k < 2 ^ 32 - 2 ^ 24"
  shows "unat (ucast (word_of_int k + 2 ^ 24 :: u32) :: u64) = nat k + 2 ^ 24"
proof -
  have "uint (word_of_int k + 2 ^ 24 :: u32) = uint (word_of_int (k + 2 ^ 24) :: u32)" by simp
  also have "\<dots> = k + 2 ^ 24"
    using assms by (simp add: uint_word_of_int_eq take_bit_int_eq_self del: of_int_add)
  finally have u: "uint (word_of_int k + 2 ^ 24 :: u32) = k + 2 ^ 24" .
  have "uint (ucast (word_of_int k + 2 ^ 24 :: u32) :: u64) = k + 2 ^ 24"
    unfolding u[symmetric] by (rule uint_up_ucast) (simp add: is_up)
  then have "nat (uint (ucast (word_of_int k + 2 ^ 24 :: u32) :: u64)) = nat (k + 2 ^ 24)" by (rule arg_cong)
  also have "\<dots> = nat k + 2 ^ 24" using assms(1) by (simp add: nat_add_distrib)
  finally show ?thesis unfolding unat_eq_nat_uint .
qed

lemma test_sync_worker_updates_offset_from_mock_server_passes:
  assumes "0 \<le> now" and "now < (2 ^ 32 - 2 ^ 24) * NANOS"
  shows "test_sync_worker_updates_offset_from_mock_server now"
proof -
  define d where "d = 2 ^ 24 * NANOS - now mod NANOS"
  let ?k = "now div NANOS"
  have k: "0 \<le> ?k" "?k < 2 ^ 32 - 2 ^ 24" using assms by (simp_all add: NANOS_def)
  have n: "now = ?k * NANOS + now mod NANOS" by simp
  have m: "0 \<le> now mod NANOS" "now mod NANOS < NANOS" by (simp_all add: NANOS_def)
  have "int ((nat ?k + 2 ^ 24) * 1000000000) = ?k * NANOS + 2 ^ 24 * NANOS" using k(1) by (simp add: NANOS_def)
  then have "int ((nat ?k + 2 ^ 24) * 1000000000) - now = d" using n unfolding d_def by linarith
  moreover have "clamp_i64 d = d" using m by (simp add: clamp_i64_def d_def NANOS_def)
  moreover have "(word_of_int d :: i64) \<noteq> 0"
  proof -
    have "0 < d" "d < 2 ^ 64" using m by (simp_all add: d_def NANOS_def)
    then have "uint (word_of_int d :: i64) = d" by (simp add: uint_word_of_int_eq take_bit_int_eq_self)
    with \<open>0 < d\<close> show ?thesis by auto
  qed
  moreover have "system_time_ok now" using assms by (simp add: system_time_ok_def NANOS_def)
  moreover have "(nat ?k + 2 ^ 24) * 1000000000 < 2 ^ 64" using k by simp
  ultimately show ?thesis
    using assms(1) mock_seconds[OF k]
    by (simp add: test_sync_worker_updates_offset_from_mock_server_def test_net_def create_bundle_def unwrap_def
        TimeOracleBundle_into_parts_def start_syncing_def mock_reply_def sync_once_def compute_offset_eq
        get_offset_for_testing_def)
qed

lemma default_environment:
  "EnvironmentGeneratorBuilder_build_default root = Returns
     \<lparr>eg_client_dir = path_join root ''client_env'', eg_server_dir = path_join root ''server_env'',
      eg_ca_dir = path_join root ''ca_env'', eg_root_dir = root\<rparr>"
  using dirs_without_duplicates[of "''client_env''" "''server_env''" "''ca_env''" root]
  by (simp add: EnvironmentGeneratorBuilder_build_default_def EnvironmentGeneratorBuilder_build_def from_simulation_dir_def
      name_or_default_def outcome_bind_def expect_def FileSystemName_new_plain Let_def
      DEFAULT_CLIENT_ENV_SUBDIR_def DEFAULT_SERVER_ENV_SUBDIR_def DEFAULT_CA_ENV_SUBDIR_def del: has_duplicates.simps)

lemma joined_starts_with: "plain_name n \<Longrightarrow> path_starts_with (path_join root n) root"
  by (simp add: path_starts_with_def path_key_subkey subkey_def)

lemma test_environments_are_always_under_root_passes: test_environments_are_always_under_root
  by (simp add: test_environments_are_always_under_root_def default_environment joined_starts_with)

lemma test_builder_fails_on_duplicate_environments_passes: test_builder_fails_on_duplicate_environments
proof -
  have "plain_name ''same_name''" by (simp add: plain_name_def component_ok_def)
  then show ?thesis
    by (simp add: test_builder_fails_on_duplicate_environments_def FileSystemName_new_plain expect_def
        from_simulation_dir_def with_client_dir_def with_server_dir_def EnvironmentGeneratorBuilder_build_def
        name_or_default_def outcome_bind_def Let_def DEFAULT_CA_ENV_SUBDIR_def)
qed

lemma test_generator_eval:
  assumes "plain_name sp" and "plain_name cp" and "plain_name toml"
  shows "test_generator root sp cp toml test = test (if sp = cp then Inl EqualPrefixes
    else Inr ((described_generator \<lparr>cli_root = root, cli_client_dir = None, cli_server_dir = None, cli_ca_dir = None,
      cli_server_prefix = sp, cli_ca_prefix = cp\<rparr>)\<lparr>gn_client_files := \<lparr>cf_toml_file = FileSystemName toml\<rparr>\<rparr>))"
  using assms
  by (simp add: test_generator_def default_environment AnyServerFiles_default_plain unwrap_def ClientFiles_default_def
      FileSystemName_new_plain new_from_files_def prefixed_files_def described_generator_def
      client_name_def server_name_def ca_name_def name_of_def
      DEFAULT_CLIENT_ENV_SUBDIR_def DEFAULT_SERVER_ENV_SUBDIR_def DEFAULT_CA_ENV_SUBDIR_def)

lemma plain_test_names [simp]:
  "plain_name ''server_''" "plain_name ''ca_''" "plain_name ''same_prefix_''" "plain_name ''im_non_existent.tetext''"
  "plain_name ''existing_sim_root''" "plain_name ''new_simulation_root''"
  by (simp_all add: plain_name_def component_ok_def)

lemma test_fails_if_root_directory_already_exists_passes: test_fails_if_root_directory_already_exists
  using example_crates_work
  by (simp add: test_fails_if_root_directory_already_exists_def test_generator_eval unwrap_def unwrap_err_def
      generate_all_def generate_keys_and_distribute_def working_crates_def step_bind_def step_map_err_def run_bind_def
      outcome_bind_def described_generator_def create_dir_def working_os_def key_exists_def dir_exists_def temp_fs_def
      path_join_def path_is_absolute_def Let_def)

lemma test_generator_fails_with_equal_prefixes_passes: test_generator_fails_with_equal_prefixes
  by (simp add: test_generator_fails_with_equal_prefixes_def test_generator_eval)

definition test_cli :: Cli where
  "test_cli = \<lparr>cli_root = ''/tmp/new_simulation_root'', cli_client_dir = None, cli_server_dir = None, cli_ca_dir = None,
     cli_server_prefix = ''server_'', cli_ca_prefix = ''ca_''\<rparr>"

lemma test_cli_names [simp]:
  "client_name test_cli = ''client_env''" "server_name test_cli = ''server_env''" "ca_name test_cli = ''ca_env''"
  "cli_root test_cli = ''/tmp/new_simulation_root''" "cli_server_prefix test_cli = ''server_''"
  "cli_ca_prefix test_cli = ''ca_''"
  by (simp_all add: test_cli_def client_name_def server_name_def ca_name_def name_of_def
      DEFAULT_CLIENT_ENV_SUBDIR_def DEFAULT_SERVER_ENV_SUBDIR_def DEFAULT_CA_ENV_SUBDIR_def)

lemma test_root: "path_join ''/tmp'' ''new_simulation_root'' = cli_root test_cli"
  by (simp add: path_join_def path_is_absolute_def)

lemma test_root_key: "path_key (cli_root test_cli) = (True, [''tmp'', ''new_simulation_root''])"
proof -
  have "path_key ''/tmp'' = (True, [''tmp''])" by (simp add: path_key_parts path_is_absolute_def)
  then show ?thesis unfolding test_root[symmetric] by (simp add: path_key_subkey subkey_def)
qed

lemma test_cli_generator:
  "test_generator (cli_root test_cli) ''server_'' ''ca_'' ''config.toml'' test = test (Inr (described_generator test_cli))"
proof -
  have "(described_generator test_cli)\<lparr>gn_client_files := \<lparr>cf_toml_file = FileSystemName ''config.toml''\<rparr>\<rparr> =
      described_generator test_cli"
    by (simp add: described_generator_def)
  then show ?thesis by (simp add: test_generator_eval test_cli_def)
qed

lemma test_cli_generates:
  "generate_all example_gen_crates (working_os id) example_machine (described_generator test_cli) (temp_fs []) =
     Returns (Inr (), \<lparr>gf_dirs = insert (True, [''tmp'']) (environment_dirs test_cli),
       gf_files = map_of (environment_files test_cli example_key_material ''server'' ''client'' ''ca'')\<rparr>)"
proof -
  have fs: "fs_ok (temp_fs [])" "\<not> key_exists (temp_fs []) (path_key (cli_root test_cli))"
    "dir_exists (temp_fs []) (key_parent (path_key (cli_root test_cli)))"
    by (auto simp: fs_ok_def temp_fs_def key_exists_def dir_exists_def key_parent_def test_root_key
        simp del: test_cli_names)
  have "cli_ok test_cli" by (simp add: cli_ok_def)
  from generate_all_from_scratch[OF this fs example_crates_work, of id example_machine] show ?thesis
    by (simp add: temp_fs_def)
qed

lemma plain_generated_names [simp]:
  "plain_name ''ca_tls_certificate.pem''" "plain_name ''ca_tls_private_key.pem''" "plain_name ''server_rsa_pub_key.pem''"
  "plain_name ''server_tls_private_key.pem''" "plain_name ''server_tls_certificate.pem''"
  "plain_name ''server_rsa_priv_key.pem''" "plain_name ''server_config.toml''"
  by (simp_all add: plain_name_def component_ok_def)

lemma test_cli_files:
  assumes "k \<in> set (map fst (environment_files test_cli km ss sc sa))"
  shows "\<exists>content. map_of (environment_files test_cli km ss sc sa) k = Some content"
  using assms by (metis list.set_map map_of_eq_None_iff not_None_eq)

lemma test_successful_generation_from_scratch_passes: test_successful_generation_from_scratch
proof -
  have f: "\<exists>content. map_of (environment_files test_cli example_key_material ''server'' ''client'' ''ca'')
      (subkey (subkey (path_key ''/tmp/new_simulation_root'') d) n) = Some content"
    if "(d, n) \<in> {(''client_env'', ''ca_tls_certificate.pem''), (''client_env'', ''server_rsa_pub_key.pem''),
      (''client_env'', ''config.toml''), (''server_env'', ''server_tls_private_key.pem''),
      (''server_env'', ''server_tls_certificate.pem''), (''server_env'', ''server_rsa_priv_key.pem''),
      (''server_env'', ''ca_tls_certificate.pem''), (''server_env'', ''server_config.toml''),
      (''ca_env'', ''ca_tls_certificate.pem''), (''ca_env'', ''ca_tls_private_key.pem'')}" for d n
    using that by (intro test_cli_files) (auto simp: environment_files_def environment_keys_def Let_def)
  show ?thesis
    unfolding test_successful_generation_from_scratch_def test_root Let_def test_cli_generator
    by (simp add: unwrap_def test_cli_generates key_exists_def dir_exists_def path_key_subkey f
        DEFAULT_CLIENT_ENV_SUBDIR_def DEFAULT_SERVER_ENV_SUBDIR_def DEFAULT_CA_ENV_SUBDIR_def
        environment_dirs_def Let_def)
qed

end
