(* ===== verification/Spec2Isabelle.thy ===== *)
theory Spec2Isabelle
  imports Client_Server Programs Server_Logins System_Tests
begin

text \<open>
  A verification development of the Simple TimeStamp Server (STSS), a workspace of Rust crates.

  \<^bold>\<open>The program.\<close> A server signs pairs of a SHA-256 hash and a timestamp for registered users, who
  pay one token per signature. A client library and a command line client talk to it over TLS with
  length-delimited frames; a small certification authority issues certificates to the server,
  which asks for them in its rekey mode; an environment generator creates directories, keys and
  configuration files for all three. The parts interact through messages (client and server,
  server and authority), through files (generator, readers, database) and, inside the server,
  through a shared state: database, set of logged users, clock, cancellation token.

  \<^bold>\<open>Theories and sources.\<close>
  \<^item> \<open>Prelude\<close>: machine integers with checked arithmetic, results (\<open>Inl\<close> the error) and panics
    (\<open>outcome\<close>), byte codecs, I/O errors, addresses; the interfaces \<open>fixed_codec\<close> and
    \<open>invariant_system\<close>.
  \<^item> \<open>Std_Path\<close>, \<open>Std_Text\<close>: the part of \<^verbatim>\<open>std\<close> that is used for paths and texts. Strings are
    their UTF-8 bytes, as lists of characters; lengths are lengths in bytes, as in Rust.
  \<^item> \<open>Protocol\<close>: \<^verbatim>\<open>shared_library/src/server_protocol.rs\<close> and \<^verbatim>\<open>ca_protocol.rs\<close>. Hashes, signatures,
    timestamps, signing, verifying, requests and responses.
  \<^item> \<open>Safe_Read\<close>: \<^verbatim>\<open>shared_library/src/safe_read.rs\<close>, \<^verbatim>\<open>client_core/src/file_hasher.rs\<close>.
  \<^item> \<open>Database\<close>, \<open>Database_Builder\<close>: \<^verbatim>\<open>server/src/database.rs\<close>. Rows in lists with the constraints
    of the tables; every query may fail (\<open>sql_io\<close>); opening, creating and validating the file.
  \<^item> \<open>Time_Oracle\<close>: \<^verbatim>\<open>server/src/time_oracle.rs\<close>. Offset, clock, synchronisation rounds.
  \<^item> \<open>Signer\<close>: both signers of \<^verbatim>\<open>server/src/server.rs\<close> behind the interface \<open>timestamp_signer\<close>.
  \<^item> \<open>Connection_Handler\<close>: \<^verbatim>\<open>server/src/connection_handler.rs\<close>, the loops before and after login with
    every branch. A round gives what the stream yields and what other tasks do to the shared state
    before each access to it (\<open>rd_env\<close>).
  \<^item> \<open>Handler_Invariants\<close>, \<open>Handler_Properties\<close>: one relation for all actions on the shared state,
    and what the handler guarantees under the interference of such actions.
  \<^item> \<open>Handler_Steps\<close>: the same handler as a machine that makes one access to the shared state per step.
  \<^item> \<open>Server\<close>, \<open>Server_Config\<close>: the rest of \<^verbatim>\<open>server/src/server.rs\<close>, \<^verbatim>\<open>config.rs\<close> and the start in
    \<^verbatim>\<open>main.rs\<close>.
  \<^item> \<open>Server_Run\<close>, \<open>Server_Run_Properties\<close>: the running server, \<^verbatim>\<open>run\<close>, \<^verbatim>\<open>run_with_signal\<close> and \<^verbatim>\<open>accept_loop\<close>.
    The state \<open>system\<close> has the shared state, the stage of every connection task and of the accept
    loop, the clock worker and the listener for the signal; \<open>run_step\<close> is one step of one of them.
  \<^item> \<open>Server_Composition\<close>, \<open>Server_Logins\<close>: runs of that system given by their labels, with executable
    steps (\<open>run_next\<close>); what one connection sees of a run; who is logged in during a run.
  \<^item> \<open>Certification_Authority\<close>: \<^verbatim>\<open>certification_authority/src\<close> and \<^verbatim>\<open>server/src/rekey.rs\<close>.
  \<^item> \<open>Client\<close>, \<open>Client_Cli\<close>: \<^verbatim>\<open>client_core/src/client.rs\<close>, \<^verbatim>\<open>client_cli/src\<close>. The menu is a step
    function over rounds of user input; printed lines are values.
  \<^item> \<open>Client_Server\<close>: the client with its stream answered by the request handlers of the server.
  \<^item> \<open>Terraform\<close>, \<open>Terraform_Properties\<close>: \<^verbatim>\<open>terraform/src\<close>. Names, directories, key distribution and
    configuration files over a file system of directories and files.
  \<^item> \<open>Programs\<close>: \<^verbatim>\<open>main\<close> of the authority, of the server with both modes and of the client.
  \<^item> \<open>Unit_Tests\<close>, \<open>System_Tests\<close>: the tests of the repository, run on the model: database, clock offset
    and connection handler; the started server, the clock worker and the generator.
  \<^item> \<open>Example_Codec\<close>: an instance of the message codec on which the examples are evaluated.

  A struct is a \<^theory_text>\<open>record\<close>, an enum a \<^theory_text>\<open>datatype\<close>, a method a definition over explicit state, with
  the names of the source; a name that several crates use has a prefix.

  \<^bold>\<open>What the lemmas show.\<close>
  \<^item> Protocol: encodings are inverted by their decoders, a signature verifies for what was signed
    and is accepted for at most one pair of hash and timestamp.
  \<^item> Database: every reachable database is consistent; on consistent ones the token operations
    refine an account book (\<open>token_ledger\<close>); operations that fail change nothing; the history is
    the newest hundred records. Opening accepts what was created, and the cases in which it does not.
  \<^item> Clock: the offset is the saturated difference to the time of the NTP server, the clock follows
    it, and the worker survives outages.
  \<^item> Handler: sessions start only with valid credentials, a signature costs one token exactly when it
    is handed out, tokens are sound, names are released when connections end, consistency is kept
    under interference, and the error paths on which a token or a login is lost.
  \<^item> Running server: the handler equals its machine of single accesses; in every interleaving of the
    tasks sessions are exclusive, tokens are genuine and paid for, and the shared state changes by
    \<open>server_act\<close> only, which is what the handler lemmas assume of other tasks; a cancelled server stops
    after boundedly many steps unless a client stalls in its handshake, and then it does not.
  \<^item> Composition: what a connection does in any interleaving is a run of the connection handler with
    the other tasks as its interference, so the handler lemmas hold for the running server. The
    logged users are exactly the users of the sessions unless a login reply was lost or a task
    panicked.
  \<^item> Server, authority, rekeying: what a configuration file says is what is started; a signed
    certificate ends up in the output file and nothing else does.
  \<^item> Client: what was signed verifies later; the menu follows the state of the server; a funded user
    obtains a verified timestamp through client and server together.
  \<^item> Generator: a generation from scratch is complete and is read back by the three programs with
    keys that belong together; whatever fails, nothing outside the root changes, by one lemma per
    operation under the interface \<open>fs_invariant\<close>, which is interpreted for well-formedness of the
    file system and for confinement.

  \<^bold>\<open>Loops, bounds, inputs.\<close> No model uses fuel. The loops that run as long as there is something to
  read (chunks of a file, trimming, rows) are recursive functions with termination proofs. The loops
  that wait for the outside (handler, accept loops, synchronisation, menu) recurse over the list of
  what happened so far; a list that is used up is a task that waits. The steps of the running server
  have a weight, at most eight for a connection and two for the accept loop, that bounds its shutdown. Integers have the width of the
  source wherever they can overflow; \<^verbatim>\<open>usize\<close> thread counts and \<^verbatim>\<open>SystemTime\<close>, an integer of
  nanoseconds with its bounds, are the exceptions.

  Code outside the workspace is a parameter: RSA, SHA-256, Argon2, hex, wincode, rcgen, TOML, PEM and
  IP parsers, TLS, chrono, the SQL engine up to the statements that are used. What is assumed of
  them is named (\<open>rsa_correct\<close>, \<open>rsa_binding\<close>, \<open>digest_streams\<close>, \<open>wincode_correct\<close>, \<open>ca_codec_correct\<close>,
  \<open>hex_correct\<close>, \<open>canonical\<close> and others) and holds for the instance the examples use.

  \<^bold>\<open>Not modelled.\<close>
  \<^item> Argument parsing (generated by clap), log lines, prompts and the text of printed messages.
  \<^item> The fairness and the timing of the Tokio scheduler: every interleaving is possible, so what must
    happen is stated as bounds on steps and as the possibility to go on. Sending a response always
    comes to an end, with or without an error.
  \<^item> TLS and framing below the level of frames.
  \<^item> The client side of the socket tests in \<^verbatim>\<open>server.rs\<close>: the certificate verifier and the connector of
    the test client, and the bytes of the TLS alert it reads. The test of the database that stores a
    fraction in an integer column, which the tables of the model cannot hold.
  \<^item> Symbolic links and \<^verbatim>\<open>..\<close> in the root given to the generator: files are keyed by the components
    of their path.
\<close>

end
